(* ===== verification/Relay_Prelude.thy ===== *)
theory Relay_Prelude
  imports Main "HOL-Library.Word"
begin

unbundle bit_operations_syntax

text \<open>
  Shared ground of the development: the machine integers of the Rust sources, the byte
  order conversions of the standard library (\<open>to_be_bytes\<close>, \<open>from_be_bytes\<close> and their
  little-endian twins), checked slicing, Rust strings as sequences of Unicode scalar
  values with the \<open>str\<close> methods the sources call, hash maps as partial functions together
  with an iteration order, and the collections of rewrite and introduction rules that the
  component theories add to.

  \<^item> \<open>usize\<close> is \<open>nat\<close>: every \<open>usize\<close> of the sources is the length of a buffer or a
    configured limit. Fixed-width integers are words, so wrap-around is the word's own.
  \<^item> A panic (a slice or an index out of range) is the value \<open>Panic\<close> of \<open>res\<close>, so
    that its absence is a theorem.
  \<^item> The iteration order of a hash map is unspecified. An operation that iterates takes
    an \<open>iter\<close> argument that lists the keys, and \<open>hash_iter\<close> says all that is known of
    it: each key exactly once.
\<close>

named_theorems byte_simps \<open>layout and byte order of wire formats\<close>
named_theorems mux_simps \<open>field projections and branch equations of the mux layer\<close>
named_theorems inv_intros \<open>preservation of the component invariants\<close>

section \<open>Machine integers and byte order\<close>

type_synonym u8 = "8 word"
type_synonym u16 = "16 word"
type_synonym u32 = "32 word"
type_synonym u64 = "64 word"
type_synonym usize = nat
type_synonym bytes = "u8 list"

definition be16 :: "u16 \<Rightarrow> bytes" where
  "be16 w = [ucast (drop_bit 8 w), ucast w]"

definition be32 :: "u32 \<Rightarrow> bytes" where
  "be32 w = [ucast (drop_bit 24 w), ucast (drop_bit 16 w), ucast (drop_bit 8 w), ucast w]"

definition le32 :: "u32 \<Rightarrow> bytes" where
  "le32 w = [ucast w, ucast (drop_bit 8 w), ucast (drop_bit 16 w), ucast (drop_bit 24 w)]"

definition from_be16 :: "u8 \<Rightarrow> u8 \<Rightarrow> u16" where
  "from_be16 a b = push_bit 8 (ucast a) OR ucast b"

definition from_be32 :: "u8 \<Rightarrow> u8 \<Rightarrow> u8 \<Rightarrow> u8 \<Rightarrow> u32" where
  "from_be32 a b c d =
     push_bit 24 (ucast a) OR push_bit 16 (ucast b) OR push_bit 8 (ucast c) OR ucast d"

definition from_le32 :: "u8 \<Rightarrow> u8 \<Rightarrow> u8 \<Rightarrow> u8 \<Rightarrow> u32" where
  "from_le32 a b c d = from_be32 d c b a"

text \<open>\<open>saturating_sub\<close> on \<open>usize\<close> is subtraction on the natural numbers; on \<open>u32\<close>:\<close>

definition saturating_sub32 :: "u32 \<Rightarrow> u32 \<Rightarrow> u32" where
  "saturating_sub32 a b = (if a < b then 0 else a - b)"

section \<open>Results and checked slices\<close>

datatype ('e, 'a) res = Ok 'a | Err 'e | Panic

fun res_bind :: "('e, 'a) res \<Rightarrow> ('a \<Rightarrow> ('e, 'b) res) \<Rightarrow> ('e, 'b) res" where
  "res_bind (Ok x) f = f x"
| "res_bind (Err e) f = Err e"
| "res_bind Panic f = Panic"

fun is_Ok :: "('e, 'a) res \<Rightarrow> bool" where
  "is_Ok (Ok _) = True"
| "is_Ok _ = False"

text \<open>\<open>&data[a..b]\<close>: \<open>None\<close> where Rust panics.\<close>

definition slice :: "'a list \<Rightarrow> nat \<Rightarrow> nat \<Rightarrow> 'a list option" where
  "slice xs a b = (if a \<le> b \<and> b \<le> length xs then Some (take (b - a) (drop a xs)) else None)"

text \<open>\<open>from_be_bytes([data[i], ..., data[i+3]])\<close>: \<open>None\<close> where an index panics.\<close>

definition read_be16 :: "bytes \<Rightarrow> nat \<Rightarrow> u16 option" where
  "read_be16 xs i = (if i + 2 \<le> length xs then Some (from_be16 (xs ! i) (xs ! (i + 1))) else None)"

definition read_be32 :: "bytes \<Rightarrow> nat \<Rightarrow> u32 option" where
  "read_be32 xs i =
     (if i + 4 \<le> length xs
      then Some (from_be32 (xs ! i) (xs ! (i + 1)) (xs ! (i + 2)) (xs ! (i + 3))) else None)"

definition read_le32 :: "bytes \<Rightarrow> nat \<Rightarrow> u32 option" where
  "read_le32 xs i =
     (if i + 4 \<le> length xs
      then Some (from_le32 (xs ! i) (xs ! (i + 1)) (xs ! (i + 2)) (xs ! (i + 3))) else None)"

fun or_panic :: "'a option \<Rightarrow> ('e, 'a) res" where
  "or_panic (Some x) = Ok x"
| "or_panic None = Panic"

section \<open>Rust strings\<close>

text \<open>
  A \<open>String\<close> is a list of Unicode scalar values. \<open>len()\<close> counts UTF-8 bytes, \<open>bytes()\<close>
  are the UTF-8 bytes, \<open>trim\<close> removes scalar values with the \<open>White_Space\<close> property, and
  slicing by byte index panics off a character boundary.
\<close>

type_synonym rstr = "nat list"

definition lit :: "string \<Rightarrow> rstr" where
  "lit s = map of_char s"

definition is_whitespace :: "nat \<Rightarrow> bool" where
  "is_whitespace c \<longleftrightarrow> (9 \<le> c \<and> c \<le> 13) \<or> c = 32 \<or> c = 0x85 \<or> c = 0xA0 \<or> c = 0x1680
     \<or> (0x2000 \<le> c \<and> c \<le> 0x200A) \<or> c = 0x2028 \<or> c = 0x2029 \<or> c = 0x202F \<or> c = 0x205F \<or> c = 0x3000"

definition trim_end_while :: "(nat \<Rightarrow> bool) \<Rightarrow> rstr \<Rightarrow> rstr" where
  "trim_end_while p s = rev (dropWhile p (rev s))"

definition trim :: "rstr \<Rightarrow> rstr" where
  "trim s = trim_end_while is_whitespace (dropWhile is_whitespace s)"

definition trim_end_nul :: "rstr \<Rightarrow> rstr" where
  "trim_end_nul s = trim_end_while (\<lambda>c. c = 0) s"

definition utf8_char :: "nat \<Rightarrow> bytes" where
  "utf8_char c =
     (if c < 0x80 then [word_of_nat c]
      else if c < 0x800 then [word_of_nat (0xC0 + c div 64), word_of_nat (0x80 + c mod 64)]
      else if c < 0x10000 then
        [word_of_nat (0xE0 + c div 4096), word_of_nat (0x80 + c div 64 mod 64),
         word_of_nat (0x80 + c mod 64)]
      else [word_of_nat (0xF0 + c div 262144), word_of_nat (0x80 + c div 4096 mod 64),
            word_of_nat (0x80 + c div 64 mod 64), word_of_nat (0x80 + c mod 64)])"

definition str_bytes :: "rstr \<Rightarrow> bytes" where
  "str_bytes s = concat (map utf8_char s)"

definition str_len :: "rstr \<Rightarrow> nat" where
  "str_len s = length (str_bytes s)"

fun contains_str :: "rstr \<Rightarrow> rstr \<Rightarrow> bool" where
  "contains_str s p = (take (length p) s = p \<or> (case s of [] \<Rightarrow> False | _ # t \<Rightarrow> contains_str t p))"

declare contains_str.simps [simp del]

text \<open>\<open>(&s[..n], &s[n..])\<close> with a byte index: \<open>None\<close> where Rust panics.\<close>

fun str_split_at :: "nat \<Rightarrow> rstr \<Rightarrow> (rstr \<times> rstr) option" where
  "str_split_at n [] = (if n = 0 then Some ([], []) else None)"
| "str_split_at n (c # s) =
     (if n = 0 then Some ([], c # s)
      else if length (utf8_char c) \<le> n
        then map_option (\<lambda>(l, r). (c # l, r)) (str_split_at (n - length (utf8_char c)) s)
        else None)"

definition ends_with :: "rstr \<Rightarrow> rstr \<Rightarrow> bool" where
  "ends_with s p \<longleftrightarrow> length p \<le> length s \<and> drop (length s - length p) s = p"

text \<open>\<open>trim_end_matches\<close> with a non-empty string pattern: strips the suffix as often as it occurs.\<close>

function trim_end_str :: "rstr \<Rightarrow> rstr \<Rightarrow> rstr" where
  "trim_end_str p s =
     (if p \<noteq> [] \<and> ends_with s p then trim_end_str p (take (length s - length p) s) else s)"
  by pat_completeness auto
termination
  by (relation "measure (\<lambda>(p, s). length s)") (auto simp: ends_with_def neq_Nil_conv)

declare trim_end_str.simps [simp del]

definition strip_prefix :: "rstr \<Rightarrow> rstr \<Rightarrow> rstr option" where
  "strip_prefix p s = (if take (length p) s = p then Some (drop (length p) s) else None)"

text \<open>\<open>{}\<close> formatting of an unsigned integer.\<close>

fun show_nat :: "nat \<Rightarrow> rstr" where
  "show_nat n = (if n < 10 then [48 + n] else show_nat (n div 10) @ [48 + n mod 10])"

declare show_nat.simps [simp del]

text \<open>\<open>split(c)\<close>: the pieces between the separators, always at least one.\<close>

fun split_on :: "nat \<Rightarrow> rstr \<Rightarrow> rstr list" where
  "split_on c [] = [[]]"
| "split_on c (x # s) =
     (if x = c then [] # split_on c s
      else case split_on c s of [] \<Rightarrow> [[x]] | p # ps \<Rightarrow> (x # p) # ps)"

text \<open>\<open>lines()\<close>: split at line feeds, a final empty piece dropped, one carriage return before a
  line feed dropped.\<close>

definition strip_cr :: "rstr \<Rightarrow> rstr" where
  "strip_cr l = (if l \<noteq> [] \<and> last l = 13 then butlast l else l)"

definition str_lines :: "rstr \<Rightarrow> rstr list" where
  "str_lines s = (let ls = split_on 10 s
                  in map strip_cr (butlast ls) @ (if last ls = [] then [] else [last ls]))"

text \<open>\<open>parse::<u8/u16/u32>()\<close>: an optional plus sign, then decimal digits, at least one, and no
  overflow past \<open>max\<close>. The digits are accumulated as the standard library does.\<close>

fun parse_digits :: "nat \<Rightarrow> nat \<Rightarrow> nat \<Rightarrow> rstr \<Rightarrow> nat option" where
  "parse_digits radix mx acc [] = Some acc"
| "parse_digits radix mx acc (c # s) =
     (if 48 \<le> c \<and> c < 48 + radix \<and> acc * radix + (c - 48) \<le> mx
      then parse_digits radix mx (acc * radix + (c - 48)) s else None)"

definition parse_uint :: "nat \<Rightarrow> nat \<Rightarrow> rstr \<Rightarrow> nat option" where
  "parse_uint radix mx s =
     (let t = (case s of c # u \<Rightarrow> if c = 43 \<and> u \<noteq> [] then u else s | [] \<Rightarrow> [])
      in if t = [] then None else parse_digits radix mx 0 t)"

section \<open>Hash maps\<close>

definition hash_iter :: "(('k \<rightharpoonup> 'v) \<Rightarrow> 'k list) \<Rightarrow> bool" where
  "hash_iter iter \<longleftrightarrow> (\<forall>m. finite (dom m) \<longrightarrow> distinct (iter m) \<and> set (iter m) = dom m)"

section \<open>Lemmas on byte order\<close>

lemma bit_u8_high [simp]: "8 \<le> n \<Longrightarrow> \<not> bit (b :: u8) n"
  by (auto dest: bit_imp_le_length)

lemma from_be16_be16 [simp, byte_simps]: "from_be16 (ucast (drop_bit 8 w)) (ucast w) = w"
  unfolding from_be16_def by (rule bit_word_eqI) (auto simp: bit_simps)

lemma from_be32_be32 [simp, byte_simps]:
  "from_be32 (ucast (drop_bit 24 w)) (ucast (drop_bit 16 w)) (ucast (drop_bit 8 w)) (ucast w) = w"
  unfolding from_be32_def
proof (rule bit_word_eqI)
  fix n :: nat
  assume "n < LENGTH(32)"
  then consider "n < 8" | "8 \<le> n \<and> n < 16" | "16 \<le> n \<and> n < 24" | "24 \<le> n \<and> n < 32"
    by force
  then show "bit (push_bit 24 (ucast (ucast (drop_bit 24 w) :: u8) :: u32)
      OR push_bit 16 (ucast (ucast (drop_bit 16 w) :: u8))
      OR push_bit 8 (ucast (ucast (drop_bit 8 w) :: u8)) OR ucast (ucast w :: u8)) n = bit w n"
    by cases (auto simp: bit_simps)
qed

lemma from_le32_le32 [simp, byte_simps]:
  "from_le32 (ucast w) (ucast (drop_bit 8 w)) (ucast (drop_bit 16 w)) (ucast (drop_bit 24 w)) = w"
  by (simp add: from_le32_def)

lemma be16_from_be16: "be16 (from_be16 a b) = [a, b]"
  unfolding from_be16_def be16_def by (auto intro!: bit_word_eqI simp: bit_simps)

lemma be32_from_be32: "be32 (from_be32 a b c d) = [a, b, c, d]"
  unfolding from_be32_def be32_def by (auto intro!: bit_word_eqI simp: bit_simps)

lemma length_be16 [simp]: "length (be16 w) = 2"
  by (simp add: be16_def)

lemma length_be32 [simp]: "length (be32 w) = 4"
  by (simp add: be32_def)

lemma length_le32 [simp]: "length (le32 w) = 4"
  by (simp add: le32_def)

text \<open>Reading a field back at the offset where it was written.\<close>

lemma read_be16_at [byte_simps]: "length xs = i \<Longrightarrow> read_be16 (xs @ be16 w @ ys) i = Some w"
  by (auto simp: read_be16_def be16_def nth_append)

lemma read_be32_at [byte_simps]: "length xs = i \<Longrightarrow> read_be32 (xs @ be32 w @ ys) i = Some w"
  by (auto simp: read_be32_def be32_def nth_append)

lemma read_le32_at [byte_simps]: "length xs = i \<Longrightarrow> read_le32 (xs @ le32 w @ ys) i = Some w"
  by (auto simp: read_le32_def le32_def nth_append)

lemma read_be16_None_iff [simp]: "read_be16 xs i = None \<longleftrightarrow> length xs < i + 2"
  by (auto simp: read_be16_def)

lemma read_be32_None_iff [simp]: "read_be32 xs i = None \<longleftrightarrow> length xs < i + 4"
  by (auto simp: read_be32_def)

lemma read_be32_append: "i + 4 \<le> length xs \<Longrightarrow> read_be32 (xs @ ys) i = read_be32 xs i"
  by (auto simp: read_be32_def nth_append)

lemma read_be32_take: "i + 4 \<le> n \<Longrightarrow> n \<le> length xs \<Longrightarrow> read_be32 (take n xs) i = read_be32 xs i"
  by (auto simp: read_be32_def)

lemma slice_None_iff [simp]: "slice xs a b = None \<longleftrightarrow> b < a \<or> length xs < b"
  by (auto simp: slice_def)

lemma slice_append: "length xs = a \<Longrightarrow> b = a + length ys \<Longrightarrow> slice (xs @ ys @ zs) a b = Some ys"
  by (auto simp: slice_def)

lemma length_slice: "slice xs a b = Some ys \<Longrightarrow> length ys = b - a"
  by (auto simp: slice_def split: if_splits)

lemma or_panic_eq_Panic [simp]: "or_panic x = Panic \<longleftrightarrow> x = None"
  by (cases x) auto

lemma or_panic_neq_Err [simp]: "or_panic x \<noteq> Err e"
  by (cases x) auto

lemma res_bind_eq_Ok: "res_bind x f = Ok y \<longleftrightarrow> (\<exists>a. x = Ok a \<and> f a = Ok y)"
  by (cases x) auto

lemma res_bind_eq_Panic: "res_bind x f = Panic \<longleftrightarrow> x = Panic \<or> (\<exists>a. x = Ok a \<and> f a = Panic)"
  by (cases x) auto

lemma saturating_sub32_unat: "unat (saturating_sub32 a b) = unat a - unat b"
  by (auto simp: saturating_sub32_def word_less_nat_alt unat_sub_if_size word_size not_less)

section \<open>Lemmas on strings\<close>

lemma trim_end_while_snoc:
  "trim_end_while p (s @ [c]) = (if p c then trim_end_while p s else s @ [c])"
  by (simp add: trim_end_while_def)

lemma trim_end_while_Nil [simp]: "trim_end_while p [] = []"
  by (simp add: trim_end_while_def)

lemma trim_end_while_prefix: "\<exists>t. s = trim_end_while p s @ t \<and> (\<forall>c \<in> set t. p c)"
proof (induction s rule: rev_induct)
  case (snoc c s)
  then obtain t where "s = trim_end_while p s @ t" and "\<forall>c \<in> set t. p c" by blast
  then show ?case
    by (cases "p c") (auto simp: trim_end_while_snoc intro!: exI [of _ "t @ [c]"])
qed simp

lemma set_trim_end_while: "set (trim_end_while p s) \<subseteq> set s"
  by (auto simp: trim_end_while_def dest: set_dropWhileD)

lemma trim_end_while_last: "trim_end_while p s \<noteq> [] \<Longrightarrow> \<not> p (last (trim_end_while p s))"
  by (induction s rule: rev_induct) (auto simp: trim_end_while_snoc)

lemma trim_end_while_id: "s = [] \<or> \<not> p (last s) \<Longrightarrow> trim_end_while p s = s"
  by (cases s rule: rev_cases) (auto simp: trim_end_while_snoc)

lemma trim_end_while_idem [simp]: "trim_end_while p (trim_end_while p s) = trim_end_while p s"
  by (rule trim_end_while_id) (use trim_end_while_last in blast)

lemma str_bytes_Nil [simp]: "str_bytes [] = []"
  by (simp add: str_bytes_def)

lemma str_bytes_Cons [simp]: "str_bytes (c # s) = utf8_char c @ str_bytes s"
  by (simp add: str_bytes_def)

lemma utf8_char_not_Nil [simp]: "utf8_char c \<noteq> []"
  by (simp add: utf8_char_def)

lemma utf8_char_ascii: "c < 128 \<Longrightarrow> utf8_char c = [word_of_nat c]"
  by (simp add: utf8_char_def)

lemma lit_Nil [simp]: "lit [] = []"
  by (simp add: lit_def)

lemma lit_Cons [simp]: "lit (c # s) = of_char c # lit s"
  by (simp add: lit_def)

lemma split_on_not_Nil [simp]: "split_on c s \<noteq> []"
  by (cases s) (auto split: list.splits)

lemma split_on_none: "c \<notin> set s \<Longrightarrow> split_on c s = [s]"
  by (induction s) auto

lemma split_on_append_sep: "c \<notin> set s \<Longrightarrow> split_on c (s @ c # t) = s # split_on c t"
  by (induction s) auto

lemma parse_digits_append:
  "parse_digits r mx acc (s @ t)
     = (case parse_digits r mx acc s of None \<Rightarrow> None | Some a \<Rightarrow> parse_digits r mx a t)"
  by (induction s arbitrary: acc) auto

lemma show_nat_not_Nil [simp]: "show_nat n \<noteq> []"
  by (simp add: show_nat.simps [of n])

lemma show_nat_digits: "c \<in> set (show_nat n) \<Longrightarrow> 48 \<le> c \<and> c \<le> 57"
proof (induction n rule: show_nat.induct)
  case (1 n)
  show ?case
  proof (cases "n < 10")
    case True
    with "1.prems" show ?thesis by (simp add: show_nat.simps [of n])
  next
    case False
    with 1 have "c \<in> set (show_nat (n div 10)) \<or> c = 48 + n mod 10"
      by (auto simp: show_nat.simps [of n])
    then show ?thesis
    proof
      assume "c = 48 + n mod 10"
      then show ?thesis using mod_less_divisor [of 10 n] by linarith
    qed (use 1 False in blast)
  qed
qed

lemma parse_digits_show_nat: "n \<le> mx \<Longrightarrow> parse_digits 10 mx 0 (show_nat n) = Some n"
proof (induction n rule: show_nat.induct)
  case (1 n)
  have "n mod 10 < 10" by simp
  with 1 show ?case
    by (cases "n < 10") (auto simp: show_nat.simps [of n] parse_digits_append)
qed

text \<open>Printing an unsigned integer and parsing it back.\<close>

lemma parse_uint_show_nat: "n \<le> mx \<Longrightarrow> parse_uint 10 mx (show_nat n) = Some n"
proof -
  assume "n \<le> mx"
  obtain c u where cu: "show_nat n = c # u" by (cases "show_nat n") auto
  then have "c \<noteq> 43" using show_nat_digits [of c n] by auto
  with cu parse_digits_show_nat [OF \<open>n \<le> mx\<close>] show ?thesis
    by (auto simp: parse_uint_def)
qed

lemma parse_digits_le: "parse_digits r mx acc s = Some n \<Longrightarrow> acc \<le> mx \<Longrightarrow> n \<le> mx"
  by (induction s arbitrary: acc) (auto split: if_splits)

lemma parse_uint_le: "parse_uint r mx s = Some n \<Longrightarrow> n \<le> mx"
  by (auto simp: parse_uint_def Let_def dest: parse_digits_le split: if_splits)

section \<open>Lemmas on hash maps\<close>

lemma hash_iterD:
  assumes "hash_iter iter" and "finite (dom m)"
  shows "distinct (iter m)" and "set (iter m) = dom m"
  using assms by (auto simp: hash_iter_def)

lemma hash_iter_witness:
  "hash_iter (\<lambda>m :: 'k :: linorder \<rightharpoonup> 'v. sorted_list_of_set (dom m))"
  by (simp add: hash_iter_def)

lemma find_SomeD: "find P xs = Some x \<Longrightarrow> x \<in> set xs \<and> P x"
  by (induction xs) (auto split: if_splits)

lemma find_unique:
  assumes "x \<in> set xs" and "P x" and "\<And>y. y \<in> set xs \<Longrightarrow> P y \<Longrightarrow> y = x"
  shows "find P xs = Some x"
  using assms
proof (induction xs)
  case (Cons a xs)
  show ?case
  proof (cases "P a")
    case True
    with Cons.prems(3) [of a] show ?thesis by simp
  next
    case False
    with Cons.prems(1,2) have "x \<in> set xs" by auto
    moreover have "y \<in> set xs \<Longrightarrow> P y \<Longrightarrow> y = x" for y
      by (rule Cons.prems(3)) simp_all
    ultimately have "find P xs = Some x"
      using Cons.prems(2) by (intro Cons.IH) blast+
    with False show ?thesis by simp
  qed
qed simp

end
