(* ===== verification/Mux_Frame.thy ===== *)
theory Mux_Frame
  imports Relay_Prelude
begin

unbundle bit_operations_syntax

text \<open>
  The wire formats of \<open>daemon/mux.rs\<close>: the mux header in its 8-byte (version 1) and
  16-byte (version 2) forms, the TCP header carried inside, and every builder and parser
  of the file. The parsers are written with checked reads, so a panic would be visible.
  The theorems are the round trips between builders and parsers, the absence of panics on
  arbitrary input, and what the unused helpers of the file really produce.
\<close>

section \<open>Constants\<close>

definition HEADER_SIZE :: usize where "HEADER_SIZE = 8"

definition HEADER_VERSION :: u32 where "HEADER_VERSION = 0"

definition HEADER_CONTROL :: u32 where "HEADER_CONTROL = 1"

definition HEADER_SETUP :: u32 where "HEADER_SETUP = 2"

definition HEADER_TCP :: u32 where "HEADER_TCP = 6"

definition TCP_FIN :: u16 where "TCP_FIN = 0x001"

definition TCP_SYN :: u16 where "TCP_SYN = 0x002"

definition TCP_RST :: u16 where "TCP_RST = 0x004"

definition TCP_PSH :: u16 where "TCP_PSH = 0x008"

definition TCP_ACK :: u16 where "TCP_ACK = 0x010"

definition USB_MTU :: usize where "USB_MTU = 49152"

definition USB_MRU :: usize where "USB_MRU = 16384"

definition ZLP_THRESHOLD :: usize where "ZLP_THRESHOLD = 512"

definition INITIAL_WINDOW :: u32 where "INITIAL_WINDOW = 131072"

lemmas mux_const_defs = HEADER_SIZE_def HEADER_VERSION_def HEADER_CONTROL_def HEADER_SETUP_def
  HEADER_TCP_def TCP_FIN_def TCP_SYN_def TCP_RST_def TCP_PSH_def TCP_ACK_def INITIAL_WINDOW_def

section \<open>Errors, headers and packets\<close>

datatype mux_error =
    InvalidHeader rstr
  | InvalidVersion rstr
  | InvalidState rstr
  | IoError rstr
  | UsbError rstr
  | ChannelError rstr
  | UnsupportedVersion u32
  | UnsupportedProtocol u32

fun mux_error_display :: "mux_error \<Rightarrow> rstr" where
  "mux_error_display (InvalidHeader m) = lit ''invalid header: '' @ m"
| "mux_error_display (InvalidVersion m) = lit ''invalid version: '' @ m"
| "mux_error_display (InvalidState m) = lit ''invalid state: '' @ m"
| "mux_error_display (IoError m) = lit ''I/O error: '' @ m"
| "mux_error_display (UsbError m) = lit ''USB error: '' @ m"
| "mux_error_display (ChannelError m) = lit ''channel error: '' @ m"
| "mux_error_display (UnsupportedVersion v) = lit ''unsupported version: '' @ show_nat (unat v)"
| "mux_error_display (UnsupportedProtocol p) = lit ''unsupported protocol: '' @ show_nat (unat p)"

datatype tcp_flag = Syn | SynAck | Ack | Fin | Rst | Psh

definition tcp_flag_from_u16 :: "u16 \<Rightarrow> tcp_flag list" where
  "tcp_flag_from_u16 flags =
     (if flags AND TCP_SYN \<noteq> 0 then [Syn] else []) @
     (if flags AND TCP_ACK \<noteq> 0 then [Ack] else []) @
     (if flags AND TCP_FIN \<noteq> 0 then [Fin] else []) @
     (if flags AND TCP_RST \<noteq> 0 then [Rst] else []) @
     (if flags AND TCP_PSH \<noteq> 0 then [Psh] else [])"

fun tcp_flag_display :: "tcp_flag \<Rightarrow> rstr" where
  "tcp_flag_display Syn = lit ''SYN''"
| "tcp_flag_display SynAck = lit ''SYN|ACK''"
| "tcp_flag_display Ack = lit ''ACK''"
| "tcp_flag_display Fin = lit ''FIN''"
| "tcp_flag_display Rst = lit ''RST''"
| "tcp_flag_display Psh = lit ''PSH''"

record mux_header =
  mh_protocol :: u32
  mh_length :: u32
  mh_is_v2 :: bool
  mh_tx_seq :: u16
  mh_rx_seq :: u16

definition header_len :: "mux_header \<Rightarrow> usize" where
  "header_len h = (if mh_is_v2 h then 16 else 8)"

record tcp_header =
  th_source_port :: u16
  th_dest_port :: u16
  th_seq :: u32
  th_ack :: u32
  th_offset_flags :: u16
  th_window :: u16

definition th_offset :: "tcp_header \<Rightarrow> u8" where
  "th_offset h = ucast ((drop_bit 12 (th_offset_flags h)) AND 0x0F)"

definition th_flags :: "tcp_header \<Rightarrow> u16" where
  "th_flags h = th_offset_flags h AND 0x0FF"

record tcp_packet =
  tp_header :: tcp_header
  tp_payload :: bytes

datatype mux_packet =
    Version u32 u32
  | Control bytes
  | Setup
  | Tcp tcp_header bytes

section \<open>Parsers\<close>

definition parse_tcp_header :: "bytes \<Rightarrow> (mux_error, tcp_header) res" where
  "parse_tcp_header data =
     (if length data < 20 then Err (InvalidHeader (lit ''too short''))
      else
        res_bind (or_panic (read_be16 data 0)) (\<lambda>sp.
        res_bind (or_panic (read_be16 data 2)) (\<lambda>dp.
        res_bind (or_panic (read_be32 data 4)) (\<lambda>sq.
        res_bind (or_panic (read_be32 data 8)) (\<lambda>ak.
        res_bind (or_panic (read_be16 data 12)) (\<lambda>ofl.
        res_bind (or_panic (read_be16 data 14)) (\<lambda>win.
        Ok \<lparr>th_source_port = sp, th_dest_port = dp, th_seq = sq, th_ack = ak,
            th_offset_flags = ofl, th_window = win\<rparr>)))))))"

definition is_mux_magic :: "u32 \<Rightarrow> bool" where
  "is_mux_magic m \<longleftrightarrow> m = 0xFEEDFACE \<or> m = 0xFACEFACE"

definition parse_mux_header :: "bytes \<Rightarrow> (mux_error, mux_header) res" where
  "parse_mux_header data =
     (if length data < 8
      then Err (InvalidHeader (lit ''too short: '' @ show_nat (length data) @ lit '' bytes''))
      else
        res_bind (or_panic (read_be32 data 0)) (\<lambda>proto.
        res_bind (or_panic (read_be32 data 4)) (\<lambda>len.
        res_bind (if 12 \<le> length data
                  then res_bind (or_panic (read_be32 data 8)) (\<lambda>m. Ok (is_mux_magic m))
                  else Ok False) (\<lambda>v2.
        res_bind (if v2 \<and> 16 \<le> length data
                  then res_bind (or_panic (read_be16 data 12)) (\<lambda>tx.
                       res_bind (or_panic (read_be16 data 14)) (\<lambda>rx. Ok (tx, rx)))
                  else Ok (0, 0)) (\<lambda>(tx, rx).
        Ok \<lparr>mh_protocol = proto, mh_length = len, mh_is_v2 = v2, mh_tx_seq = tx, mh_rx_seq = rx\<rparr>)))))"

definition parse_payload :: "u32 \<Rightarrow> bytes \<Rightarrow> (mux_error, mux_packet) res" where
  "parse_payload proto payload =
     (if proto = HEADER_VERSION then
        res_bind (if 4 \<le> length payload then or_panic (read_be32 payload 0) else Ok 0) (\<lambda>major.
        res_bind (if 8 \<le> length payload then or_panic (read_be32 payload 4) else Ok 0) (\<lambda>minor.
        Ok (Version major minor)))
      else if proto = HEADER_CONTROL then Ok (Control payload)
      else if proto = HEADER_SETUP then Ok Setup
      else if proto = HEADER_TCP then
        (if 20 \<le> length payload then
           res_bind (parse_tcp_header payload) (\<lambda>h.
           res_bind (or_panic (slice payload 20 (length payload))) (\<lambda>p. Ok (Tcp h p)))
         else Err (InvalidHeader (lit ''TCP packet too short'')))
      else Err (UnsupportedProtocol proto))"

definition parse_packet :: "bytes \<Rightarrow> (mux_error, mux_packet) res" where
  "parse_packet data =
     res_bind (parse_mux_header data) (\<lambda>header.
       let payload_start = header_len header; payload_end = unat (mh_length header)
       in if length data < payload_end \<or> payload_end < payload_start
          then Err (InvalidHeader
            (lit ''declared length '' @ show_nat payload_end @ lit '' inconsistent with buffer ''
             @ show_nat (length data) @ lit '' (header '' @ show_nat payload_start @ lit '' bytes)''))
          else res_bind (or_panic (slice data payload_start payload_end))
                 (parse_payload (mh_protocol header)))"

definition parse_tcp_packet :: "bytes \<Rightarrow> (mux_error, tcp_packet) res" where
  "parse_tcp_packet data =
     res_bind (parse_tcp_header data) (\<lambda>h.
     res_bind (or_panic (slice data 20 (length data))) (\<lambda>p.
     Ok \<lparr>tp_header = h, tp_payload = p\<rparr>))"

section \<open>Builders\<close>

definition build_mux_frame :: "u32 \<Rightarrow> (u16 \<times> u16) option \<Rightarrow> bytes \<Rightarrow> bytes" where
  "build_mux_frame proto v2_seqs payload =
     (case v2_seqs of
        Some (tx, rx) \<Rightarrow>
          be32 proto @ be32 (16 + word_of_nat (length payload)) @ be32 0xFEEDFACE @ be16 tx @ be16 rx
      | None \<Rightarrow> be32 proto @ be32 (8 + word_of_nat (length payload))) @ payload"

definition build_version_request :: bytes where
  "build_version_request = build_mux_frame HEADER_VERSION None (be32 2 @ be32 0 @ be32 0)"

definition build_setup_packet :: "u16 \<Rightarrow> u16 \<Rightarrow> bytes" where
  "build_setup_packet tx_seq rx_seq = build_mux_frame HEADER_SETUP (Some (tx_seq, rx_seq)) [0x07]"

definition build_mux_header :: "u32 \<Rightarrow> u32 \<Rightarrow> bytes" where
  "build_mux_header proto len = be32 proto @ be32 len"

definition build_tcp_segment ::
  "u16 \<Rightarrow> u16 \<Rightarrow> u32 \<Rightarrow> u32 \<Rightarrow> u16 \<Rightarrow> u16 \<Rightarrow> bytes option \<Rightarrow> bytes" where
  "build_tcp_segment sport dport tcp_seq tcp_ack flags window payload =
     be16 sport @ be16 dport @ be32 tcp_seq @ be32 tcp_ack
     @ be16 (push_bit 12 0x5 OR (0x0FFF AND flags)) @ be16 window @ [0, 0] @ [0, 0]
     @ (case payload of Some data \<Rightarrow> data | None \<Rightarrow> [])"

definition build_tcp_packet ::
  "(u16 \<times> u16) option \<Rightarrow> u16 \<Rightarrow> u16 \<Rightarrow> u32 \<Rightarrow> u32 \<Rightarrow> u16 \<Rightarrow> u16 \<Rightarrow> bytes option \<Rightarrow> bytes" where
  "build_tcp_packet v2 sport dport tcp_seq tcp_ack flags window payload =
     build_mux_frame HEADER_TCP v2
       (build_tcp_segment sport dport tcp_seq tcp_ack flags window payload)"

definition build_control_packet :: "(u16 \<times> u16) option \<Rightarrow> bytes \<Rightarrow> bytes" where
  "build_control_packet v2 payload = build_mux_frame HEADER_CONTROL v2 payload"

definition build_packet :: "u32 \<Rightarrow> bytes \<Rightarrow> bytes" where
  "build_packet proto data = be32 proto @ be32 (word_of_nat (length data)) @ data"

definition build_control_result :: "u32 \<Rightarrow> u8 \<Rightarrow> bytes" where
  "build_control_result tag status =
     [0, 0, 0, 0, 0, 0, 0, 12, 0, 0, 0, 1, status, 0, 0, 0,
      ucast (drop_bit 24 tag), ucast (drop_bit 16 tag), ucast (drop_bit 8 tag), ucast tag,
      0, 0, 0, 0]"

definition build_setup_connect :: "u16 \<Rightarrow> u16 \<Rightarrow> bytes" where
  "build_setup_connect source_port dest_port =
     [0, 0, 0, 2, 0, 0, 0, 17, 0xFE, 0xED, 0xFA, 0xCE, 0, 0, 0, 0, 0, 0, 0, 1, 7,
      ucast (drop_bit 8 source_port), ucast source_port,
      ucast (drop_bit 8 dest_port), ucast dest_port]"

definition tcp_packet_to_bytes :: "tcp_packet \<Rightarrow> bytes" where
  "tcp_packet_to_bytes pkt =
     (let h = tp_header pkt in
        be16 (th_source_port h) @ be16 (th_dest_port h) @ be32 (th_seq h) @ be32 (th_ack h)
        @ be16 (th_offset_flags h) @ be16 (th_window h) @ [0, 0] @ tp_payload pkt)"

definition increment_seq :: "u16 \<Rightarrow> u16" where
  "increment_seq seq = seq + 1"

definition scaled_window :: "usize \<Rightarrow> u16" where
  "scaled_window free_bytes = word_of_nat (min (drop_bit 8 free_bytes) 65535)"

text \<open>
  A version-1 payload that begins with one of the two magics: the one case in which the
  header parser takes an 8-byte header for a 16-byte one.
\<close>

definition starts_with_magic :: "bytes \<Rightarrow> bool" where
  "starts_with_magic pl \<longleftrightarrow> (case read_be32 pl 0 of Some m \<Rightarrow> is_mux_magic m | None \<Rightarrow> False)"

section \<open>Headers and frames\<close>

lemma length_build_mux_frame:
  "length (build_mux_frame p s pl) = (case s of None \<Rightarrow> 8 | Some _ \<Rightarrow> 16) + length pl"
  by (auto simp: build_mux_frame_def split: option.splits prod.splits)

lemma parse_mux_header_frame_v2 [mux_simps]:
  "parse_mux_header (build_mux_frame p (Some (tx, rx)) pl) =
     Ok \<lparr>mh_protocol = p, mh_length = 16 + word_of_nat (length pl), mh_is_v2 = True,
         mh_tx_seq = tx, mh_rx_seq = rx\<rparr>"
  by (simp add: parse_mux_header_def build_mux_frame_def read_be32_def read_be16_def
      be32_def be16_def is_mux_magic_def nth_append from_be32_def [of 254])

lemma parse_mux_header_frame_v1 [mux_simps]:
  assumes "\<not> starts_with_magic pl"
  shows "parse_mux_header (build_mux_frame p None pl) =
     Ok \<lparr>mh_protocol = p, mh_length = 8 + word_of_nat (length pl), mh_is_v2 = False,
         mh_tx_seq = 0, mh_rx_seq = 0\<rparr>"
proof -
  have 1: "read_be32 (build_mux_frame p None pl) 0 = Some p"
    using read_be32_at [of "[]" 0 p] by (simp add: build_mux_frame_def)
  have 2: "read_be32 (build_mux_frame p None pl) 4 = Some (8 + word_of_nat (length pl))"
    using read_be32_at [of "be32 p" 4 "8 + word_of_nat (length pl)" pl] by (simp add: build_mux_frame_def)
  have 3: "read_be32 (build_mux_frame p None pl) 8 = read_be32 pl 0"
    by (simp add: build_mux_frame_def read_be32_def be32_def nth_append numeral_2_eq_2)
  have "length (build_mux_frame p None pl) = 8 + length pl"
    by (simp add: length_build_mux_frame)
  with assms 1 2 3 show ?thesis
    by (auto simp: parse_mux_header_def starts_with_magic_def split: option.splits)
qed

lemma parse_packet_frame [mux_simps]:
  assumes "length pl < 2 ^ 32 - 16" and "s = None \<longrightarrow> \<not> starts_with_magic pl"
  shows "parse_packet (build_mux_frame p s pl) = parse_payload p pl"
proof (cases s)
  case None
  have u: "unat (8 + word_of_nat (length pl) :: u32) = 8 + length pl"
    using assms(1) by (simp add: unat_word_ariths unat_of_nat)
  have sl: "slice (build_mux_frame p None pl) 8 (8 + length pl) = Some pl"
    using slice_append [of "be32 p @ be32 (8 + word_of_nat (length pl))" 8 _ pl "[]"]
    by (simp add: build_mux_frame_def)
  show ?thesis
    using assms None by (simp add: parse_packet_def parse_mux_header_frame_v1 header_len_def u sl
        length_build_mux_frame)
next
  case (Some sq)
  then obtain tx rx where s: "s = Some (tx, rx)" by (cases sq) auto
  have u: "unat (16 + word_of_nat (length pl) :: u32) = 16 + length pl"
    using assms(1) by (simp add: unat_word_ariths unat_of_nat)
  have sl: "slice (build_mux_frame p s pl) 16 (16 + length pl) = Some pl"
    using slice_append [of "be32 p @ be32 (16 + word_of_nat (length pl)) @ be32 0xFEEDFACE @ be16 tx @ be16 rx" 16 _ pl "[]"]
    by (simp add: build_mux_frame_def s)
  show ?thesis
    using assms s sl by (simp add: parse_packet_def parse_mux_header_frame_v2 header_len_def u
        length_build_mux_frame)
qed

lemma parse_tcp_header_layout [byte_simps]:
  "parse_tcp_header (be16 sp @ be16 dp @ be32 sq @ be32 ak @ be16 ofl @ be16 win @ rest) =
     (if length rest < 4 then Err (InvalidHeader (lit ''too short''))
      else Ok \<lparr>th_source_port = sp, th_dest_port = dp, th_seq = sq, th_ack = ak,
         th_offset_flags = ofl, th_window = win\<rparr>)"
  by (simp add: parse_tcp_header_def read_be32_def read_be16_def be32_def be16_def nth_append)

lemma parse_tcp_segment [mux_simps]:
  "parse_tcp_header (build_tcp_segment sp dp sq ak fl win pl) =
     Ok \<lparr>th_source_port = sp, th_dest_port = dp, th_seq = sq, th_ack = ak,
         th_offset_flags = push_bit 12 0x5 OR (0x0FFF AND fl), th_window = win\<rparr>"
  unfolding build_tcp_segment_def parse_tcp_header_layout by simp

lemma length_build_tcp_segment [simp]:
  "length (build_tcp_segment sp dp sq ak fl win pl) = 20 + (case pl of Some d \<Rightarrow> length d | None \<Rightarrow> 0)"
  by (simp add: build_tcp_segment_def split: option.splits)

lemma drop_build_tcp_segment [mux_simps]:
  "drop 20 (build_tcp_segment sp dp sq ak fl win pl) = (case pl of Some d \<Rightarrow> d | None \<Rightarrow> [])"
  by (simp add: build_tcp_segment_def be16_def be32_def split: option.splits)

lemma from_be32_eq_iff: "from_be32 a b c d = w \<longleftrightarrow> [a, b, c, d] = be32 w"
proof
  assume "[a, b, c, d] = be32 w"
  then show "from_be32 a b c d = w" by (simp add: be32_def)
qed (metis be32_from_be32)

lemma be16_inject [simp]: "be16 v = be16 w \<longleftrightarrow> v = w"
  by (metis be16_def from_be16_be16 nth_Cons_0 nth_Cons_Suc)

lemma be32_two_be16: "be16 a @ be16 b = be32 w \<longleftrightarrow> a = ucast (drop_bit 16 w) \<and> b = ucast w"
proof -
  have "be32 w = be16 (ucast (drop_bit 16 w)) @ be16 (ucast w)"
    unfolding be32_def be16_def by (auto intro!: bit_word_eqI simp: bit_simps)
  then show ?thesis by auto
qed

lemma starts_with_magic_segment:
  "starts_with_magic (build_tcp_segment sp dp sq ak fl win pl) \<longleftrightarrow>
     (sp = 0xFEED \<or> sp = 0xFACE) \<and> dp = 0xFACE"
proof -
  obtain a b c d where ab: "be16 sp = [a, b]" and cd: "be16 dp = [c, d]"
    by (simp add: be16_def)
  then have rd: "read_be32 (build_tcp_segment sp dp sq ak fl win pl) 0 = Some (from_be32 a b c d)"
    by (simp add: build_tcp_segment_def read_be32_def nth_append numeral_2_eq_2 numeral_3_eq_3)
  have "from_be32 a b c d = w \<longleftrightarrow> sp = ucast (drop_bit 16 w) \<and> dp = ucast w" for w
    using be32_two_be16 [of sp dp w] ab cd by (simp add: from_be32_eq_iff)
  then show ?thesis by (auto simp: starts_with_magic_def rd is_mux_magic_def)
qed

lemma u16_masks: "(0xFF :: u16) = mask 8" "(0xFFF :: u16) = mask 12" "(0x0F :: u16) = mask 4"
  by (simp_all add: mask_eq_exp_minus_1)

lemma th_flags_built:
  "th_offset_flags h = push_bit 12 0x5 OR (0x0FFF AND fl) \<Longrightarrow> th_flags h = fl AND 0xFF"
  unfolding th_flags_def u16_masks
  by (auto intro!: bit_word_eqI simp: bit_simps simp del: push_bit_numeral)

lemma th_offset_built:
  "th_offset_flags h = push_bit 12 0x5 OR (0x0FFF AND fl) \<Longrightarrow> th_offset h = 5"
proof -
  assume h: "th_offset_flags h = push_bit 12 0x5 OR (0x0FFF AND fl)"
  have "drop_bit 12 (push_bit 12 0x5 OR (mask 12 AND fl)) = (5 :: u16)" 
    by (auto intro!: bit_word_eqI simp: bit_simps drop_bit_push_bit)
  then show ?thesis by (simp add: th_offset_def h u16_masks(2))
qed

lemma parse_payload_no_panic: "parse_payload p pl \<noteq> Panic"
  by (auto simp: parse_payload_def parse_tcp_header_def res_bind_eq_Panic)

lemma parse_mux_header_no_panic: "parse_mux_header d \<noteq> Panic"
  by (auto simp: parse_mux_header_def res_bind_eq_Panic split: if_splits)

lemma parse_build_tcp_packet [mux_simps]:
  assumes "length (case pl of Some d \<Rightarrow> d | None \<Rightarrow> []) < 2 ^ 32 - 36"
    and "s = None \<longrightarrow> \<not> ((sp = 0xFEED \<or> sp = 0xFACE) \<and> dp = 0xFACE)"
  shows "parse_packet (build_tcp_packet s sp dp sq ak fl win pl) =
     Ok (Tcp \<lparr>th_source_port = sp, th_dest_port = dp, th_seq = sq, th_ack = ak,
         th_offset_flags = push_bit 12 0x5 OR (0x0FFF AND fl), th_window = win\<rparr>
        (case pl of Some d \<Rightarrow> d | None \<Rightarrow> []))"
  using assms
  by (auto simp: build_tcp_packet_def parse_packet_frame starts_with_magic_segment
      parse_payload_def mux_const_defs parse_tcp_segment slice_def drop_build_tcp_segment
      split: option.splits)

section \<open>Properties of the wire formats\<close>

text \<open>A TCP segment built for a device (with the 16-byte header of version 2, or with the
  8-byte header unless its two port fields spell a magic) is parsed back field for field: the
  ports, sequence and acknowledgement numbers, window and payload are those given to the
  builder, the header length is five words, and the flags are the low byte of those given.\<close>

theorem tcp_packet_roundtrip:
  assumes "length (case payload of Some d \<Rightarrow> d | None \<Rightarrow> []) < 2 ^ 32 - 36"
    and "v2 = None \<longrightarrow> \<not> ((sport = 0xFEED \<or> sport = 0xFACE) \<and> dport = 0xFACE)"
  shows "\<exists>h. parse_packet (build_tcp_packet v2 sport dport seq ack flags window payload)
        = Ok (Tcp h (case payload of Some d \<Rightarrow> d | None \<Rightarrow> []))
      \<and> th_source_port h = sport \<and> th_dest_port h = dport \<and> th_seq h = seq \<and> th_ack h = ack
      \<and> th_window h = window \<and> th_offset h = 5 \<and> th_flags h = flags AND 0xFF"
  using parse_build_tcp_packet [OF assms] by (simp add: th_offset_built th_flags_built)

theorem tcp_packet_roundtrip_witness:
  "\<exists>h. parse_packet (build_tcp_packet None 1024 62078 0 0 TCP_SYN 512 (Some [1, 2, 3]))
        = Ok (Tcp h [1, 2, 3])
      \<and> th_source_port h = 1024 \<and> th_dest_port h = 62078 \<and> th_seq h = 0 \<and> th_ack h = 0
      \<and> th_window h = 512 \<and> th_offset h = 5 \<and> th_flags h = TCP_SYN AND 0xFF"
  using tcp_packet_roundtrip [of "Some [1, 2, 3]" None 1024 62078 0 0 TCP_SYN 512] by simp

text \<open>No byte string whatsoever makes the mux packet parser panic: every slice and index it
  takes is in range, whatever the declared length and the magic say.\<close>

theorem parse_packet_no_panic: "parse_packet data \<noteq> Panic"
  by (auto simp: parse_packet_def res_bind_eq_Panic parse_mux_header_no_panic
      parse_payload_no_panic Let_def split: if_splits)

text \<open>The advertised window never promises more than the free space of the buffer: read back
  in its unit of 256 bytes it is at most the free space, it loses less than one unit below the
  16-bit ceiling, and it grows with the free space.\<close>

theorem scaled_window_sound:
  "unat (scaled_window free) * 256 \<le> free
   \<and> (free < 65536 * 256 \<longrightarrow> free - unat (scaled_window free) * 256 < 256)
   \<and> (free \<le> free' \<longrightarrow> scaled_window free \<le> scaled_window free')"
  by (auto simp: scaled_window_def word_le_nat_alt unat_of_nat drop_bit_eq_div min_def
      intro: div_le_mono)

theorem scaled_window_sound_witness:
  "unat (scaled_window 1000) * 256 \<le> 1000 \<and> 1000 - unat (scaled_window 1000) * 256 < 256
   \<and> scaled_window 1000 \<le> scaled_window 2000"
  using scaled_window_sound [of 1000 2000] by simp

text \<open>The serialiser of a parsed TCP packet writes an 18-byte header (no urgent pointer) where
  the parser expects 20: parsing its output loses the first two payload bytes, and fails
  outright on a payload of fewer than two bytes.\<close>

theorem tcp_packet_to_bytes_loses_two:
  "parse_tcp_packet (tcp_packet_to_bytes pkt) =
     (if length (tp_payload pkt) < 2 then Err (InvalidHeader (lit ''too short''))
      else Ok (pkt\<lparr>tp_payload := drop 2 (tp_payload pkt)\<rparr>))"
  unfolding parse_tcp_packet_def tcp_packet_to_bytes_def Let_def parse_tcp_header_layout
  by (auto simp: slice_def be16_def be32_def)

text \<open>The control-result builder does not build a control packet: whatever the tag and the
  status, its output is read as a version announcement of version 1.0.\<close>

theorem control_result_parses_as_version:
  "parse_packet (build_control_result tag status) = Ok (Version 1 0)"
  by (simp add: parse_packet_def parse_mux_header_def build_control_result_def read_be32_def
      is_mux_magic_def from_be32_def header_len_def slice_def parse_payload_def mux_const_defs)

end
