(* ===== verification/Reassembler.thy ===== *)
theory Reassembler
  imports Mux_Frame
begin

text \<open>
  \<open>PacketReassembler\<close> of \<open>daemon/mux.rs\<close>: it turns the chunks that USB bulk reads deliver
  into whole mux frames. \<open>feed_loop\<close> is the loop of \<open>feed\<close> on the buffer; its measure is the
  length of the buffer, which every turn that does not stop makes shorter.

  The locale \<open>framing\<close> is what the reassembler needs of whoever builds frames (the length
  field holds the frame's length and the frame fits the buffer), and \<open>packet_codec\<close> adds a
  parser that inverts the builder; both are interpreted on the builders of \<open>Mux_Frame\<close>.
\<close>

section \<open>State and operations\<close>

record reassembler =
  max_buffer :: usize
  buffers :: bytes

definition reassembler_new :: "usize \<Rightarrow> reassembler" where
  "reassembler_new mx = \<lparr>max_buffer = mx, buffers = []\<rparr>"

definition frame_length :: "bytes \<Rightarrow> nat" where
  "frame_length buf = unat (from_be32 (buf ! 4) (buf ! 5) (buf ! 6) (buf ! 7))"

function feed_loop :: "usize \<Rightarrow> bytes \<Rightarrow> bytes list \<times> bytes" where
  "feed_loop mx buf =
     (if length buf < HEADER_SIZE then ([], buf)
      else if frame_length buf < HEADER_SIZE \<or> mx < frame_length buf then feed_loop mx (tl buf)
      else if length buf < frame_length buf then ([], buf)
      else let (packets, rest) = feed_loop mx (drop (frame_length buf) buf)
           in (take (frame_length buf) buf # packets, rest))"
  by pat_completeness auto
termination
  by (relation "measure (\<lambda>(mx, buf). length buf)") (auto simp: HEADER_SIZE_def)

declare feed_loop.simps [simp del]

definition feed :: "reassembler \<Rightarrow> bytes \<Rightarrow> bytes list \<times> reassembler" where
  "feed r data =
     (let (packets, rest) = feed_loop (max_buffer r) (buffers r @ data)
      in (packets, r\<lparr>buffers := (if max_buffer r < length rest then [] else rest)\<rparr>))"

definition reassembler_clear :: "reassembler \<Rightarrow> reassembler" where
  "reassembler_clear r = r\<lparr>buffers := []\<rparr>"

definition reassembler_len :: "reassembler \<Rightarrow> usize" where
  "reassembler_len r = length (buffers r)"

definition reassembler_is_empty :: "reassembler \<Rightarrow> bool" where
  "reassembler_is_empty r \<longleftrightarrow> buffers r = []"

text \<open>The read loop: one \<open>feed\<close> per chunk, the emitted packets in order.\<close>

fun feed_all :: "reassembler \<Rightarrow> bytes list \<Rightarrow> bytes list \<times> reassembler" where
  "feed_all r [] = ([], r)"
| "feed_all r (c # cs) =
     (let (ps, r') = feed r c; (qs, r'') = feed_all r' cs in (ps @ qs, r''))"

text \<open>Between two calls the buffer holds no complete frame and no byte to be skipped.\<close>

definition reasm_inv :: "reassembler \<Rightarrow> bool" where
  "reasm_inv r \<longleftrightarrow> 7 \<le> max_buffer r \<and> feed_loop (max_buffer r) (buffers r) = ([], buffers r)"

text \<open>A frame the reassembler with buffer limit \<open>mx\<close> recognises.\<close>

definition frame_ok :: "usize \<Rightarrow> bytes \<Rightarrow> bool" where
  "frame_ok mx f \<longleftrightarrow> HEADER_SIZE \<le> length f \<and> length f \<le> mx \<and> frame_length f = length f"

section \<open>The loop\<close>

lemma feed_loop_short [simp]: "length buf < HEADER_SIZE \<Longrightarrow> feed_loop mx buf = ([], buf)"
  by (simp add: feed_loop.simps)

lemma feed_loop_skip:
  "HEADER_SIZE \<le> length buf \<Longrightarrow> frame_length buf < HEADER_SIZE \<or> mx < frame_length buf \<Longrightarrow>
   feed_loop mx buf = feed_loop mx (tl buf)"
  by (subst feed_loop.simps) auto

lemma feed_loop_wait:
  "HEADER_SIZE \<le> length buf \<Longrightarrow> HEADER_SIZE \<le> frame_length buf \<Longrightarrow> frame_length buf \<le> mx \<Longrightarrow>
   length buf < frame_length buf \<Longrightarrow> feed_loop mx buf = ([], buf)"
  by (subst feed_loop.simps) auto

lemma feed_loop_emit:
  "HEADER_SIZE \<le> frame_length buf \<Longrightarrow> frame_length buf \<le> mx \<Longrightarrow>
   frame_length buf \<le> length buf \<Longrightarrow>
   feed_loop mx buf =
     (take (frame_length buf) buf # fst (feed_loop mx (drop (frame_length buf) buf)),
      snd (feed_loop mx (drop (frame_length buf) buf)))"
  by (subst feed_loop.simps) (auto simp: case_prod_beta Let_def)

lemma frame_length_append: "HEADER_SIZE \<le> length a \<Longrightarrow> frame_length (a @ b) = frame_length a"
  by (simp add: frame_length_def HEADER_SIZE_def nth_append)

lemma frame_length_take: "HEADER_SIZE \<le> n \<Longrightarrow> n \<le> length a \<Longrightarrow> frame_length (take n a) = frame_length a"
  by (simp add: frame_length_def HEADER_SIZE_def)

text \<open>Case analysis on one turn of the loop, and the induction that follows it.\<close>

lemma feed_loop_turn [case_names short skip wait emit]:
  obtains "length buf < HEADER_SIZE"
  | "HEADER_SIZE \<le> length buf" "frame_length buf < HEADER_SIZE \<or> mx < frame_length buf"
  | "HEADER_SIZE \<le> length buf" "HEADER_SIZE \<le> frame_length buf" "frame_length buf \<le> mx"
    "length buf < frame_length buf"
  | "HEADER_SIZE \<le> frame_length buf" "frame_length buf \<le> mx" "frame_length buf \<le> length buf"
  by (meson linorder_not_less order_trans)

lemma feed_loop_induct [case_names short skip wait emit]:
  assumes short: "\<And>buf. length buf < HEADER_SIZE \<Longrightarrow> P buf"
    and skip: "\<And>buf. HEADER_SIZE \<le> length buf \<Longrightarrow>
        frame_length buf < HEADER_SIZE \<or> mx < frame_length buf \<Longrightarrow> P (tl buf) \<Longrightarrow> P buf"
    and wait: "\<And>buf. HEADER_SIZE \<le> length buf \<Longrightarrow> HEADER_SIZE \<le> frame_length buf \<Longrightarrow>
        frame_length buf \<le> mx \<Longrightarrow> length buf < frame_length buf \<Longrightarrow> P buf"
    and emit: "\<And>buf. HEADER_SIZE \<le> frame_length buf \<Longrightarrow> frame_length buf \<le> mx \<Longrightarrow>
        frame_length buf \<le> length buf \<Longrightarrow> P (drop (frame_length buf) buf) \<Longrightarrow> P buf"
  shows "P buf"
proof (induction "length buf" arbitrary: buf rule: less_induct)
  case less
  show ?case
  proof (cases rule: feed_loop_turn [where buf = buf and mx = mx])
    case skip
    then have "length (tl buf) < length buf" by (auto simp: HEADER_SIZE_def)
    with less skip assms(2) show ?thesis by blast
  next
    case emit
    then have "length (drop (frame_length buf) buf) < length buf" by (auto simp: HEADER_SIZE_def)
    with less emit assms(4) show ?thesis by blast
  qed (use short wait in blast)+
qed

lemma feed_loop_append:
  "feed_loop mx (a @ b) =
     (fst (feed_loop mx a) @ fst (feed_loop mx (snd (feed_loop mx a) @ b)),
      snd (feed_loop mx (snd (feed_loop mx a) @ b)))"
proof (induction a rule: feed_loop_induct [where mx = mx])
  case (skip buf)
  have "feed_loop mx (buf @ b) = feed_loop mx (tl (buf @ b))"
    by (rule feed_loop_skip) (use skip in \<open>auto simp: frame_length_append\<close>)
  moreover have "tl (buf @ b) = tl buf @ b"
    using skip by (cases buf) (auto simp: HEADER_SIZE_def)
  ultimately show ?case using skip by (simp add: feed_loop_skip [of buf])
next
  case (emit buf)
  then have "HEADER_SIZE \<le> length buf" by simp
  with emit have "feed_loop mx (buf @ b) =
      (take (frame_length buf) buf # fst (feed_loop mx (drop (frame_length buf) buf @ b)),
       snd (feed_loop mx (drop (frame_length buf) buf @ b)))"
    by (subst feed_loop_emit) (auto simp: frame_length_append)
  with emit show ?case by (simp add: feed_loop_emit)
qed (auto simp: feed_loop_wait)

lemma feed_loop_rest_bound: "length (snd (feed_loop mx buf)) < max HEADER_SIZE mx"
  by (induction buf rule: feed_loop_induct [where mx = mx])
    (simp_all add: feed_loop_skip feed_loop_wait feed_loop_emit)

lemma feed_loop_rest_stable: "feed_loop mx (snd (feed_loop mx buf)) = ([], snd (feed_loop mx buf))"
  by (induction buf rule: feed_loop_induct [where mx = mx])
    (simp_all add: feed_loop_skip feed_loop_wait feed_loop_emit)

lemma feed_loop_frames: "\<forall>f \<in> set (fst (feed_loop mx buf)). frame_ok mx f"
proof (induction buf rule: feed_loop_induct [where mx = mx])
  case (emit buf)
  have "frame_ok mx (take (frame_length buf) buf)"
    using emit.hyps by (simp add: frame_ok_def frame_length_take)
  with emit.IH show ?case by (simp add: feed_loop_emit [OF emit.hyps])
qed (simp_all add: feed_loop_skip feed_loop_wait)

lemma feed_loop_conserves:
  "\<exists>js j. length js = length (fst (feed_loop mx buf))
     \<and> buf = concat (map2 (@) js (fst (feed_loop mx buf))) @ j @ snd (feed_loop mx buf)"
proof (induction buf rule: feed_loop_induct [where mx = mx])
  case (skip buf)
  then obtain js j where len: "length js = length (fst (feed_loop mx (tl buf)))"
    and tl: "tl buf = concat (map2 (@) js (fst (feed_loop mx (tl buf)))) @ j @ snd (feed_loop mx (tl buf))"
    by blast
  have buf: "buf = hd buf # tl buf" using skip by (cases buf) (auto simp: HEADER_SIZE_def)
  show ?case
  proof (cases js)
    case Nil
    with len tl buf skip show ?thesis
      by (intro exI [of _ "[]"] exI [of _ "hd buf # j"]) (simp add: feed_loop_skip)
  next
    case (Cons k ks)
    with len tl buf skip show ?thesis
      by (intro exI [of _ "(hd buf # k) # ks"] exI [of _ j])
        (cases "fst (feed_loop mx (tl buf))", auto simp: feed_loop_skip)
  qed
next
  case (emit buf)
  then obtain js j where "length js = length (fst (feed_loop mx (drop (frame_length buf) buf)))"
    and "drop (frame_length buf) buf = concat (map2 (@) js (fst (feed_loop mx (drop (frame_length buf) buf))))
       @ j @ snd (feed_loop mx (drop (frame_length buf) buf))"
    by blast
  then show ?case using emit append_take_drop_id [of "frame_length buf" buf]
    by (intro exI [of _ "[] # js"] exI [of _ j]) (simp add: feed_loop_emit)
qed (force simp: feed_loop_wait)+

lemma feed_loop_concat:
  "\<forall>f \<in> set fs. frame_ok mx f \<Longrightarrow> feed_loop mx (concat fs) = (fs, [])"
proof (induction fs)
  case (Cons f fs)
  then have ok: "frame_ok mx f" by simp
  then have "frame_length (f @ concat fs) = length f"
    by (simp add: frame_ok_def frame_length_append)
  with ok have "feed_loop mx (f @ concat fs) = (f # fst (feed_loop mx (concat fs)), snd (feed_loop mx (concat fs)))"
    by (subst feed_loop_emit) (auto simp: frame_ok_def)
  with Cons show ?case by simp
qed (simp add: HEADER_SIZE_def)

section \<open>Feeding\<close>

lemma feed_fields [simp]: "max_buffer (snd (feed r d)) = max_buffer r"
  by (simp add: feed_def case_prod_beta Let_def)

lemma feed_no_clear:
  "7 \<le> max_buffer r \<Longrightarrow>
   feed r d = (fst (feed_loop (max_buffer r) (buffers r @ d)),
               r\<lparr>buffers := snd (feed_loop (max_buffer r) (buffers r @ d))\<rparr>)"
  using feed_loop_rest_bound [of "max_buffer r" "buffers r @ d"]
  by (auto simp: feed_def case_prod_beta Let_def HEADER_SIZE_def)

lemma reasm_inv_new [inv_intros]: "7 \<le> mx \<Longrightarrow> reasm_inv (reassembler_new mx)"
  by (simp add: reasm_inv_def reassembler_new_def HEADER_SIZE_def)

lemma reasm_inv_feed [inv_intros]: "reasm_inv r \<Longrightarrow> reasm_inv (snd (feed r d))"
  by (simp add: reasm_inv_def feed_no_clear feed_loop_rest_stable)

lemma reasm_inv_clear [inv_intros]: "reasm_inv r \<Longrightarrow> reasm_inv (reassembler_clear r)"
  by (simp add: reasm_inv_def reassembler_clear_def HEADER_SIZE_def)

lemma feed_feed:
  assumes "reasm_inv r"
  shows "feed r (a @ b) = (fst (feed r a) @ fst (feed (snd (feed r a)) b), snd (feed (snd (feed r a)) b))"
  using assms feed_loop_append [of "max_buffer r" "buffers r @ a" b]
  by (simp add: reasm_inv_def feed_no_clear)

lemma feed_all_concat: "reasm_inv r \<Longrightarrow> feed_all r cs = feed r (concat cs)"
proof (induction cs arbitrary: r)
  case Nil
  then show ?case by (simp add: feed_no_clear reasm_inv_def)
next
  case (Cons c cs)
  then have "feed_all (snd (feed r c)) cs = feed (snd (feed r c)) (concat cs)"
    by (simp add: reasm_inv_feed)
  with Cons.prems show ?case by (simp add: feed_feed case_prod_beta Let_def)
qed

section \<open>The interface to the frame builders\<close>

text \<open>
  What the reassembler relies on: under the builder's side condition for the limit \<open>mx\<close>, a
  built frame carries its own length in the length field and fits. Any way of cutting the
  concatenation of frames into chunks then gives back exactly the frames.
\<close>

locale framing =
  fixes frame :: "'p \<Rightarrow> bytes" and fits :: "usize \<Rightarrow> 'p \<Rightarrow> bool"
  assumes frame_recognised: "fits mx p \<Longrightarrow> frame_ok mx (frame p)"
begin

lemma chunks_recover_frames:
  assumes "7 \<le> mx" and "\<forall>p \<in> set ps. fits mx p" and "concat cs = concat (map frame ps)"
  shows "feed_all (reassembler_new mx) cs = (map frame ps, reassembler_new mx)"
proof -
  have "feed_loop mx (concat cs) = (map frame ps, [])"
    unfolding assms(3) by (rule feed_loop_concat) (use assms(2) frame_recognised in auto)
  with assms(1) show ?thesis
    by (simp add: feed_all_concat reasm_inv_new feed_no_clear) (simp add: reassembler_new_def feed_no_clear)
qed

end

locale packet_codec = framing +
  fixes parse :: "bytes \<Rightarrow> ('e, 'v) res" and val :: "'p \<Rightarrow> 'v"
  assumes parse_frame: "fits mx p \<Longrightarrow> parse (frame p) = Ok (val p)"
begin

lemma chunks_recover_values:
  assumes "7 \<le> mx" and "\<forall>p \<in> set ps. fits mx p" and "concat cs = concat (map frame ps)"
  shows "map parse (fst (feed_all (reassembler_new mx) cs)) = map (Ok \<circ> val) ps"
  using chunks_recover_frames [OF assms] parse_frame assms(2) by auto

end

lemma frame_length_read: "read_be32 f 4 = Some w \<Longrightarrow> frame_length f = unat w"
  by (auto simp: read_be32_def frame_length_def split: if_splits)

lemma frame_length_build_mux_frame:
  assumes "length pl < 2 ^ 32 - 16"
  shows "frame_length (build_mux_frame p s pl) = length (build_mux_frame p s pl)"
proof (cases s)
  case None
  then have "read_be32 (build_mux_frame p s pl) 4 = Some (8 + word_of_nat (length pl))"
    using read_be32_at [of "be32 p" 4] by (simp add: build_mux_frame_def)
  with assms None show ?thesis
    by (simp add: frame_length_read length_build_mux_frame unat_word_ariths unat_of_nat)
next
  case (Some sq)
  then have "read_be32 (build_mux_frame p s pl) 4 = Some (16 + word_of_nat (length pl))"
    using read_be32_at [of "be32 p" 4] by (auto simp: build_mux_frame_def split: prod.splits)
  with assms Some show ?thesis
    by (simp add: frame_length_read length_build_mux_frame unat_word_ariths unat_of_nat)
qed

lemma frame_ok_build_mux_frame:
  assumes "length pl < 2 ^ 32 - 16" and "length (build_mux_frame p s pl) \<le> mx"
  shows "frame_ok mx (build_mux_frame p s pl)"
  using assms
  by (simp add: frame_ok_def frame_length_build_mux_frame length_build_mux_frame HEADER_SIZE_def
      split: option.splits)

text \<open>Frames given by protocol, sequence numbers and payload.\<close>

definition mux_frame_of :: "u32 \<times> (u16 \<times> u16) option \<times> bytes \<Rightarrow> bytes" where
  "mux_frame_of = (\<lambda>(p, s, pl). build_mux_frame p s pl)"

definition mux_frame_fits :: "usize \<Rightarrow> u32 \<times> (u16 \<times> u16) option \<times> bytes \<Rightarrow> bool" where
  "mux_frame_fits mx = (\<lambda>(p, s, pl). 16 + length pl < 2 ^ 32 \<and> 16 + length pl \<le> mx)"

interpretation mux_framing: framing mux_frame_of mux_frame_fits
  by unfold_locales
    (auto simp: mux_frame_of_def mux_frame_fits_def length_build_mux_frame split: option.splits
      intro!: frame_ok_build_mux_frame)

text \<open>TCP segments given by the arguments of their builder (version 2 framing, as negotiated).\<close>

record segment =
  sg_seqs :: "u16 \<times> u16"
  sg_sport :: u16
  sg_dport :: u16
  sg_seq :: u32
  sg_ack :: u32
  sg_flags :: u16
  sg_window :: u16
  sg_payload :: bytes

definition segment_frame :: "segment \<Rightarrow> bytes" where
  "segment_frame g = build_tcp_packet (Some (sg_seqs g)) (sg_sport g) (sg_dport g) (sg_seq g)
     (sg_ack g) (sg_flags g) (sg_window g) (Some (sg_payload g))"

definition segment_fits :: "usize \<Rightarrow> segment \<Rightarrow> bool" where
  "segment_fits mx g \<longleftrightarrow> 36 + length (sg_payload g) < 2 ^ 32 \<and> 36 + length (sg_payload g) \<le> mx"

definition segment_packet :: "segment \<Rightarrow> mux_packet" where
  "segment_packet g =
     Tcp \<lparr>th_source_port = sg_sport g, th_dest_port = sg_dport g, th_seq = sg_seq g,
          th_ack = sg_ack g, th_offset_flags = or (push_bit 12 0x5) (and 0x0FFF (sg_flags g)),
          th_window = sg_window g\<rparr> (sg_payload g)"

interpretation tcp_codec: packet_codec segment_frame segment_fits parse_packet segment_packet
proof unfold_locales
  fix mx g
  assume "segment_fits mx g"
  then show "frame_ok mx (segment_frame g)"
    unfolding segment_frame_def build_tcp_packet_def
    by (intro frame_ok_build_mux_frame) (auto simp: segment_fits_def length_build_mux_frame)
next
  fix mx g
  assume "segment_fits mx g"
  then show "parse_packet (segment_frame g) = Ok (segment_packet g)"
    by (simp add: segment_fits_def segment_frame_def segment_packet_def parse_build_tcp_packet)
qed

section \<open>Properties of the reassembler\<close>

text \<open>C27: Chunk boundaries do not matter. For a reassembler with a limit of at least 7 bytes that
  was created empty and fed any history, feeding any sequence of chunks one by one emits the
  same packets in the same order, and leaves the same state, as feeding their concatenation at
  once.\<close>

theorem feed_chunking_independent:
  assumes "7 \<le> mx" and "r = snd (feed_all (reassembler_new mx) history)"
  shows "feed_all r cs = feed r (concat cs)"
proof (rule feed_all_concat)
  have "reasm_inv q \<Longrightarrow> reasm_inv (snd (feed_all q hs))" for q hs
    by (induction hs arbitrary: q) (auto simp: case_prod_beta Let_def intro: inv_intros)
  with assms show "reasm_inv r" by (auto intro: inv_intros)
qed

theorem feed_chunking_independent_witness:
  "feed_all (reassembler_new 64) [[0, 0, 0], [1, 0, 0, 0, 9], [5]]
   = feed (reassembler_new 64) (concat [[0, 0, 0], [1, 0, 0, 0, 9], [5]])"
  by (rule feed_chunking_independent [of 64 _ "[]"]) simp_all

text \<open>Every TCP segment survives the USB byte stream: whatever the bulk reads cut the
  concatenation of version-2 frames into, the reassembler followed by the packet parser
  returns exactly the segments sent, in order, and its buffer is empty again.\<close>

theorem tcp_stream_survives_chunking:
  assumes "\<forall>g \<in> set gs. segment_fits mx g" and "7 \<le> mx"
    and "concat cs = concat (map segment_frame gs)"
  shows "map parse_packet (fst (feed_all (reassembler_new mx) cs)) = map (Ok \<circ> segment_packet) gs
     \<and> reassembler_is_empty (snd (feed_all (reassembler_new mx) cs))"
  using tcp_codec.chunks_recover_values [OF assms(2,1,3)]
    tcp_codec.chunks_recover_frames [OF assms(2,1,3)]
  by (simp add: reassembler_is_empty_def reassembler_new_def)

theorem tcp_stream_survives_chunking_witness:
  "\<exists>g. map parse_packet (fst (feed_all (reassembler_new 64)
       [take 5 (segment_frame g @ segment_frame g), drop 5 (segment_frame g @ segment_frame g)]))
     = [Ok (segment_packet g), Ok (segment_packet g)]"
proof -
  define g where "g = \<lparr>sg_seqs = (1, 2), sg_sport = 62078, sg_dport = 1024, sg_seq = 7, sg_ack = 9,
      sg_flags = TCP_ACK, sg_window = 512, sg_payload = [1, 2, 3]\<rparr>"
  have "map parse_packet (fst (feed_all (reassembler_new 64)
       [take 5 (segment_frame g @ segment_frame g), drop 5 (segment_frame g @ segment_frame g)]))
     = map (Ok \<circ> segment_packet) [g, g]"
    using tcp_stream_survives_chunking [of "[g, g]" 64
        "[take 5 (segment_frame g @ segment_frame g), drop 5 (segment_frame g @ segment_frame g)]"]
      append_take_drop_id [of 5 "segment_frame g @ segment_frame g"]
    by (simp add: segment_fits_def g_def)
  then show ?thesis by (intro exI [of _ g]) (simp only: list.map o_apply)
qed

text \<open>The same for mux frames of any protocol and either header version: cut at will, the
  byte stream is split back into the very frames that were concatenated.\<close>

theorem mux_stream_survives_chunking:
  assumes "\<forall>(p, s, pl) \<in> set fs. 16 + length pl < 2 ^ 32 \<and> 16 + length pl \<le> mx" and "7 \<le> mx"
    and "concat cs = concat (map (\<lambda>(p, s, pl). build_mux_frame p s pl) fs)"
  shows "feed_all (reassembler_new mx) cs
     = (map (\<lambda>(p, s, pl). build_mux_frame p s pl) fs, reassembler_new mx)"
  using mux_framing.chunks_recover_frames [of mx fs cs] assms
  by (auto simp: mux_frame_of_def mux_frame_fits_def)

theorem mux_stream_survives_chunking_witness:
  "feed_all (reassembler_new 64) [take 3 build_version_request, drop 3 build_version_request]
     = ([build_version_request], reassembler_new 64)"
  using mux_stream_survives_chunking [of "[(HEADER_VERSION, None, be32 2 @ be32 0 @ be32 0)]" 64
      "[take 3 build_version_request, drop 3 build_version_request]"]
  by (simp add: build_version_request_def)

text \<open>C31: Whatever bytes arrive, in whatever state, after a call the reassembler holds at most
  \<open>max_buffer\<close> bytes, and every packet it emits is at least a header long, fits the limit and
  is exactly as long as its own length field says.\<close>

theorem feed_bounds:
  "reassembler_len (snd (feed r data)) \<le> max_buffer r
   \<and> list_all (\<lambda>p. HEADER_SIZE \<le> length p \<and> length p \<le> max_buffer r
                   \<and> read_be32 p 4 = Some (word_of_nat (length p))) (fst (feed r data))"
proof -
  have "read_be32 p 4 = Some (word_of_nat (length p))" if "frame_ok mx p" for mx p
  proof -
    from that have "8 \<le> length p" by (simp add: frame_ok_def HEADER_SIZE_def)
    then have "read_be32 p 4 = Some (word_of_nat (frame_length p))"
      by (simp add: read_be32_def frame_length_def)
    with that show ?thesis by (simp add: frame_ok_def)
  qed
  then show ?thesis
    using feed_loop_frames [of "max_buffer r" "buffers r @ data"]
    by (auto simp: feed_def reassembler_len_def case_prod_beta Let_def list_all_iff frame_ok_def)
qed

text \<open>With a limit of at least 7 bytes nothing is invented, duplicated or reordered: the bytes
  held plus the bytes fed are the emitted packets in order, each preceded by the bytes skipped
  to resynchronise, followed by skipped bytes and the bytes held back. In particular the final
  check that clears an over-full buffer never fires.\<close>

theorem feed_conserves_bytes:
  assumes "7 \<le> max_buffer r"
  shows "\<exists>skipped j. length skipped = length (fst (feed r data))
     \<and> buffers r @ data = concat (map2 (@) skipped (fst (feed r data))) @ j @ buffers (snd (feed r data))"
  using feed_loop_conserves [of "max_buffer r" "buffers r @ data"] assms by (simp add: feed_no_clear)

theorem feed_conserves_bytes_witness:
  "\<exists>skipped j. length skipped = length (fst (feed (reassembler_new 64) [0, 0, 0]))
     \<and> [0, 0, 0] = concat (map2 (@) skipped (fst (feed (reassembler_new 64) [0, 0, 0])))
        @ j @ buffers (snd (feed (reassembler_new 64) [0, 0, 0]))"
  using feed_conserves_bytes [of "reassembler_new 64" "[0, 0, 0]"] by (simp add: reassembler_new_def)

end
