(* ===== verification/Relay_Metrics.thy ===== *)
theory Relay_Metrics
  imports Relay_Prelude
begin

text \<open>
  \<open>metrics.rs\<close>: the atomic counters shared by all tasks, the snapshot taken of them and the
  guard that counts listening clients. A counter is a 64-bit word (\<open>fetch_add\<close> wraps);
  the three \<open>AtomicI64\<close> gauges are 64-bit words read as signed. \<open>start_time\<close> is a number of
  seconds on the monotonic clock, and reading the clock is an argument.
\<close>

record metrics =
  start_time :: nat
  clients_accepted :: u64
  clients_rejected :: u64
  clients_active :: u64
  commands_total :: u64
  list_devices_total :: u64
  listens_active :: u64
  connects_total :: u64
  connect_failures :: u64
  proxies_started :: u64
  proxies_ended :: u64
  usb_tx_bytes :: u64
  usb_rx_bytes :: u64
  client_tx_bytes :: u64
  client_rx_bytes :: u64
  devices_attached :: u64
  parse_errors :: u64
  pair_reads :: u64
  pair_writes :: u64
  pair_deletes :: u64
  rsts_received :: u64
  overflow_rejections :: u64

definition metrics_new :: "nat \<Rightarrow> metrics" where
  "metrics_new now = \<lparr>start_time = now, clients_accepted = 0, clients_rejected = 0,
     clients_active = 0, commands_total = 0, list_devices_total = 0, listens_active = 0,
     connects_total = 0, connect_failures = 0, proxies_started = 0, proxies_ended = 0,
     usb_tx_bytes = 0, usb_rx_bytes = 0, client_tx_bytes = 0, client_rx_bytes = 0,
     devices_attached = 0, parse_errors = 0, pair_reads = 0, pair_writes = 0, pair_deletes = 0,
     rsts_received = 0, overflow_rejections = 0\<rparr>"

definition uptime_secs :: "metrics \<Rightarrow> nat \<Rightarrow> u64" where
  "uptime_secs m now = word_of_nat (now - start_time m)"

record stats_snapshot =
  st_uptime_secs :: u64
  st_clients_accepted :: u64
  st_clients_rejected :: u64
  st_clients_active :: int
  st_commands_total :: u64
  st_list_devices_total :: u64
  st_listens_active :: int
  st_connects_total :: u64
  st_connect_failures :: u64
  st_proxies_started :: u64
  st_proxies_ended :: u64
  st_usb_tx_bytes :: u64
  st_usb_rx_bytes :: u64
  st_client_tx_bytes :: u64
  st_client_rx_bytes :: u64
  st_devices_attached :: int
  st_parse_errors :: u64
  st_pair_reads :: u64
  st_pair_writes :: u64
  st_pair_deletes :: u64
  st_rsts_received :: u64
  st_overflow_rejections :: u64

definition snapshot :: "metrics \<Rightarrow> nat \<Rightarrow> stats_snapshot" where
  "snapshot m now = \<lparr>st_uptime_secs = uptime_secs m now,
     st_clients_accepted = clients_accepted m, st_clients_rejected = clients_rejected m,
     st_clients_active = sint (clients_active m), st_commands_total = commands_total m,
     st_list_devices_total = list_devices_total m, st_listens_active = sint (listens_active m),
     st_connects_total = connects_total m, st_connect_failures = connect_failures m,
     st_proxies_started = proxies_started m, st_proxies_ended = proxies_ended m,
     st_usb_tx_bytes = usb_tx_bytes m, st_usb_rx_bytes = usb_rx_bytes m,
     st_client_tx_bytes = client_tx_bytes m, st_client_rx_bytes = client_rx_bytes m,
     st_devices_attached = sint (devices_attached m), st_parse_errors = parse_errors m,
     st_pair_reads = pair_reads m, st_pair_writes = pair_writes m,
     st_pair_deletes = pair_deletes m, st_rsts_received = rsts_received m,
     st_overflow_rejections = overflow_rejections m\<rparr>"

text \<open>\<open>to_string_pretty\<close> is the JSON writer; text that cannot be written is empty.\<close>

definition metrics_to_json :: "(stats_snapshot \<Rightarrow> rstr option) \<Rightarrow> metrics \<Rightarrow> nat \<Rightarrow> rstr" where
  "metrics_to_json to_string_pretty m now = (case to_string_pretty (snapshot m now) of Some s \<Rightarrow> s | None \<Rightarrow> [])"

text \<open>\<open>ListenGuard\<close>: counted up when made, down when dropped.\<close>

definition listen_guard_new :: "metrics \<Rightarrow> metrics" where
  "listen_guard_new m = m\<lparr>listens_active := listens_active m + 1\<rparr>"

definition listen_guard_drop :: "metrics \<Rightarrow> metrics" where
  "listen_guard_drop m = m\<lparr>listens_active := listens_active m - 1\<rparr>"

text \<open>The other counter updates the handlers perform, by name.\<close>

abbreviation count_overflow :: "metrics \<Rightarrow> metrics" where
  "count_overflow m \<equiv> m\<lparr>overflow_rejections := overflow_rejections m + 1\<rparr>"

abbreviation count_usb_tx :: "nat \<Rightarrow> metrics \<Rightarrow> metrics" where
  "count_usb_tx n m \<equiv> m\<lparr>usb_tx_bytes := usb_tx_bytes m + word_of_nat n\<rparr>"

abbreviation count_usb_rx :: "nat \<Rightarrow> metrics \<Rightarrow> metrics" where
  "count_usb_rx n m \<equiv> m\<lparr>usb_rx_bytes := usb_rx_bytes m + word_of_nat n\<rparr>"

abbreviation count_connect_failure :: "metrics \<Rightarrow> metrics" where
  "count_connect_failure m \<equiv> m\<lparr>connect_failures := connect_failures m + 1\<rparr>"

lemma listen_guard_balanced: "listen_guard_drop (listen_guard_new m) = m"
  by (simp add: listen_guard_drop_def listen_guard_new_def)

end
