(* ===== verification/Conn_Manager.thy ===== *)
theory Conn_Manager
  imports Mux_Frame Relay_Metrics
begin

unbundle bit_operations_syntax

text \<open>
  \<open>ConnectionManager\<close> of \<open>daemon/mux.rs\<close>: the table of mux devices and of the TCP-over-USB
  connections of each, behind one read-write lock. Every operation here is one critical
  section of that lock, hence one atomic step. \<open>Arc<Notify>\<close> belongs to tokio: a connection
  records the calls the code makes on it.

  The theorems: what each operation does on every branch, the table invariant and that every
  operation keeps it, port allocation, routing of segments by their port pair, and two places
  where the code does not deliver what it means to.
\<close>

section \<open>Data\<close>

datatype device_state = Idle | Active

datatype conn_state =
  SynSent | SynAckReceived | Established | Connected | Refused | FinWait1 | CloseWait | Closing
  | Closed | Dead

fun is_active :: "conn_state \<Rightarrow> bool" where
  "is_active Established = True"
| "is_active Connected = True"
| "is_active CloseWait = True"
| "is_active _ = False"

datatype connection_event =
    EvConnected u32 u16 u32
  | EvRefused u32 u16 u32
  | EvDataReady u32 u16
  | EvDisconnected u32 u16
  | EvError u32 u16 rstr

record notify =
  notify_waiters_calls :: nat
  notify_one_calls :: nat

definition notify_new :: notify where
  "notify_new = \<lparr>notify_waiters_calls = 0, notify_one_calls = 0\<rparr>"

definition notify_waiters :: "notify \<Rightarrow> notify" where
  "notify_waiters n = n\<lparr>notify_waiters_calls := Suc (notify_waiters_calls n)\<rparr>"

definition notify_one :: "notify \<Rightarrow> notify" where
  "notify_one n = n\<lparr>notify_one_calls := Suc (notify_one_calls n)\<rparr>"

record connection =
  c_source_port :: u16
  c_dest_port :: u16
  c_state :: conn_state
  c_tx_seq :: u32
  c_tx_ack :: u32
  c_ib_buf :: bytes
  c_ob_buf :: bytes
  c_data_notify :: notify
  c_tag :: u32

record mux_device =
  d_device_id :: u32
  d_connections :: "u16 \<rightharpoonup> connection"
  d_version :: u32
  d_state :: device_state
  d_tx_seq :: u16
  d_rx_seq :: u16

type_synonym devices = "u32 \<rightharpoonup> mux_device"
type_synonym conn_iter = "(u16 \<rightharpoonup> connection) \<Rightarrow> u16 list"

section \<open>Operations\<close>

definition mux_device_new :: "u32 \<Rightarrow> mux_device" where
  "mux_device_new device_id = \<lparr>d_device_id = device_id, d_connections = Map.empty, d_version = 1,
     d_state = Idle, d_tx_seq = 1, d_rx_seq = 1\<rparr>"

definition cm_new :: devices where
  "cm_new = Map.empty"

definition cm_add_device :: "devices \<Rightarrow> u32 \<Rightarrow> devices" where
  "cm_add_device devs device_id =
     (case devs device_id of Some _ \<Rightarrow> devs | None \<Rightarrow> devs(device_id \<mapsto> mux_device_new device_id))"

definition cm_remove_device :: "devices \<Rightarrow> u32 \<Rightarrow> devices" where
  "cm_remove_device devs device_id = devs(device_id := None)"

definition get_data_notify :: "devices \<Rightarrow> u32 \<Rightarrow> u16 \<Rightarrow> notify option" where
  "get_data_notify devs device_id sport =
     (case devs device_id of None \<Rightarrow> None
      | Some d \<Rightarrow> map_option c_data_notify (d_connections d sport))"

text \<open>\<open>(1024u16..65535).find(|&p| !connections.contains_key(&p))\<close>\<close>

function find_port :: "(u16 \<rightharpoonup> connection) \<Rightarrow> nat \<Rightarrow> u16 option" where
  "find_port conns p =
     (if p < 65535
      then if conns (word_of_nat p) = None then Some (word_of_nat p) else find_port conns (Suc p)
      else None)"
  by pat_completeness auto
termination
  by (relation "measure (\<lambda>(conns, p). 65535 - p)") auto

declare find_port.simps [simp del]

definition connection_new :: "u16 \<Rightarrow> u16 \<Rightarrow> u32 \<Rightarrow> connection" where
  "connection_new sport dport tag = \<lparr>c_source_port = sport, c_dest_port = dport, c_state = SynSent,
     c_tx_seq = 0, c_tx_ack = 0, c_ib_buf = [], c_ob_buf = [], c_data_notify = notify_new,
     c_tag = tag\<rparr>"

definition start_connect :: "devices \<Rightarrow> u32 \<Rightarrow> u16 \<Rightarrow> u32 \<Rightarrow> (mux_error, u16) res \<times> devices" where
  "start_connect devs device_id dport tag =
     (case devs device_id of
        None \<Rightarrow> (Err (InvalidState (lit ''device not found'')), devs)
      | Some d \<Rightarrow>
          (case find_port (d_connections d) 1024 of
             None \<Rightarrow> (Err (InvalidState (lit ''no available ports'')), devs)
           | Some sport \<Rightarrow>
               (Ok sport, devs(device_id \<mapsto>
                  d\<lparr>d_connections := (d_connections d)(sport \<mapsto> connection_new sport dport tag)\<rparr>))))"

text \<open>\<open>if device.version >= 2 { Some((device.tx_seq, device.rx_seq)) } else { None }\<close>\<close>

definition v2_seqs :: "mux_device \<Rightarrow> (u16 \<times> u16) option" where
  "v2_seqs d = (if 2 \<le> d_version d then Some (d_tx_seq d, d_rx_seq d) else None)"

definition exact_match :: "tcp_header \<Rightarrow> connection \<Rightarrow> bool" where
  "exact_match h c \<longleftrightarrow> c_source_port c = th_dest_port h \<and> c_dest_port c = th_source_port h"

definition loose_match :: "tcp_header \<Rightarrow> connection \<Rightarrow> bool" where
  "loose_match h c \<longleftrightarrow> c_source_port c = th_source_port h \<or> c_dest_port c = th_source_port h"

definition find_key :: "conn_iter \<Rightarrow> (u16 \<rightharpoonup> connection) \<Rightarrow> (connection \<Rightarrow> bool) \<Rightarrow> u16 option" where
  "find_key iter conns P =
     find (\<lambda>k. case conns k of Some c \<Rightarrow> P c | None \<Rightarrow> False) (iter conns)"

definition find_conn :: "conn_iter \<Rightarrow> (u16 \<rightharpoonup> connection) \<Rightarrow> tcp_header \<Rightarrow> u16 option" where
  "find_conn iter conns h =
     (case find_key iter conns (exact_match h) of
        Some k \<Rightarrow> Some k
      | None \<Rightarrow> find_key iter conns (loose_match h))"

text \<open>The receive buffer: the payload is appended unless it would exceed the cap.\<close>

definition conn_accept :: "usize \<Rightarrow> u32 \<Rightarrow> bytes \<Rightarrow> connection \<Rightarrow> connection option" where
  "conn_accept max_conn_buffer seq payload conn =
     (if max_conn_buffer < length (c_ib_buf conn) + length payload then None
      else Some (conn\<lparr>c_tx_ack := seq + word_of_nat (length payload),
                      c_ib_buf := c_ib_buf conn @ payload\<rparr>))"

text \<open>An acknowledgement for \<open>conn\<close> on device \<open>d\<close>, and the table after sending it.\<close>

definition ack_packet :: "mux_device \<Rightarrow> connection \<Rightarrow> u16 \<Rightarrow> bytes" where
  "ack_packet d conn window =
     build_tcp_packet (v2_seqs d) (c_source_port conn) (c_dest_port conn) (c_tx_seq conn)
       (c_tx_ack conn) TCP_ACK window None"

definition put_conn :: "devices \<Rightarrow> u32 \<Rightarrow> mux_device \<Rightarrow> u16 \<Rightarrow> connection \<Rightarrow> devices" where
  "put_conn devs device_id d key conn =
     devs(device_id \<mapsto> d\<lparr>d_connections := (d_connections d)(key \<mapsto> conn)\<rparr>)"

definition bump_tx :: "mux_device \<Rightarrow> mux_device" where
  "bump_tx d = d\<lparr>d_tx_seq := d_tx_seq d + 1\<rparr>"

definition handle_conn ::
  "devices \<Rightarrow> u32 \<Rightarrow> mux_device \<Rightarrow> u16 \<Rightarrow> connection \<Rightarrow> tcp_header \<Rightarrow> bytes \<Rightarrow> metrics \<Rightarrow> usize
   \<Rightarrow> devices \<times> metrics \<times> connection_event list \<times> bytes list" where
  "handle_conn devs device_id d key conn h payload m max_conn_buffer =
     (let flags = th_flags h in
      if flags AND TCP_SYN \<noteq> 0 \<and> flags AND TCP_ACK \<noteq> 0 then
        let conn' = conn\<lparr>c_state := Connected, c_tx_ack := th_seq h + 1\<rparr>
        in (put_conn devs device_id (bump_tx d) key conn', m,
            [EvConnected device_id (c_source_port conn') (c_tag conn')],
            [ack_packet d conn' 65535])
      else if flags AND TCP_RST \<noteq> 0 then
        (put_conn devs device_id d key (conn\<lparr>c_state := Dead\<rparr>), m,
         [EvDisconnected device_id (c_source_port conn)], [])
      else if flags AND TCP_FIN \<noteq> 0 then
        (put_conn devs device_id d key (conn\<lparr>c_state := CloseWait\<rparr>), m,
         [EvDisconnected device_id (c_source_port conn)], [])
      else if payload \<noteq> [] then
        (case conn_accept max_conn_buffer (th_seq h) payload conn of
           None \<Rightarrow> (devs, count_overflow m, [], [])
         | Some conn' \<Rightarrow>
             let free = max_conn_buffer - length (c_ib_buf conn')
             in (put_conn devs device_id (bump_tx d) key
                   (conn'\<lparr>c_data_notify := notify_waiters (c_data_notify conn')\<rparr>), m,
                 [EvDataReady device_id (c_source_port conn')],
                 [ack_packet d conn' (scaled_window free)]))
      else (devs, m, [], []))"

definition handle_tcp_packet ::
  "conn_iter \<Rightarrow> devices \<Rightarrow> u32 \<Rightarrow> tcp_header \<Rightarrow> bytes \<Rightarrow> metrics \<Rightarrow> usize
   \<Rightarrow> devices \<times> metrics \<times> connection_event list \<times> bytes list" where
  "handle_tcp_packet iter devs device_id h payload m max_conn_buffer =
     (case devs device_id of
        None \<Rightarrow> (devs, m, [], [])
      | Some d \<Rightarrow>
          (case find_conn iter (d_connections d) h of
             Some key \<Rightarrow>
               handle_conn devs device_id d key (the (d_connections d key)) h payload m max_conn_buffer
           | None \<Rightarrow>
               (devs, m, [EvError device_id (th_source_port h) (lit ''unknown connection'')], [])))"

text \<open>\<open>std::mem::take(&mut conn.ib_buf)\<close>, the drain of the client proxy.\<close>

definition conn_drain :: "connection \<Rightarrow> bytes \<times> connection" where
  "conn_drain conn = (c_ib_buf conn, conn\<lparr>c_ib_buf := []\<rparr>)"

section \<open>Invariant\<close>

text \<open>
  A connection is stored under its own source port, which the allocator took from its range,
  and its receive buffer respects the cap; a device is stored under its own identifier.
\<close>

definition conn_inv :: "usize \<Rightarrow> u16 \<Rightarrow> connection \<Rightarrow> bool" where
  "conn_inv mx k c \<longleftrightarrow> c_source_port c = k \<and> 1024 \<le> unat k \<and> unat k < 65535 \<and> length (c_ib_buf c) \<le> mx"

definition dev_inv :: "usize \<Rightarrow> u32 \<Rightarrow> mux_device \<Rightarrow> bool" where
  "dev_inv mx i d \<longleftrightarrow> d_device_id d = i \<and> (\<forall>k c. d_connections d k = Some c \<longrightarrow> conn_inv mx k c)"

definition cm_inv :: "usize \<Rightarrow> devices \<Rightarrow> bool" where
  "cm_inv mx devs \<longleftrightarrow> (\<forall>i d. devs i = Some d \<longrightarrow> dev_inv mx i d)"

text \<open>Neither the handshake reply nor a reset nor a close: a segment that can carry data.\<close>

definition data_flags :: "u16 \<Rightarrow> bool" where
  "data_flags fl \<longleftrightarrow> \<not> (fl AND TCP_SYN \<noteq> 0 \<and> fl AND TCP_ACK \<noteq> 0) \<and> fl AND TCP_RST = 0 \<and> fl AND TCP_FIN = 0"

section \<open>Lookup and update of the table\<close>

lemma cm_invD: "cm_inv mx devs \<Longrightarrow> devs i = Some d \<Longrightarrow> dev_inv mx i d"
  by (simp add: cm_inv_def)

lemma dev_invD: "dev_inv mx i d \<Longrightarrow> d_connections d k = Some c \<Longrightarrow> conn_inv mx k c"
  by (simp add: dev_inv_def)

lemma cm_inv_update [inv_intros]: "cm_inv mx devs \<Longrightarrow> dev_inv mx i d \<Longrightarrow> cm_inv mx (devs(i \<mapsto> d))"
  by (simp add: cm_inv_def)

lemma dev_inv_update [inv_intros]:
  "dev_inv mx i d \<Longrightarrow> conn_inv mx k c \<Longrightarrow> dev_inv mx i (d\<lparr>d_connections := (d_connections d)(k \<mapsto> c)\<rparr>)"
  by (simp add: dev_inv_def)

lemma dev_inv_bump [simp]: "dev_inv mx i (bump_tx d) \<longleftrightarrow> dev_inv mx i d"
  by (simp add: dev_inv_def bump_tx_def)

lemma cm_inv_put_conn [inv_intros]:
  "cm_inv mx devs \<Longrightarrow> dev_inv mx i d \<Longrightarrow> conn_inv mx k c \<Longrightarrow> cm_inv mx (put_conn devs i d k c)"
  unfolding put_conn_def by (intro inv_intros)

lemma put_conn_same [simp]:
  "put_conn devs i d k c i = Some (d\<lparr>d_connections := (d_connections d)(k \<mapsto> c)\<rparr>)"
  by (simp add: put_conn_def)

lemma put_conn_other [simp]: "j \<noteq> i \<Longrightarrow> put_conn devs i d k c j = devs j"
  by (simp add: put_conn_def)

lemma bump_tx_simps [simp]:
  "d_connections (bump_tx d) = d_connections d" "d_version (bump_tx d) = d_version d"
  "d_tx_seq (bump_tx d) = d_tx_seq d + 1" "d_rx_seq (bump_tx d) = d_rx_seq d"
  "d_device_id (bump_tx d) = d_device_id d" "d_state (bump_tx d) = d_state d"
  by (simp_all add: bump_tx_def)

section \<open>Port allocation\<close>

lemma find_port_Some:
  "find_port conns p = Some s \<Longrightarrow> p \<le> unat s \<and> unat s < 65535 \<and> conns s = None
     \<and> (\<forall>q. p \<le> q \<and> q < unat s \<longrightarrow> conns (word_of_nat q) \<noteq> None)"
proof (induction conns p rule: find_port.induct)
  case (1 conns p)
  show ?case
  proof (cases "p < 65535 \<and> conns (word_of_nat p) \<noteq> None")
    case True
    with 1 have "Suc p \<le> unat s \<and> unat s < 65535 \<and> conns s = None
        \<and> (\<forall>q. Suc p \<le> q \<and> q < unat s \<longrightarrow> conns (word_of_nat q) \<noteq> None)"
      by (simp add: find_port.simps [of conns p])
    with True show ?thesis by (auto simp: le_Suc_eq not_less_eq_eq) (metis Suc_leI le_neq_implies_less)
  next
    case False
    with "1.prems" show ?thesis
      by (auto simp: find_port.simps [of conns p] unat_of_nat split: if_splits)
  qed
qed

lemma find_port_None:
  "find_port conns p = None \<Longrightarrow> p \<le> q \<Longrightarrow> q < 65535 \<Longrightarrow> conns (word_of_nat q) \<noteq> None"
proof (induction conns p rule: find_port.induct)
  case (1 conns p)
  then have free: "conns (word_of_nat p) \<noteq> None" and rest: "find_port conns (Suc p) = None"
    by (auto simp: find_port.simps [of conns p] split: if_splits)
  show ?case
  proof (cases "q = p")
    case False
    with 1 free rest show ?thesis by auto
  qed (use free in simp)
qed

section \<open>Routing\<close>

lemma find_key_Some: "find_key iter conns P = Some k \<Longrightarrow> \<exists>c. conns k = Some c \<and> P c"
  unfolding find_key_def by (auto dest!: find_SomeD split: option.splits)

lemma find_conn_Some: "find_conn iter conns h = Some k \<Longrightarrow> \<exists>c. conns k = Some c"
  by (auto simp: find_conn_def dest: find_key_Some split: option.splits)

lemma finite_conns [simp]: "finite (dom (conns :: u16 \<rightharpoonup> 'a))"
  by (rule finite_subset [OF subset_UNIV]) simp

lemma find_key_None_iff:
  "hash_iter iter \<Longrightarrow> find_key iter conns P = None \<longleftrightarrow> (\<forall>k c. conns k = Some c \<longrightarrow> \<not> P c)"
  using hash_iterD(2) [of iter conns]
  by (auto simp: find_key_def find_None_iff dom_def split: option.splits)

lemma find_key_unique:
  assumes "hash_iter iter" and "conns k = Some c" and "P c"
    and "\<And>k' c'. conns k' = Some c' \<Longrightarrow> P c' \<Longrightarrow> k' = k"
  shows "find_key iter conns P = Some k"
  unfolding find_key_def
proof (rule find_unique)
  show "k \<in> set (iter conns)" using assms(1,2) hash_iterD(2) [of iter conns] by auto
  show "case conns k of Some c \<Rightarrow> P c | None \<Rightarrow> False" using assms(2,3) by simp
next
  fix y
  assume "case conns y of Some c \<Rightarrow> P c | None \<Rightarrow> False"
  then obtain c' where "conns y = Some c'" and "P c'" by (cases "conns y") auto
  then show "y = k" by (rule assms(4))
qed

lemma find_conn_exact:
  assumes "hash_iter iter" and "dev_inv mx i d" and "d_connections d k = Some c"
    and "k = th_dest_port h" and "c_dest_port c = th_source_port h"
  shows "find_conn iter (d_connections d) h = Some k"
proof -
  have "find_key iter (d_connections d) (exact_match h) = Some k"
    by (rule find_key_unique)
      (use assms in \<open>auto simp: exact_match_def dest: dev_invD simp: conn_inv_def\<close>)
  then show ?thesis by (simp add: find_conn_def)
qed

section \<open>Preservation of the invariant\<close>

lemma conn_inv_fields [simp]:
  "conn_inv mx k (c\<lparr>c_state := st\<rparr>) \<longleftrightarrow> conn_inv mx k c"
  "conn_inv mx k (c\<lparr>c_tx_ack := a\<rparr>) \<longleftrightarrow> conn_inv mx k c"
  "conn_inv mx k (c\<lparr>c_tx_seq := a\<rparr>) \<longleftrightarrow> conn_inv mx k c"
  "conn_inv mx k (c\<lparr>c_ob_buf := ob\<rparr>) \<longleftrightarrow> conn_inv mx k c"
  "conn_inv mx k (c\<lparr>c_data_notify := n\<rparr>) \<longleftrightarrow> conn_inv mx k c"
  by (simp_all add: conn_inv_def)

lemma conn_inv_accept [inv_intros]:
  "conn_accept mx sq pl c = Some c' \<Longrightarrow> conn_inv mx k c \<Longrightarrow> conn_inv mx k c'"
  by (auto simp: conn_accept_def conn_inv_def split: if_splits)

lemma conn_inv_drain [inv_intros]: "conn_inv mx k c \<Longrightarrow> conn_inv mx k (snd (conn_drain c))"
  by (simp add: conn_drain_def conn_inv_def)

lemma cm_inv_new [inv_intros]: "cm_inv mx cm_new"
  by (simp add: cm_inv_def cm_new_def)

lemma cm_inv_add_device [inv_intros]: "cm_inv mx devs \<Longrightarrow> cm_inv mx (cm_add_device devs i)"
  by (auto simp: cm_add_device_def cm_inv_def dev_inv_def mux_device_new_def split: option.splits)

lemma cm_inv_remove_device [inv_intros]: "cm_inv mx devs \<Longrightarrow> cm_inv mx (cm_remove_device devs i)"
  by (simp add: cm_remove_device_def cm_inv_def)

lemma cm_inv_start_connect [inv_intros]:
  "cm_inv mx devs \<Longrightarrow> cm_inv mx (snd (start_connect devs i dport tag))"
proof (cases "devs i")
  case (Some d)
  assume inv: "cm_inv mx devs"
  show ?thesis
  proof (cases "find_port (d_connections d) 1024")
    case (Some s)
    then have "conn_inv mx s (connection_new s dport tag)"
      by (auto simp: conn_inv_def connection_new_def dest: find_port_Some)
    with inv Some \<open>devs i = Some d\<close> show ?thesis
      by (auto simp: start_connect_def dest: cm_invD intro: cm_inv_update dev_inv_update)
  qed (use inv Some in \<open>simp add: start_connect_def\<close>)
qed (simp add: start_connect_def)

lemma cm_inv_handle_conn [inv_intros]:
  assumes "cm_inv mx devs" and "dev_inv mx i d" and "conn_inv mx k c"
  shows "cm_inv mx (fst (handle_conn devs i d k c h pl m mx))"
  using assms conn_inv_accept [of mx "th_seq h" pl c _ k]
  by (auto simp: handle_conn_def Let_def split: option.splits intro!: cm_inv_put_conn)

lemma cm_inv_handle_tcp_packet [inv_intros]:
  "cm_inv mx devs \<Longrightarrow> cm_inv mx (fst (handle_tcp_packet iter devs i h pl m mx))"
  by (auto simp: handle_tcp_packet_def split: option.splits
      intro!: cm_inv_handle_conn dest!: find_conn_Some intro: cm_invD dev_invD [OF cm_invD])

section \<open>Behaviour of the packet handler\<close>

lemma handle_tcp_packet_exact:
  assumes "hash_iter iter" and "cm_inv mx devs" and "devs i = Some d"
    and "d_connections d (th_dest_port h) = Some c" and "c_dest_port c = th_source_port h"
  shows "handle_tcp_packet iter devs i h pl m lim = handle_conn devs i d (th_dest_port h) c h pl m lim"
  using find_conn_exact [OF assms(1) cm_invD [OF assms(2,3)] assms(4) refl assms(5)] assms(3,4)
  by (simp add: handle_tcp_packet_def)

lemma handle_conn_data:
  assumes "data_flags (th_flags h)" and "pl \<noteq> []"
  shows "handle_conn devs i d k c h pl m mx =
     (case conn_accept mx (th_seq h) pl c of
        None \<Rightarrow> (devs, count_overflow m, [], [])
      | Some c' \<Rightarrow> (put_conn devs i (bump_tx d) k
             (c'\<lparr>c_data_notify := notify_waiters (c_data_notify c')\<rparr>), m,
           [EvDataReady i (c_source_port c')],
           [ack_packet d c' (scaled_window (mx - length (c_ib_buf c')))]))"
  using assms by (auto simp: handle_conn_def data_flags_def Let_def split: option.splits)

lemma parse_ack_packet:
  assumes "c_dest_port c \<noteq> 0xFACE"
  shows "\<exists>a. parse_packet (ack_packet d c win) = Ok (Tcp a [])
     \<and> th_source_port a = c_source_port c \<and> th_dest_port a = c_dest_port c
     \<and> th_seq a = c_tx_seq c \<and> th_ack a = c_tx_ack c \<and> th_window a = win"
  using parse_build_tcp_packet [of None "v2_seqs d" "c_source_port c" "c_dest_port c"] assms
  by (auto simp: ack_packet_def)

lemma th_flags_example [simp]:
  "th_flags \<lparr>th_source_port = a, th_dest_port = b, th_seq = c, th_ack = d, th_offset_flags = e,
     th_window = f\<rparr> = e AND 0xFF"
  by (simp add: th_flags_def)

section \<open>Properties of the connection manager\<close>

text \<open>Starting a connection on a known device takes the lowest source port of 1024..65534 that
  no connection of the device uses, registers a fresh connection in state SynSent under it and
  leaves every other connection and device alone; it fails exactly when the device is unknown
  or all those ports are taken, and then changes nothing.\<close>

theorem start_connect_spec:
  "(case start_connect devs i dport tag of
      (Ok s, devs') \<Rightarrow> (\<exists>d. devs i = Some d \<and> 1024 \<le> unat s \<and> unat s < 65535
          \<and> d_connections d s = None
          \<and> (\<forall>q. 1024 \<le> q \<and> q < unat s \<longrightarrow> d_connections d (word_of_nat q) \<noteq> None)
          \<and> devs' = devs(i \<mapsto> d\<lparr>d_connections := (d_connections d)(s \<mapsto> connection_new s dport tag)\<rparr>))
    | (Err e, devs') \<Rightarrow> devs' = devs \<and> (devs i = None
          \<or> (\<exists>d. devs i = Some d \<and> (\<forall>q. 1024 \<le> q \<and> q < 65535 \<longrightarrow> d_connections d (word_of_nat q) \<noteq> None)))
    | (Panic, _) \<Rightarrow> False)"
  by (auto simp: start_connect_def split: option.splits dest: find_port_Some find_port_None)

theorem start_connect_spec_witness:
  "(case start_connect (cm_add_device cm_new 1) 1 62078 5 of
      (Ok s, devs') \<Rightarrow> s = 1024 \<and> (\<exists>d. devs' 1 = Some d \<and> d_connections d 1024 = Some (connection_new 1024 62078 5))
    | _ \<Rightarrow> False)"
  using start_connect_spec [of "cm_add_device cm_new 1" 1 62078 5]
  by (simp add: start_connect_def cm_add_device_def cm_new_def mux_device_new_def find_port.simps)

text \<open>A data segment addressed to a connection by its exact port pair reaches that connection
  and no other, whatever order the hash map iterates in: its payload is appended to the receive
  buffer, the connection's waiters are notified once, DataReady is raised for it, and exactly
  one packet is queued, which parses as an acknowledgement of the segment's last byte with the
  ports of the connection and the window that the remaining buffer space allows.\<close>

theorem data_segment_delivered:
  assumes "hash_iter iter" and "cm_inv mx devs" and "devs i = Some d"
    and "d_connections d (th_dest_port h) = Some c" and "c_dest_port c = th_source_port h"
    and "data_flags (th_flags h)" and "payload \<noteq> []"
    and "length (c_ib_buf c) + length payload \<le> mx" and "c_dest_port c \<noteq> 0xFACE"
  shows "\<exists>ack a. handle_tcp_packet iter devs i h payload m mx =
      (put_conn devs i (bump_tx d) (th_dest_port h)
         (c\<lparr>c_tx_ack := th_seq h + word_of_nat (length payload), c_ib_buf := c_ib_buf c @ payload,
            c_data_notify := notify_waiters (c_data_notify c)\<rparr>),
       m, [EvDataReady i (th_dest_port h)], [ack])
    \<and> parse_packet ack = Ok (Tcp a [])
    \<and> th_source_port a = th_dest_port h \<and> th_dest_port a = th_source_port h
    \<and> th_ack a = th_seq h + word_of_nat (length payload)
    \<and> th_window a = scaled_window (mx - (length (c_ib_buf c) + length payload))"
proof -
  let ?c = "c\<lparr>c_tx_ack := th_seq h + word_of_nat (length payload), c_ib_buf := c_ib_buf c @ payload\<rparr>"
  have "c_source_port c = th_dest_port h"
    using dev_invD [OF cm_invD [OF assms(2,3)] assms(4)] by (simp add: conn_inv_def)
  moreover obtain a where "parse_packet (ack_packet d ?c (scaled_window (mx - length (c_ib_buf ?c)))) = Ok (Tcp a [])
     \<and> th_source_port a = c_source_port ?c \<and> th_dest_port a = c_dest_port ?c
     \<and> th_ack a = c_tx_ack ?c \<and> th_window a = scaled_window (mx - length (c_ib_buf ?c))"
    using parse_ack_packet [of ?c d] assms(9) by fastforce
  ultimately show ?thesis
    using assms by (simp add: handle_tcp_packet_exact handle_conn_data conn_accept_def)
qed

theorem data_segment_delivered_witness:
  "\<exists>c ack a. handle_tcp_packet (\<lambda>m. sorted_list_of_set (dom m))
       (snd (start_connect (cm_add_device cm_new 1) 1 62078 5)) 1
       \<lparr>th_source_port = 62078, th_dest_port = 1024, th_seq = 10, th_ack = 0,
         th_offset_flags = TCP_ACK, th_window = 0\<rparr> [7, 8] (metrics_new 0) 64
     = (put_conn (snd (start_connect (cm_add_device cm_new 1) 1 62078 5)) 1
          (bump_tx ((mux_device_new 1)\<lparr>d_connections := [1024 \<mapsto> connection_new 1024 62078 5]\<rparr>)) 1024 c,
        metrics_new 0, [EvDataReady 1 1024], [ack])
     \<and> c_ib_buf c = [7, 8] \<and> parse_packet ack = Ok (Tcp a []) \<and> th_ack a = 12"
proof -
  let ?devs = "snd (start_connect (cm_add_device cm_new 1) 1 62078 5)"
  let ?h = "\<lparr>th_source_port = 62078, th_dest_port = 1024, th_seq = 10, th_ack = 0,
         th_offset_flags = TCP_ACK, th_window = 0\<rparr> :: tcp_header"
  have devs: "?devs 1 = Some ((mux_device_new 1)\<lparr>d_connections := [1024 \<mapsto> connection_new 1024 62078 5]\<rparr>)"
    by (simp add: start_connect_def cm_add_device_def cm_new_def mux_device_new_def find_port.simps)
  have inv: "cm_inv 64 ?devs" by (intro inv_intros)
  show ?thesis
    using data_segment_delivered [OF hash_iter_witness inv devs, of ?h _ "[7, 8]" "metrics_new 0"]
    by (fastforce simp: connection_new_def data_flags_def TCP_ACK_def TCP_SYN_def TCP_RST_def TCP_FIN_def)
qed

text \<open>C38: A segment whose acceptance would exceed the cap is dropped: nothing in the table changes,
  no acknowledgement is queued and the overflow counter goes up by one. But the loss is not
  confined: the next in-order segment that fits is appended right behind the gap, and the one
  packet queued for it is an acknowledgement, with the ports of the connection, of everything up
  to its last byte, so the device is told that the dropped bytes arrived.\<close>

theorem overflow_then_hole_acknowledged:
  assumes "hash_iter iter" and "cm_inv mx devs" and "devs i = Some d"
    and "d_connections d (th_dest_port h) = Some c" and "c_dest_port c = th_source_port h"
    and "data_flags (th_flags h)"
    and "mx < length (c_ib_buf c) + length lost"
    and "payload \<noteq> []" and "length (c_ib_buf c) + length payload \<le> mx" and "c_dest_port c \<noteq> 0xFACE"
  shows "handle_tcp_packet iter devs i h lost m mx = (devs, count_overflow m, [], [])
    \<and> (\<exists>c' ack a. handle_tcp_packet iter devs i (h\<lparr>th_seq := th_seq h + word_of_nat (length lost)\<rparr>) payload (count_overflow m) mx
          = (put_conn devs i (bump_tx d) (th_dest_port h) c', count_overflow m, [EvDataReady i (th_dest_port h)], [ack])
        \<and> c_ib_buf c' = c_ib_buf c @ payload
        \<and> c_tx_ack c' = th_seq h + word_of_nat (length lost) + word_of_nat (length payload)
        \<and> parse_packet ack = Ok (Tcp a [])
        \<and> th_ack a = th_seq h + word_of_nat (length lost) + word_of_nat (length payload)
        \<and> th_source_port a = th_dest_port h \<and> th_dest_port a = th_source_port h)"
proof -
  let ?h = "h\<lparr>th_seq := th_seq h + word_of_nat (length lost)\<rparr>"
  have "lost \<noteq> []" using assms(7) assms(9) by auto
  with assms(1-7) have "handle_tcp_packet iter devs i h lost m mx = (devs, count_overflow m, [], [])"
    by (simp add: handle_tcp_packet_exact handle_conn_data conn_accept_def)
  moreover have "d_connections d (th_dest_port ?h) = Some c" "c_dest_port c = th_source_port ?h" "data_flags (th_flags ?h)"
    using assms(4-6) by (simp_all add: th_flags_def)
  from data_segment_delivered [OF assms(1-3) this assms(8-10), of "count_overflow m"]
  have "\<exists>c' ack a. handle_tcp_packet iter devs i ?h payload (count_overflow m) mx
        = (put_conn devs i (bump_tx d) (th_dest_port h) c', count_overflow m, [EvDataReady i (th_dest_port h)], [ack])
      \<and> c_ib_buf c' = c_ib_buf c @ payload
      \<and> c_tx_ack c' = th_seq h + word_of_nat (length lost) + word_of_nat (length payload)
      \<and> parse_packet ack = Ok (Tcp a []) \<and> th_ack a = th_seq h + word_of_nat (length lost) + word_of_nat (length payload)
      \<and> th_source_port a = th_dest_port h \<and> th_dest_port a = th_source_port h" by fastforce
  ultimately show ?thesis by blast
qed

theorem overflow_then_hole_acknowledged_witness:
  "let devs = snd (start_connect (cm_add_device cm_new 1) 1 62078 5);
       h = \<lparr>th_source_port = 62078, th_dest_port = 1024, th_seq = 10, th_ack = 0,
         th_offset_flags = TCP_ACK, th_window = 0\<rparr>
   in handle_tcp_packet (\<lambda>m. sorted_list_of_set (dom m)) devs 1 h [1, 2, 3, 4, 5] (metrics_new 0) 4
        = (devs, count_overflow (metrics_new 0), [], [])
    \<and> (\<exists>devs' ack a. handle_tcp_packet (\<lambda>m. sorted_list_of_set (dom m)) devs 1 (h\<lparr>th_seq := 15\<rparr>) [6]
          (count_overflow (metrics_new 0)) 4 = (devs', count_overflow (metrics_new 0), [EvDataReady 1 1024], [ack])
        \<and> parse_packet ack = Ok (Tcp a []) \<and> th_ack a = 16)"
proof -
  let ?devs = "snd (start_connect (cm_add_device cm_new 1) 1 62078 5)"
  let ?h = "\<lparr>th_source_port = 62078, th_dest_port = 1024, th_seq = 10, th_ack = 0,
         th_offset_flags = TCP_ACK, th_window = 0\<rparr> :: tcp_header"
  have devs: "?devs 1 = Some ((mux_device_new 1)\<lparr>d_connections := [1024 \<mapsto> connection_new 1024 62078 5]\<rparr>)"
    by (simp add: start_connect_def cm_add_device_def cm_new_def mux_device_new_def find_port.simps)
  have inv: "cm_inv 4 ?devs" by (intro inv_intros)
  show ?thesis
    using overflow_then_hole_acknowledged [OF hash_iter_witness inv devs, of ?h _ "[1, 2, 3, 4, 5]" "[6]" "metrics_new 0"]
    by (fastforce simp: connection_new_def data_flags_def TCP_ACK_def TCP_SYN_def TCP_RST_def TCP_FIN_def Let_def)
qed

text \<open>C37: The fallback match misroutes. A reset for a connection that is no longer in the table (its
  destination port is not in use, nor is the device's port number used as one of ours) is not
  ignored when the device has live connections to the same device port: one of them, an
  established connection with another port of ours, goes to state Dead and is reported as
  disconnected, and nothing else in the table changes.\<close>

theorem stray_reset_kills_other_connection:
  assumes "hash_iter iter" and "cm_inv mx devs" and "devs i = Some d"
    and "d_connections d (th_dest_port h) = None" and "d_connections d (th_source_port h) = None"
    and "d_connections d k = Some c" and "c_dest_port c = th_source_port h"
    and "\<forall>k c. d_connections d k = Some c \<longrightarrow> c_dest_port c = th_source_port h \<longrightarrow> c_state c = Connected"
    and "th_flags h = TCP_RST"
  shows "\<exists>k' c'. d_connections d k' = Some c' \<and> k' \<noteq> th_dest_port h
     \<and> c_dest_port c' = th_source_port h \<and> c_state c' = Connected
     \<and> handle_tcp_packet iter devs i h payload m mx
        = (put_conn devs i d k' (c'\<lparr>c_state := Dead\<rparr>), m, [EvDisconnected i k'], [])"
proof -
  have own_port: "c_source_port x = j" if "d_connections d j = Some x" for j x
    using dev_invD [OF cm_invD [OF assms(2,3)] that] by (simp add: conn_inv_def)
  have "find_key iter (d_connections d) (exact_match h) = None"
    using assms(1,4) own_port by (fastforce simp: find_key_None_iff exact_match_def)
  moreover obtain k' where k': "find_key iter (d_connections d) (loose_match h) = Some k'"
    using assms(1,6,7) find_key_None_iff [of iter "d_connections d" "loose_match h"]
    by (auto simp: loose_match_def)
  moreover obtain c' where c': "d_connections d k' = Some c'" and "loose_match h c'"
    using find_key_Some [OF k'] by blast
  moreover from this own_port [OF c'] assms(5) have "c_dest_port c' = th_source_port h"
    by (auto simp: loose_match_def)
  ultimately show ?thesis
    using assms(3,4,8,9) own_port [OF c']
    by (intro exI [of _ k'] exI [of _ c'])
      (auto simp: handle_tcp_packet_def find_conn_def handle_conn_def TCP_RST_def TCP_SYN_def)
qed

theorem stray_reset_kills_other_connection_witness:
  "let d = (mux_device_new 1)\<lparr>d_connections := [1024 \<mapsto> (connection_new 1024 62078 5)\<lparr>c_state := Connected\<rparr>]\<rparr>
   in \<exists>k' c'. k' \<noteq> 2000 \<and> c_state c' = Connected \<and> handle_tcp_packet (\<lambda>m. sorted_list_of_set (dom m)) [1 \<mapsto> d] 1
       \<lparr>th_source_port = 62078, th_dest_port = 2000, th_seq = 0, th_ack = 0,
         th_offset_flags = TCP_RST, th_window = 0\<rparr> [] (metrics_new 0) 64
     = (put_conn [1 \<mapsto> d] 1 d k' (c'\<lparr>c_state := Dead\<rparr>), metrics_new 0, [EvDisconnected 1 k'], [])"
proof -
  let ?c = "(connection_new 1024 62078 5)\<lparr>c_state := Connected\<rparr>"
  let ?d = "(mux_device_new 1)\<lparr>d_connections := [1024 \<mapsto> ?c]\<rparr>"
  let ?h = "\<lparr>th_source_port = 62078, th_dest_port = 2000, th_seq = 0, th_ack = 0,
         th_offset_flags = TCP_RST, th_window = 0\<rparr> :: tcp_header"
  have inv: "cm_inv 64 [1 \<mapsto> ?d]"
    by (simp add: cm_inv_def dev_inv_def conn_inv_def mux_device_new_def connection_new_def)
  have flags: "th_flags ?h = TCP_RST" by (simp add: TCP_RST_def)
  have port: "c_dest_port ?c = 62078" by (simp add: connection_new_def)
  have "\<exists>k' c'. d_connections ?d k' = Some c' \<and> k' \<noteq> th_dest_port ?h \<and> c_dest_port c' = th_source_port ?h
      \<and> c_state c' = Connected \<and> handle_tcp_packet (\<lambda>m. sorted_list_of_set (dom m)) [1 \<mapsto> ?d] 1 ?h [] (metrics_new 0) 64
        = (put_conn [1 \<mapsto> ?d] 1 ?d k' (c'\<lparr>c_state := Dead\<rparr>), metrics_new 0, [EvDisconnected 1 k'], [])"
    by (rule stray_reset_kills_other_connection [OF hash_iter_witness inv _ _ _ _ _ _ flags, where k = 1024 and c = ?c])
      (use port in simp_all)
  then show ?thesis unfolding Let_def tcp_header.simps by blast
qed

end
