(* ===== verification/Device_Link.thy ===== *)
theory Device_Link
  imports Reassembler Conn_Manager
begin

unbundle bit_operations_syntax

text \<open>
  The traffic of one device, from \<open>daemon/device_manager.rs\<close>: what the processing task does
  with a packet from the device, with client data and with a window update, the request for a
  new connection, and the teardown. \<open>usb.send\<close> is an argument, the outcome of writing the bytes
  (\<open>None\<close> for success, else the text of the error).

  Every function that takes the table's lock more than once is given by its critical sections
  first, because other tasks run in between: the processing task is one task per device, but a
  task is spawned for every connection request and every client has its own. \<open>link_step\<close>
  is one critical section of any task; the table invariant holds in every state that any
  interleaving of them reaches.
\<close>

type_synonym usb_out = "bytes \<Rightarrow> rstr option"

section \<open>Packets from the device\<close>

text \<open>The \<open>Version\<close> branch: its critical section, and the SETUP packet before it.\<close>

definition version_section :: "devices \<Rightarrow> u32 \<Rightarrow> u32 \<Rightarrow> devices" where
  "version_section devs i major =
     (case devs i of
        Some d \<Rightarrow> devs(i \<mapsto> d\<lparr>d_version := (if 2 \<le> major then 2 else 1), d_state := Active, d_tx_seq := 1\<rparr>)
      | None \<Rightarrow> devs)"

definition handle_version :: "usb_out \<Rightarrow> devices \<Rightarrow> u32 \<Rightarrow> u32 \<Rightarrow> bool \<Rightarrow> devices \<times> bool \<times> bytes list" where
  "handle_version usb devs i major negotiated =
     (let setup_pkt = build_setup_packet 0 0xFFFF;
          (negotiated', sent) =
            (if 2 \<le> major then
               case usb setup_pkt of Some e \<Rightarrow> (negotiated, []) | None \<Rightarrow> (True, [setup_pkt])
             else (True, []))
      in (version_section devs i major, negotiated', sent))"

text \<open>The peer's sequence number of a version-2 frame.\<close>

definition rx_section :: "devices \<Rightarrow> u32 \<Rightarrow> bytes \<Rightarrow> devices" where
  "rx_section devs i data =
     (case parse_mux_header data of
        Ok hdr \<Rightarrow>
          if mh_is_v2 hdr then
            (case devs i of Some d \<Rightarrow> devs(i \<mapsto> d\<lparr>d_rx_seq := mh_rx_seq hdr\<rparr>) | None \<Rightarrow> devs)
          else devs
      | _ \<Rightarrow> devs)"

text \<open>The send queue: every packet is counted, a failed send is only logged.\<close>

fun send_queued :: "usb_out \<Rightarrow> metrics \<Rightarrow> bytes list \<Rightarrow> metrics \<times> bytes list" where
  "send_queued usb m [] = (m, [])"
| "send_queued usb m (pkt # pkts) =
     (let (m', sent) = send_queued usb (count_usb_tx (length pkt) m) pkts
      in (m', (case usb pkt of None \<Rightarrow> pkt # sent | Some e \<Rightarrow> sent)))"

fun count_events :: "metrics \<Rightarrow> connection_event list \<Rightarrow> metrics" where
  "count_events m [] = m"
| "count_events m (EvDisconnected _ _ # evs) = count_events (m\<lparr>rsts_received := rsts_received m + 1\<rparr>) evs"
| "count_events m (ev # evs) = count_events m evs"

definition process_device_packet ::
  "conn_iter \<Rightarrow> usb_out \<Rightarrow> devices \<Rightarrow> u32 \<Rightarrow> bytes \<Rightarrow> bool \<Rightarrow> metrics \<Rightarrow> usize
   \<Rightarrow> devices \<times> bool \<times> metrics \<times> bytes list" where
  "process_device_packet iter usb devs i data negotiated m max_conn_buffer =
     (case parse_packet data of
        Ok (Version major minor) \<Rightarrow>
          (let (devs', negotiated', sent) = handle_version usb devs i major negotiated
           in (devs', negotiated', m, sent))
      | Ok (Control payload) \<Rightarrow> (devs, negotiated, m, [])
      | Ok Setup \<Rightarrow> (devs, negotiated, m, [])
      | Ok (Tcp header payload) \<Rightarrow>
          (let devs1 = rx_section devs i data;
               (devs2, m2, events, send_queue) =
                 handle_tcp_packet iter devs1 i header payload m max_conn_buffer;
               (m3, sent) = send_queued usb m2 send_queue
           in (devs2, negotiated, count_events m3 events, sent))
      | _ \<Rightarrow> (devs, negotiated, m\<lparr>parse_errors := parse_errors m + 1\<rparr>, []))"

text \<open>One chunk from the USB reader: reassembled, then every packet processed in order.\<close>

fun process_packets ::
  "conn_iter \<Rightarrow> usb_out \<Rightarrow> usize \<Rightarrow> u32 \<Rightarrow> devices \<Rightarrow> bool \<Rightarrow> metrics \<Rightarrow> bytes list
   \<Rightarrow> devices \<times> bool \<times> metrics \<times> bytes list" where
  "process_packets iter usb mx i devs negotiated m [] = (devs, negotiated, m, [])"
| "process_packets iter usb mx i devs negotiated m (p # ps) =
     (let (devs1, neg1, m1, s1) = process_device_packet iter usb devs i p negotiated m mx;
          (devs2, neg2, m2, s2) = process_packets iter usb mx i devs1 neg1 m1 ps
      in (devs2, neg2, m2, s1 @ s2))"

definition usb_input ::
  "conn_iter \<Rightarrow> usb_out \<Rightarrow> usize \<Rightarrow> u32 \<Rightarrow> reassembler \<Rightarrow> devices \<Rightarrow> bool \<Rightarrow> metrics \<Rightarrow> bytes
   \<Rightarrow> reassembler \<times> devices \<times> bool \<times> metrics \<times> bytes list" where
  "usb_input iter usb mx i r devs negotiated m raw_data =
     (let (packets, r') = feed r raw_data;
          (devs', neg', m', sent) =
            process_packets iter usb mx i devs negotiated (count_usb_rx (length raw_data) m) packets
      in (r', devs', neg', m', sent))"

section \<open>Client data and window updates\<close>

text \<open>Read section, send, commit section.\<close>

definition client_data_packet :: "devices \<Rightarrow> u32 \<Rightarrow> u16 \<Rightarrow> bytes \<Rightarrow> bytes option" where
  "client_data_packet devs i sport data =
     (case devs i of
        None \<Rightarrow> None
      | Some d \<Rightarrow>
          (case d_connections d sport of
             None \<Rightarrow> None
           | Some conn \<Rightarrow>
               if c_state conn \<noteq> Connected then None
               else Some (build_tcp_packet (v2_seqs d) sport (c_dest_port conn) (c_tx_seq conn)
                      (c_tx_ack conn) TCP_ACK (ucast (drop_bit 8 INITIAL_WINDOW)) (Some data))))"

definition client_data_commit :: "devices \<Rightarrow> u32 \<Rightarrow> u16 \<Rightarrow> bytes \<Rightarrow> devices" where
  "client_data_commit devs i sport data =
     (case devs i of
        None \<Rightarrow> devs
      | Some d \<Rightarrow>
          (case d_connections d sport of
             None \<Rightarrow> devs(i \<mapsto> bump_tx d)
           | Some conn \<Rightarrow> put_conn devs i (bump_tx d) sport
               (conn\<lparr>c_tx_seq := c_tx_seq conn + word_of_nat (length data),
                     c_ob_buf := c_ob_buf conn @ data\<rparr>)))"

definition send_client_data ::
  "usb_out \<Rightarrow> devices \<Rightarrow> u32 \<Rightarrow> u16 \<Rightarrow> bytes \<Rightarrow> metrics \<Rightarrow> devices \<times> metrics \<times> bytes list" where
  "send_client_data usb devs i sport data m =
     (case client_data_packet devs i sport data of
        None \<Rightarrow> (devs, m, [])
      | Some pkt \<Rightarrow>
          (let m' = count_usb_tx (length pkt) m
           in case usb pkt of
                Some e \<Rightarrow> (devs, m', [])
              | None \<Rightarrow> (client_data_commit devs i sport data, m', [pkt])))"

definition window_update_packet :: "devices \<Rightarrow> u32 \<Rightarrow> u16 \<Rightarrow> usize \<Rightarrow> bytes option" where
  "window_update_packet devs i sport max_conn_buffer =
     (case devs i of
        None \<Rightarrow> None
      | Some d \<Rightarrow>
          (case d_connections d sport of
             None \<Rightarrow> None
           | Some conn \<Rightarrow>
               if \<not> is_active (c_state conn) then None
               else
                 let free = max_conn_buffer - length (c_ib_buf conn) in
                 if 2 \<le> d_version d then
                   Some (build_tcp_packet (Some (d_tx_seq d, d_rx_seq d)) sport (c_dest_port conn)
                      (c_tx_seq conn) (c_tx_ack conn) TCP_ACK (scaled_window free) None)
                 else
                   Some (build_tcp_packet None sport (c_dest_port conn)
                      (c_tx_seq conn) (c_tx_ack conn) TCP_ACK (scaled_window free) None)))"

definition window_update_commit :: "devices \<Rightarrow> u32 \<Rightarrow> devices" where
  "window_update_commit devs i = (case devs i of None \<Rightarrow> devs | Some d \<Rightarrow> devs(i \<mapsto> bump_tx d))"

definition send_window_update ::
  "usb_out \<Rightarrow> devices \<Rightarrow> u32 \<Rightarrow> u16 \<Rightarrow> usize \<Rightarrow> metrics \<Rightarrow> devices \<times> metrics \<times> bytes list" where
  "send_window_update usb devs i sport max_conn_buffer m =
     (case window_update_packet devs i sport max_conn_buffer of
        None \<Rightarrow> (devs, m, [])
      | Some pkt \<Rightarrow>
          (let m' = count_usb_tx (length pkt) m
           in case usb pkt of
                Some e \<Rightarrow> (devs, m', [])
              | None \<Rightarrow> (window_update_commit devs i, m', [pkt])))"

section \<open>Connection requests\<close>

record connect_request =
  cr_device_id :: u32
  cr_dport :: u16
  cr_tag :: u32

text \<open>The section that builds the SYN.\<close>

definition connect_syn :: "devices \<Rightarrow> u32 \<Rightarrow> u16 \<Rightarrow> (rstr, bytes) res \<times> devices" where
  "connect_syn devs i sport =
     (case devs i of
        None \<Rightarrow> (Err (lit ''device not found''), devs)
      | Some d \<Rightarrow>
          (case d_connections d sport of
             None \<Rightarrow> (Err (lit ''connection not found''), devs)
           | Some conn \<Rightarrow>
               (Ok (build_tcp_packet (v2_seqs d) sport (c_dest_port conn) 0 0 TCP_SYN
                      (ucast (drop_bit 8 INITIAL_WINDOW)) None),
                if 2 \<le> d_version d then devs(i \<mapsto> bump_tx d) else devs)))"

text \<open>
  The wait: one element of \<open>obs\<close> per round, the milliseconds since its start and the table as
  that round reads it. \<open>None\<close> when the rounds listed end without an answer.
\<close>

definition CONNECT_TIMEOUT_MS :: nat where
  "CONNECT_TIMEOUT_MS = 5000"

definition connect_poll :: "u32 \<Rightarrow> u16 \<Rightarrow> nat \<Rightarrow> devices \<Rightarrow> (rstr, u16) res option" where
  "connect_poll i sport elapsed devs =
     (if CONNECT_TIMEOUT_MS < elapsed then Some (Err (lit ''connect timeout''))
      else case devs i of
        None \<Rightarrow> None
      | Some d \<Rightarrow>
          (case d_connections d sport of
             None \<Rightarrow> None
           | Some conn \<Rightarrow>
               (case c_state conn of
                  Connected \<Rightarrow> Some (Ok sport)
                | Refused \<Rightarrow> Some (Err (lit ''connection refused''))
                | Dead \<Rightarrow> Some (Err (lit ''connection dead''))
                | _ \<Rightarrow> None)))"

fun connect_wait :: "u32 \<Rightarrow> u16 \<Rightarrow> metrics \<Rightarrow> (nat \<times> devices) list \<Rightarrow> (rstr, u16) res option \<times> metrics" where
  "connect_wait i sport m [] = (None, m)"
| "connect_wait i sport m ((elapsed, devs) # obs) =
     (case connect_poll i sport elapsed devs of
        None \<Rightarrow> connect_wait i sport m obs
      | Some (Ok s) \<Rightarrow> (Some (Ok s), m)
      | Some r \<Rightarrow> (Some r, count_connect_failure m))"

text \<open>
  \<open>interfere\<close> is what other tasks do to the table between the reservation of the port and the
  section that builds the SYN. The table returned is the one after the task's last own change.
\<close>

definition handle_connect_request ::
  "usb_out \<Rightarrow> (devices \<Rightarrow> devices) \<Rightarrow> (nat \<times> devices) list \<Rightarrow> devices \<Rightarrow> metrics \<Rightarrow> connect_request
   \<Rightarrow> (rstr, u16) res option \<times> devices \<times> metrics \<times> bytes list" where
  "handle_connect_request usb interfere obs devs m req =
     (let i = cr_device_id req; m = m\<lparr>connects_total := connects_total m + 1\<rparr> in
      case start_connect devs i (cr_dport req) (cr_tag req) of
        (Ok sport, devs1) \<Rightarrow>
          (case connect_syn (interfere devs1) i sport of
             (Ok pkt, devs2) \<Rightarrow>
               (case usb pkt of
                  Some e \<Rightarrow> (Some (Err (lit ''SYN send failed: '' @ e)), devs2, count_connect_failure m, [])
                | None \<Rightarrow>
                    (let (r, m') = connect_wait i sport m obs in (r, devs2, m', [pkt])))
           | (Err e, devs2) \<Rightarrow> (Some (Err e), devs2, count_connect_failure m, [])
           | (Panic, devs2) \<Rightarrow> (None, devs2, m, []))
      | (Err e, devs1) \<Rightarrow>
          (Some (Err (lit ''connect failed: '' @ mux_error_display e)), devs1, count_connect_failure m, [])
      | (Panic, devs1) \<Rightarrow> (None, devs1, m, []))"

section \<open>Teardown\<close>

definition kill_conn :: "connection \<Rightarrow> connection" where
  "kill_conn c = c\<lparr>c_state := Dead, c_data_notify := notify_one (c_data_notify c)\<rparr>"

definition cleanup_device_connections :: "devices \<Rightarrow> u32 \<Rightarrow> devices" where
  "cleanup_device_connections devs i =
     (case devs i of
        None \<Rightarrow> devs
      | Some d \<Rightarrow> devs(i \<mapsto> d\<lparr>d_connections := (\<lambda>k. map_option kill_conn (d_connections d k))\<rparr>))"

text \<open>The end of a client's proxy removes its connection (\<open>daemon/connection.rs\<close>).\<close>

definition remove_connection :: "devices \<Rightarrow> u32 \<Rightarrow> u16 \<Rightarrow> devices" where
  "remove_connection devs i sport =
     (case devs i of
        None \<Rightarrow> devs
      | Some d \<Rightarrow> devs(i \<mapsto> d\<lparr>d_connections := (d_connections d)(sport := None)\<rparr>))"

text \<open>The drain of a client's proxy: its error, nothing buffered, or the bytes taken.\<close>

definition drain_section :: "devices \<Rightarrow> u32 \<Rightarrow> u16 \<Rightarrow> ((rstr, unit) res + bytes option) \<times> devices" where
  "drain_section devs i sport =
     (case devs i of
        None \<Rightarrow> (Inl (Err (lit ''device not found'')), devs)
      | Some d \<Rightarrow>
          (case d_connections d sport of
             None \<Rightarrow> (Inl (Err (lit ''connection not found'')), devs)
           | Some conn \<Rightarrow>
               if c_state conn = Dead then (Inl (Ok ()), devs)
               else if c_state conn \<noteq> Connected then (Inl (Err (lit ''connection not connected'')), devs)
               else if c_ib_buf conn \<noteq> [] then
                 (let (data, conn') = conn_drain conn
                  in (Inr (Some data), put_conn devs i d sport conn'))
               else (Inr None, devs)))"

section \<open>Interleavings\<close>

inductive link_step :: "conn_iter \<Rightarrow> usize \<Rightarrow> devices \<Rightarrow> devices \<Rightarrow> bool" for iter mx where
  step_add: "link_step iter mx devs (cm_add_device devs i)"
| step_remove: "link_step iter mx devs (cm_remove_device devs i)"
| step_start: "link_step iter mx devs (snd (start_connect devs i dport tag))"
| step_syn: "link_step iter mx devs (snd (connect_syn devs i sport))"
| step_version: "link_step iter mx devs (version_section devs i major)"
| step_rx: "link_step iter mx devs (rx_section devs i data)"
| step_tcp: "link_step iter mx devs (fst (handle_tcp_packet iter devs i h payload m mx))"
| step_data: "link_step iter mx devs (client_data_commit devs i sport data)"
| step_window: "link_step iter mx devs (window_update_commit devs i)"
| step_drain: "link_step iter mx devs (snd (drain_section devs i sport))"
| step_unregister: "link_step iter mx devs (remove_connection devs i sport)"
| step_cleanup: "link_step iter mx devs (cleanup_device_connections devs i)"

definition reachable :: "conn_iter \<Rightarrow> usize \<Rightarrow> devices \<Rightarrow> bool" where
  "reachable iter mx devs \<longleftrightarrow> (link_step iter mx)\<^sup>*\<^sup>* cm_new devs"

inductive_cases link_stepE: "link_step iter mx devs devs'"

section \<open>The table invariant under interleaving\<close>

lemma dev_inv_fields [simp]:
  "dev_inv mx i (d\<lparr>d_version := v\<rparr>) \<longleftrightarrow> dev_inv mx i d"
  "dev_inv mx i (d\<lparr>d_state := st\<rparr>) \<longleftrightarrow> dev_inv mx i d"
  "dev_inv mx i (d\<lparr>d_tx_seq := s\<rparr>) \<longleftrightarrow> dev_inv mx i d"
  "dev_inv mx i (d\<lparr>d_rx_seq := s\<rparr>) \<longleftrightarrow> dev_inv mx i d"
  by (simp_all add: dev_inv_def)

lemma cm_inv_version [inv_intros]: "cm_inv mx devs \<Longrightarrow> cm_inv mx (version_section devs i major)"
  by (auto simp: version_section_def split: option.splits intro!: cm_inv_update dest: cm_invD)

lemma cm_inv_rx [inv_intros]: "cm_inv mx devs \<Longrightarrow> cm_inv mx (rx_section devs i data)"
  by (auto simp: rx_section_def split: option.splits res.splits intro!: cm_inv_update dest: cm_invD)

lemma cm_inv_data_commit [inv_intros]: "cm_inv mx devs \<Longrightarrow> cm_inv mx (client_data_commit devs i sport data)"
  by (auto simp: client_data_commit_def split: option.splits
      intro!: cm_inv_update cm_inv_put_conn dest: cm_invD intro: dev_invD [OF cm_invD])

lemma cm_inv_window_commit [inv_intros]: "cm_inv mx devs \<Longrightarrow> cm_inv mx (window_update_commit devs i)"
  by (auto simp: window_update_commit_def split: option.splits intro!: cm_inv_update dest: cm_invD)

lemma cm_inv_syn [inv_intros]: "cm_inv mx devs \<Longrightarrow> cm_inv mx (snd (connect_syn devs i sport))"
  by (auto simp: connect_syn_def split: option.splits intro!: cm_inv_update dest: cm_invD)

lemma cm_inv_drain [inv_intros]: "cm_inv mx devs \<Longrightarrow> cm_inv mx (snd (drain_section devs i sport))"
  by (auto simp: drain_section_def conn_drain_def conn_inv_def split: option.splits
      intro!: cm_inv_put_conn dest: cm_invD dev_invD [OF cm_invD])

lemma cm_inv_remove_connection [inv_intros]: "cm_inv mx devs \<Longrightarrow> cm_inv mx (remove_connection devs i sport)"
  by (auto simp: remove_connection_def dev_inv_def split: option.splits intro!: cm_inv_update dest: cm_invD)

lemma cm_inv_cleanup [inv_intros]: "cm_inv mx devs \<Longrightarrow> cm_inv mx (cleanup_device_connections devs i)"
  by (auto simp: cleanup_device_connections_def cm_inv_def dev_inv_def kill_conn_def split: option.splits)

lemma cm_inv_link_step: "link_step iter mx devs devs' \<Longrightarrow> cm_inv mx devs \<Longrightarrow> cm_inv mx devs'"
  by (induction rule: link_step.induct) (intro inv_intros, assumption)+

lemma cm_inv_reachable: "reachable iter mx devs \<Longrightarrow> cm_inv mx devs"
  unfolding reachable_def
  by (induction rule: rtranclp_induct) (auto intro: cm_inv_new cm_inv_link_step)

text \<open>The composed handlers are runs of such steps.\<close>

lemma process_device_packet_steps:
  "(link_step iter mx)\<^sup>*\<^sup>* devs (fst (process_device_packet iter usb devs i data neg m mx))"
proof (cases "parse_packet data")
  case (Ok p)
  show ?thesis
  proof (cases p)
    case (Version major minor)
    with Ok show ?thesis
      using step_version [of iter mx devs i major]
      by (auto simp: process_device_packet_def handle_version_def Let_def split: option.splits)
  next
    case (Tcp h pl)
    have "link_step iter mx devs (rx_section devs i data)" by (rule step_rx)
    moreover have "link_step iter mx (rx_section devs i data)
        (fst (handle_tcp_packet iter (rx_section devs i data) i h pl m mx))" by (rule step_tcp)
    moreover have "fst (process_device_packet iter usb devs i data neg m mx)
        = fst (handle_tcp_packet iter (rx_section devs i data) i h pl m mx)"
      using Ok Tcp by (simp add: process_device_packet_def split: prod.splits)
    ultimately show ?thesis by simp
  qed (use Ok in \<open>simp_all add: process_device_packet_def\<close>)
qed (simp_all add: process_device_packet_def)

lemma process_packets_steps:
  "(link_step iter mx)\<^sup>*\<^sup>* devs (fst (process_packets iter usb mx i devs neg m ps))"
proof (induction ps arbitrary: devs neg m)
  case (Cons p ps)
  then show ?case
    using process_device_packet_steps [of iter mx devs usb i p neg m]
    by (auto split: prod.splits intro: rtranclp_trans) (metis fst_conv rtranclp_trans)
qed simp

lemma send_client_data_steps:
  "(link_step iter mx)\<^sup>*\<^sup>* devs (fst (send_client_data usb devs i sport data m))"
  using step_data [of iter mx devs i sport data]
  by (auto simp: send_client_data_def Let_def split: option.splits)

lemma send_window_update_steps:
  "(link_step iter mx)\<^sup>*\<^sup>* devs (fst (send_window_update usb devs i sport lim m))"
  using step_window [of iter mx devs i]
  by (auto simp: send_window_update_def Let_def split: option.splits)

section \<open>The USB byte stream\<close>

fun usb_inputs ::
  "conn_iter \<Rightarrow> usb_out \<Rightarrow> usize \<Rightarrow> u32 \<Rightarrow> reassembler \<Rightarrow> devices \<Rightarrow> bool \<Rightarrow> metrics \<Rightarrow> bytes list
   \<Rightarrow> reassembler \<times> devices \<times> bool \<times> metrics \<times> bytes list" where
  "usb_inputs iter usb mx i r devs neg m [] = (r, devs, neg, m, [])"
| "usb_inputs iter usb mx i r devs neg m (c # cs) =
     (let (r1, devs1, neg1, m1, s1) = usb_input iter usb mx i r devs neg m c;
          (r2, devs2, neg2, m2, s2) = usb_inputs iter usb mx i r1 devs1 neg1 m1 cs
      in (r2, devs2, neg2, m2, s1 @ s2))"

text \<open>The table, the handshake flag and the packets sent do not depend on the counters.\<close>

definition no_metrics :: "devices \<times> bool \<times> metrics \<times> bytes list \<Rightarrow> devices \<times> bool \<times> bytes list" where
  "no_metrics = (\<lambda>(devs, neg, m, s). (devs, neg, s))"

lemma handle_tcp_packet_metrics:
  "handle_tcp_packet iter devs i h pl m mx = (d1, m1, e1, q1) \<Longrightarrow>
   handle_tcp_packet iter devs i h pl n mx = (d2, m2, e2, q2) \<Longrightarrow> d1 = d2 \<and> e1 = e2 \<and> q1 = q2"
  by (auto simp: handle_tcp_packet_def handle_conn_def Let_def split: option.splits if_splits)

lemma send_queued_sent: "snd (send_queued usb m ps) = filter (\<lambda>p. usb p = None) ps"
  by (induction ps arbitrary: m) (auto simp: case_prod_beta Let_def split: option.splits)

lemma process_device_packet_metrics:
  "no_metrics (process_device_packet iter usb devs i p neg m mx)
   = no_metrics (process_device_packet iter usb devs i p neg n mx)"
  using handle_tcp_packet_metrics [of iter "rx_section devs i p" i _ _ m mx _ _ _ _ n]
    send_queued_sent [of usb]
  by (auto simp: process_device_packet_def no_metrics_def Let_def
      split: res.splits mux_packet.splits prod.splits) (metis snd_conv)+

lemma process_packets_metrics:
  "no_metrics (process_packets iter usb mx i devs neg m ps)
   = no_metrics (process_packets iter usb mx i devs neg n ps)"
proof (induction ps arbitrary: devs neg m n)
  case (Cons p ps)
  have "no_metrics (process_device_packet iter usb devs i p neg m mx)
      = no_metrics (process_device_packet iter usb devs i p neg n mx)"
    by (rule process_device_packet_metrics)
  moreover obtain d1 g1 m1 s1 d2 g2 m2 s2
    where "process_device_packet iter usb devs i p neg m mx = (d1, g1, m1, s1)"
      "process_device_packet iter usb devs i p neg n mx = (d2, g2, m2, s2)" by (metis prod_cases4)
  ultimately show ?case
    using Cons [of d1 g1 m1 m2]
    by (auto simp: no_metrics_def split: prod.splits)
qed (simp add: no_metrics_def)

lemma process_packets_append:
  "process_packets iter usb mx i devs neg m (ps @ qs) =
     (let (devs1, neg1, m1, s1) = process_packets iter usb mx i devs neg m ps;
          (devs2, neg2, m2, s2) = process_packets iter usb mx i devs1 neg1 m1 qs
      in (devs2, neg2, m2, s1 @ s2))"
  by (induction ps arbitrary: devs neg m) (auto split: prod.splits)

lemma usb_inputs_packets:
  "usb_inputs iter usb mx i r devs neg m cs = (r', devs', neg', m', sent) \<Longrightarrow>
   r' = snd (feed_all r cs)
   \<and> no_metrics (process_packets iter usb mx i devs neg n (fst (feed_all r cs))) = (devs', neg', sent)"
proof (induction cs arbitrary: r devs neg m n r' devs' neg' m' sent)
  case (Cons c cs)
  obtain ps r1 where f: "feed r c = (ps, r1)" by fastforce
  obtain d1 g1 m1 s1 where p: "process_packets iter usb mx i devs neg (count_usb_rx (length c) m) ps = (d1, g1, m1, s1)"
    by (metis prod_cases4)
  obtain n1 where pn: "process_packets iter usb mx i devs neg n ps = (d1, g1, n1, s1)"
    using process_packets_metrics [of iter usb mx i devs neg "count_usb_rx (length c) m" ps n] p
    by (cases "process_packets iter usb mx i devs neg n ps") (auto simp: no_metrics_def)
  obtain s2 where rest: "usb_inputs iter usb mx i r1 d1 g1 m1 cs = (r', devs', neg', m', s2)" "sent = s1 @ s2"
    using Cons.prems f p by (auto simp: usb_input_def split: prod.splits)
  from Cons.IH [OF rest(1), of n1] show ?case
    using f pn rest(2) by (auto simp: process_packets_append no_metrics_def split: prod.splits)
qed (simp add: no_metrics_def)

text \<open>A segment from the device for the connection on local port \<open>k\<close> to the device's port \<open>dp\<close>.\<close>

definition segment_for :: "u16 \<Rightarrow> u16 \<Rightarrow> segment \<Rightarrow> bool" where
  "segment_for k dp g \<longleftrightarrow> sg_dport g = k \<and> sg_sport g = dp \<and> data_flags (sg_flags g AND 0xFF) \<and> sg_payload g \<noteq> []"

lemma th_flags_segment:
  "th_flags \<lparr>th_source_port = a, th_dest_port = b, th_seq = c, th_ack = d,
     th_offset_flags = push_bit 12 0x5 OR (0x0FFF AND fl), th_window = f\<rparr> = fl AND 0xFF"
  by (rule th_flags_built) simp

lemma rx_section_frame:
  "devs i = Some d \<Longrightarrow> rx_section devs i (segment_frame g) = devs(i \<mapsto> d\<lparr>d_rx_seq := snd (sg_seqs g)\<rparr>)"
  by (cases "sg_seqs g")
     (simp add: rx_section_def segment_frame_def build_tcp_packet_def parse_mux_header_frame_v2)

lemma put_conn_upd [simp]: "put_conn (devs(i \<mapsto> e)) i d k c = put_conn devs i d k c"
  by (simp add: put_conn_def)

text \<open>The connection after one of its segments.\<close>

definition receive :: "segment \<Rightarrow> connection \<Rightarrow> connection" where
  "receive g c = c\<lparr>c_tx_ack := sg_seq g + word_of_nat (length (sg_payload g)),
     c_ib_buf := c_ib_buf c @ sg_payload g, c_data_notify := notify_waiters (c_data_notify c)\<rparr>"

lemma receive_simps [simp]:
  "c_ib_buf (receive g c) = c_ib_buf c @ sg_payload g" "c_source_port (receive g c) = c_source_port c"
  "c_dest_port (receive g c) = c_dest_port c" "c_state (receive g c) = c_state c"
  "c_tx_ack (receive g c) = sg_seq g + word_of_nat (length (sg_payload g))"
  by (simp_all add: receive_def)

lemma process_segment:
  assumes "hash_iter iter" and "cm_inv mx devs" and "devs i = Some d" and "d_connections d k = Some c"
    and "segment_for k (c_dest_port c) g" and "segment_fits lim g"
    and "length (c_ib_buf c) + length (sg_payload g) \<le> mx" and "c_dest_port c \<noteq> 0xFACE"
  shows "\<exists>m' ack a. process_device_packet iter (\<lambda>_. None) devs i (segment_frame g) neg m mx =
      (put_conn devs i (bump_tx (d\<lparr>d_rx_seq := snd (sg_seqs g)\<rparr>)) k (receive g c), neg, m', [ack])
    \<and> parse_packet ack = Ok (Tcp a []) \<and> th_source_port a = k \<and> th_dest_port a = c_dest_port c
    \<and> th_ack a = c_tx_ack (receive g c)"
proof -
  let ?d = "d\<lparr>d_rx_seq := snd (sg_seqs g)\<rparr>"
  let ?c = "c\<lparr>c_tx_ack := sg_seq g + word_of_nat (length (sg_payload g)), c_ib_buf := c_ib_buf c @ sg_payload g\<rparr>"
  define h where "h = \<lparr>th_source_port = sg_sport g, th_dest_port = sg_dport g, th_seq = sg_seq g,
          th_ack = sg_ack g, th_offset_flags = push_bit 12 0x5 OR (0x0FFF AND sg_flags g),
          th_window = sg_window g\<rparr>"
  have parse: "parse_packet (segment_frame g) = Ok (Tcp h (sg_payload g))"
    using tcp_codec.parse_frame [OF assms(6)] by (simp add: segment_packet_def h_def)
  have h: "th_source_port h = sg_sport g" "th_dest_port h = sg_dport g" "th_seq h = sg_seq g"
      "th_flags h = sg_flags g AND 0xFF"
    unfolding h_def th_flags_segment by simp_all
  have devs1: "cm_inv mx (devs(i \<mapsto> ?d))"
    using assms(2,3) by (auto intro!: cm_inv_update dest: cm_invD)
  have src: "c_source_port c = k"
    using dev_invD [OF cm_invD [OF assms(2,3)] assms(4)] by (simp add: conn_inv_def)
  have ports: "sg_dport g = k" "sg_sport g = c_dest_port c" and fl: "data_flags (th_flags h)"
    and ne: "sg_payload g \<noteq> []" using assms(5) h by (simp_all add: segment_for_def)
  have "handle_tcp_packet iter (devs(i \<mapsto> ?d)) i h (sg_payload g) m mx
      = handle_conn (devs(i \<mapsto> ?d)) i ?d k c h (sg_payload g) m mx"
    using handle_tcp_packet_exact [OF assms(1) devs1, of i ?d h c] assms(4) ports h by simp
  also have "\<dots> = (put_conn devs i (bump_tx ?d) k (receive g c), m, [EvDataReady i k],
      [ack_packet ?d ?c (scaled_window (mx - length (c_ib_buf ?c)))])"
    using assms(7) src
    by (simp add: handle_conn_data [OF fl ne] conn_accept_def receive_def h)
  finally have tcp: "handle_tcp_packet iter (devs(i \<mapsto> ?d)) i h (sg_payload g) m mx = \<dots>" .
  obtain a where a: "parse_packet (ack_packet ?d ?c (scaled_window (mx - length (c_ib_buf ?c)))) = Ok (Tcp a [])"
    "th_source_port a = k" "th_dest_port a = c_dest_port c" "th_ack a = c_tx_ack ?c"
    using parse_ack_packet [of ?c ?d "scaled_window (mx - length (c_ib_buf ?c))"] assms(8) src by auto
  from tcp a assms(3) parse show ?thesis
    by (auto simp: process_device_packet_def rx_section_frame)
qed

lemma process_segments:
  assumes "hash_iter iter" and "cm_inv mx devs" and "devs i = Some d" and "d_connections d k = Some c"
    and "\<forall>g \<in> set gs. segment_for k (c_dest_port c) g \<and> segment_fits lim g"
    and "length (c_ib_buf c) + length (concat (map sg_payload gs)) \<le> mx" and "c_dest_port c \<noteq> 0xFACE"
  shows "\<exists>d' m' acks. process_packets iter (\<lambda>_. None) mx i devs neg m (map segment_frame gs)
        = (devs(i \<mapsto> d'), neg, m', acks)
      \<and> d_connections d' = (d_connections d)(k \<mapsto> fold receive gs c)
      \<and> d_tx_seq d' = d_tx_seq d + word_of_nat (length gs)
      \<and> list_all2 (\<lambda>g p. \<exists>a. parse_packet p = Ok (Tcp a []) \<and> th_source_port a = k
            \<and> th_dest_port a = c_dest_port c
            \<and> th_ack a = sg_seq g + word_of_nat (length (sg_payload g))) gs acks"
  using assms(2-7)
proof (induction gs arbitrary: devs d c m)
  case Nil
  then show ?case by (auto simp: fun_upd_idem intro!: exI [of _ d])
next
  case (Cons g gs)
  define d1 where "d1 = (bump_tx (d\<lparr>d_rx_seq := snd (sg_seqs g)\<rparr>))
     \<lparr>d_connections := (d_connections d)(k \<mapsto> receive g c)\<rparr>"
  define devs1 where "devs1 = devs(i \<mapsto> d1)"
  have put: "put_conn devs i (bump_tx (d\<lparr>d_rx_seq := snd (sg_seqs g)\<rparr>)) k (receive g c) = devs1"
    by (simp add: put_conn_def devs1_def d1_def)
  obtain m1 ack a where one: "process_device_packet iter (\<lambda>_. None) devs i (segment_frame g) neg m mx =
      (devs1, neg, m1, [ack])"
    and ack: "parse_packet ack = Ok (Tcp a [])" "th_source_port a = k" "th_dest_port a = c_dest_port c"
      "th_ack a = sg_seq g + word_of_nat (length (sg_payload g))"
    using process_segment [OF assms(1) Cons.prems(1-3), of g lim neg m] Cons.prems(4-6)
    unfolding put by auto
  have "conn_inv mx k (receive g c)"
    using dev_invD [OF cm_invD [OF Cons.prems(1,2)] Cons.prems(3)] Cons.prems(5)
    by (simp add: receive_def conn_inv_def)
  then have "cm_inv mx devs1"
    using cm_inv_put_conn [OF Cons.prems(1)] cm_invD [OF Cons.prems(1,2)] put by (metis dev_inv_bump dev_inv_fields(4))
  then have "\<exists>d' m' acks. process_packets iter (\<lambda>_. None) mx i devs1 neg m1 (map segment_frame gs)
        = (devs1(i \<mapsto> d'), neg, m', acks)
      \<and> d_connections d' = (d_connections d1)(k \<mapsto> fold receive gs (receive g c))
      \<and> d_tx_seq d' = d_tx_seq d1 + word_of_nat (length gs)
      \<and> list_all2 (\<lambda>x p. \<exists>a. parse_packet p = Ok (Tcp a []) \<and> th_source_port a = k
            \<and> th_dest_port a = c_dest_port (receive g c)
            \<and> th_ack a = sg_seq x + word_of_nat (length (sg_payload x))) gs acks"
    by (rule Cons.IH) (use Cons.prems(4-6) in \<open>simp_all add: devs1_def d1_def\<close>)
  then obtain d' m' acks where "process_packets iter (\<lambda>_. None) mx i devs1 neg m1 (map segment_frame gs)
        = (devs1(i \<mapsto> d'), neg, m', acks)"
      "d_connections d' = (d_connections d1)(k \<mapsto> fold receive gs (receive g c))"
      "d_tx_seq d' = d_tx_seq d1 + word_of_nat (length gs)"
      "list_all2 (\<lambda>g p. \<exists>a. parse_packet p = Ok (Tcp a []) \<and> th_source_port a = k
            \<and> th_dest_port a = c_dest_port c
            \<and> th_ack a = sg_seq g + word_of_nat (length (sg_payload g))) gs acks"
    unfolding receive_simps by blast
  moreover have "devs1(i \<mapsto> d') = devs(i \<mapsto> d')"
    "(d_connections d1)(k \<mapsto> x) = (d_connections d)(k \<mapsto> x)" "d_tx_seq d1 = d_tx_seq d + 1" for x
    by (simp_all add: devs1_def d1_def)
  ultimately show ?case using one ack by (intro exI [of _ d'] exI [of _ m'] exI [of _ "ack # acks"]) auto
qed

lemma fold_receive [simp]:
  "c_ib_buf (fold receive gs c) = c_ib_buf c @ concat (map sg_payload gs)"
  "c_state (fold receive gs c) = c_state c"
  "c_dest_port (fold receive gs c) = c_dest_port c"
  by (induction gs arbitrary: c) simp_all

section \<open>Client data\<close>

fun send_all_data ::
  "usb_out \<Rightarrow> devices \<Rightarrow> u32 \<Rightarrow> u16 \<Rightarrow> metrics \<Rightarrow> bytes list \<Rightarrow> devices \<times> metrics \<times> bytes list" where
  "send_all_data usb devs i sport m [] = (devs, m, [])"
| "send_all_data usb devs i sport m (x # xs) =
     (let (devs1, m1, s1) = send_client_data usb devs i sport x m;
          (devs2, m2, s2) = send_all_data usb devs1 i sport m1 xs
      in (devs2, m2, s1 @ s2))"

text \<open>The connection after data was sent on it.\<close>

definition transmit :: "bytes \<Rightarrow> connection \<Rightarrow> connection" where
  "transmit data c = c\<lparr>c_tx_seq := c_tx_seq c + word_of_nat (length data), c_ob_buf := c_ob_buf c @ data\<rparr>"

lemma transmit_simps [simp]:
  "c_state (transmit data c) = c_state c" "c_dest_port (transmit data c) = c_dest_port c"
  "c_tx_seq (transmit data c) = c_tx_seq c + word_of_nat (length data)"
  "c_ob_buf (transmit data c) = c_ob_buf c @ data" "c_ib_buf (transmit data c) = c_ib_buf c"
  "c_tx_ack (transmit data c) = c_tx_ack c"
  by (simp_all add: transmit_def)

lemma send_client_data_ok:
  assumes "devs i = Some d" and "d_connections d k = Some c" and "c_state c = Connected"
    and "c_dest_port c \<noteq> 0xFACE" and "length data < 2 ^ 32 - 36"
  shows "\<exists>m' pkt h. send_client_data (\<lambda>_. None) devs i k data m
       = (put_conn devs i (bump_tx d) k (transmit data c), m', [pkt])
     \<and> parse_packet pkt = Ok (Tcp h data) \<and> th_seq h = c_tx_seq c \<and> th_ack h = c_tx_ack c
     \<and> th_source_port h = k \<and> th_dest_port h = c_dest_port c \<and> th_window h = 512"
proof -
  let ?pkt = "build_tcp_packet (v2_seqs d) k (c_dest_port c) (c_tx_seq c) (c_tx_ack c) TCP_ACK 512 (Some data)"
  have win: "ucast (drop_bit 8 INITIAL_WINDOW) = (512 :: u16)" by (simp add: INITIAL_WINDOW_def)
  have "client_data_packet devs i k data = Some ?pkt"
    using assms by (simp add: client_data_packet_def win)
  moreover have "client_data_commit devs i k data = put_conn devs i (bump_tx d) k (transmit data c)"
    using assms by (simp add: client_data_commit_def transmit_def)
  moreover have "\<exists>h. parse_packet ?pkt = Ok (Tcp h data) \<and> th_seq h = c_tx_seq c \<and> th_ack h = c_tx_ack c
     \<and> th_source_port h = k \<and> th_dest_port h = c_dest_port c \<and> th_window h = 512"
    using parse_build_tcp_packet [of "Some data" "v2_seqs d" k "c_dest_port c"] assms(4,5) by simp
  ultimately show ?thesis by (simp add: send_client_data_def)
qed

lemma send_all_data_ok:
  assumes "devs i = Some d" and "d_connections d k = Some c" and "c_state c = Connected"
    and "c_dest_port c \<noteq> 0xFACE" and "\<forall>x \<in> set xs. length x < 2 ^ 32 - 36"
  shows "\<exists>d' m' sent. send_all_data (\<lambda>_. None) devs i k m xs = (devs(i \<mapsto> d'), m', sent)
      \<and> d_connections d' = (d_connections d)(k \<mapsto> fold transmit xs c) \<and> length sent = length xs
      \<and> (\<forall>j < length xs. \<exists>h. parse_packet (sent ! j) = Ok (Tcp h (xs ! j))
            \<and> th_seq h = c_tx_seq c + word_of_nat (length (concat (take j xs)))
            \<and> th_source_port h = k \<and> th_dest_port h = c_dest_port c)"
  using assms
proof (induction xs arbitrary: devs d c m)
  case Nil
  then show ?case by (auto simp: fun_upd_idem intro!: exI [of _ d])
next
  case (Cons x xs)
  define d1 where "d1 = (bump_tx d)\<lparr>d_connections := (d_connections d)(k \<mapsto> transmit x c)\<rparr>"
  define devs1 where "devs1 = devs(i \<mapsto> d1)"
  have put: "put_conn devs i (bump_tx d) k (transmit x c) = devs1"
    by (simp add: put_conn_def devs1_def d1_def)
  obtain m1 pkt h where one: "send_client_data (\<lambda>_. None) devs i k x m = (devs1, m1, [pkt])"
    and pkt: "parse_packet pkt = Ok (Tcp h x)" "th_seq h = c_tx_seq c" "th_source_port h = k" "th_dest_port h = c_dest_port c"
    using send_client_data_ok [of devs i d k c x m] Cons.prems unfolding put by auto
  have "\<exists>d' m' sent. send_all_data (\<lambda>_. None) devs1 i k m1 xs = (devs1(i \<mapsto> d'), m', sent)
      \<and> d_connections d' = (d_connections d1)(k \<mapsto> fold transmit xs (transmit x c)) \<and> length sent = length xs
      \<and> (\<forall>j < length xs. \<exists>h. parse_packet (sent ! j) = Ok (Tcp h (xs ! j))
            \<and> th_seq h = c_tx_seq (transmit x c) + word_of_nat (length (concat (take j xs)))
            \<and> th_source_port h = k \<and> th_dest_port h = c_dest_port (transmit x c))"
    by (rule Cons.IH) (use Cons.prems in \<open>simp_all add: devs1_def d1_def\<close>)
  then obtain d' m' sent where rest: "send_all_data (\<lambda>_. None) devs1 i k m1 xs = (devs1(i \<mapsto> d'), m', sent)"
      "d_connections d' = (d_connections d1)(k \<mapsto> fold transmit xs (transmit x c))" "length sent = length xs"
    and segs: "\<And>j. j < length xs \<Longrightarrow> \<exists>h. parse_packet (sent ! j) = Ok (Tcp h (xs ! j))
            \<and> th_seq h = c_tx_seq (transmit x c) + word_of_nat (length (concat (take j xs)))
            \<and> th_source_port h = k \<and> th_dest_port h = c_dest_port (transmit x c)" by blast
  have "\<exists>h. parse_packet ((pkt # sent) ! j) = Ok (Tcp h ((x # xs) ! j))
            \<and> th_seq h = c_tx_seq c + word_of_nat (length (concat (take j (x # xs))))
            \<and> th_source_port h = k \<and> th_dest_port h = c_dest_port c" if "j < length (x # xs)" for j
  proof (cases j)
    case 0
    with pkt show ?thesis by simp
  next
    case (Suc n)
    with segs [of n] that show ?thesis by (auto simp: ac_simps)
  qed
  moreover have "devs1(i \<mapsto> d') = devs(i \<mapsto> d')" "(d_connections d1)(k \<mapsto> y) = (d_connections d)(k \<mapsto> y)" for y
    by (simp_all add: devs1_def d1_def)
  ultimately show ?case using one rest
    by (intro exI [of _ d'] exI [of _ m'] exI [of _ "pkt # sent"]) auto
qed

lemma fold_transmit [simp]:
  "c_ob_buf (fold transmit xs c) = c_ob_buf c @ concat xs"
  "c_tx_seq (fold transmit xs c) = c_tx_seq c + word_of_nat (length (concat xs))"
  by (induction xs arbitrary: c) (simp_all add: ac_simps)

text \<open>Client data always advertises 512 units of 256 bytes, whatever the receive buffer holds.\<close>

lemma client_data_window_fixed:
  assumes "devs i = Some d" and "d_connections d k = Some c" and "c_state c = Connected"
    and "c_dest_port c \<noteq> 0xFACE" and "length data < 2 ^ 32 - 36"
    and "mx - length (c_ib_buf c) < 131072"
  shows "\<exists>pkt h. client_data_packet devs i k data = Some pkt \<and> parse_packet pkt = Ok (Tcp h data)
     \<and> mx - length (c_ib_buf c) < 256 * unat (th_window h)"
proof -
  obtain m' pkt h where "send_client_data (\<lambda>_. None) devs i k data (metrics_new 0)
       = (put_conn devs i (bump_tx d) k (transmit data c), m', [pkt])"
     "parse_packet pkt = Ok (Tcp h data)" "th_window h = 512"
    using send_client_data_ok [of devs i d k c data "metrics_new 0"] assms(1-5) by blast
  then show ?thesis
    using assms(6) by (auto simp: send_client_data_def Let_def split: option.splits)
qed

section \<open>Waiting for a connection\<close>

lemma connect_wait_answers:
  "\<exists>(t, devs) \<in> set obs. CONNECT_TIMEOUT_MS < t \<Longrightarrow> fst (connect_wait i sport m obs) \<noteq> None"
proof (induction obs)
  case (Cons ob obs)
  obtain t devs where ob: "ob = (t, devs)" by fastforce
  show ?case
  proof (cases "connect_poll i sport t devs")
    case None
    then have "\<not> CONNECT_TIMEOUT_MS < t" by (auto simp: connect_poll_def split: if_splits)
    with Cons None ob show ?thesis by auto
  qed (auto simp: ob split: res.splits)
qed simp

lemma connect_poll_OkD:
  "connect_poll i sport t devs = Some (Ok s) \<Longrightarrow>
   s = sport \<and> t \<le> CONNECT_TIMEOUT_MS
   \<and> (\<exists>d c. devs i = Some d \<and> d_connections d sport = Some c \<and> c_state c = Connected)"
  by (auto simp: connect_poll_def split: if_splits option.splits conn_state.splits)

lemma connect_wait_OkD:
  "connect_wait i sport m obs = (Some (Ok s), m') \<Longrightarrow>
   s = sport \<and> m' = m \<and> (\<exists>(t, devs) \<in> set obs. t \<le> CONNECT_TIMEOUT_MS
     \<and> (\<exists>d c. devs i = Some d \<and> d_connections d sport = Some c \<and> c_state c = Connected))"
proof (induction obs)
  case (Cons ob obs)
  obtain t devs where ob: "ob = (t, devs)" by fastforce
  show ?case
  proof (cases "connect_poll i sport t devs")
    case None
    with Cons ob show ?thesis by auto
  next
    case (Some r)
    with Cons.prems ob have "r = Ok s" "m' = m" by (auto split: res.splits)
    with connect_poll_OkD [of i sport t devs s] Some ob show ?thesis by auto
  qed
qed simp

lemma start_connect_OkD:
  "start_connect devs i dport tag = (Ok s, devs') \<Longrightarrow>
   \<exists>d. devs' i = Some d \<and> d_connections d s = Some (connection_new s dport tag)"
  by (auto simp: start_connect_def split: option.splits)

section \<open>An example table\<close>

text \<open>One device with one established connection, for the witnesses.\<close>

definition example_conn :: connection where
  "example_conn = (connection_new 1024 62078 5)\<lparr>c_state := Connected\<rparr>"

definition example_device :: mux_device where
  "example_device = (mux_device_new 1)\<lparr>d_connections := [1024 \<mapsto> example_conn]\<rparr>"

definition example_devs :: devices where
  "example_devs = [1 \<mapsto> example_device]"

lemma example_simps [simp]:
  "example_devs 1 = Some example_device" "d_connections example_device 1024 = Some example_conn"
  "c_dest_port example_conn = 62078" "c_state example_conn = Connected" "c_ib_buf example_conn = []"
  "c_source_port example_conn = 1024" "c_tx_seq example_conn = 0" "c_ob_buf example_conn = []"
  by (simp_all add: example_devs_def example_device_def example_conn_def connection_new_def)

lemma cm_inv_example [inv_intros]: "cm_inv mx example_devs"
  by (simp add: cm_inv_def dev_inv_def conn_inv_def example_devs_def example_device_def
      mux_device_new_def example_conn_def connection_new_def)

section \<open>Properties\<close>

text \<open>From the USB bus to the connection, end to end. If a device sends data segments to one
  of its connections, then however the bulk reads cut the byte stream, and in whatever order the
  hash map iterates, the receive buffer of that connection grows by exactly the payloads in
  order, no other connection or device is touched, and one acknowledgement per segment is
  written to the device, in order, each for the last byte of its segment.\<close>

theorem usb_stream_reaches_connection:
  assumes "hash_iter iter" and "cm_inv mx devs" and "devs i = Some d" and "d_connections d k = Some c"
    and "\<forall>g \<in> set gs. segment_for k (c_dest_port c) g \<and> segment_fits lim g" and "7 \<le> lim"
    and "length (c_ib_buf c) + length (concat (map sg_payload gs)) \<le> mx" and "c_dest_port c \<noteq> 0xFACE"
    and "concat chunks = concat (map segment_frame gs)"
    and "usb_inputs iter (\<lambda>_. None) mx i (reassembler_new lim) devs neg m chunks = (r', devs', neg', m', sent)"
  shows "\<exists>d' c'. devs' = devs(i \<mapsto> d') \<and> d_connections d' = (d_connections d)(k \<mapsto> c')
      \<and> c_ib_buf c' = c_ib_buf c @ concat (map sg_payload gs) \<and> c_state c' = c_state c
      \<and> list_all2 (\<lambda>g p. \<exists>a. parse_packet p = Ok (Tcp a []) \<and> th_source_port a = k
            \<and> th_dest_port a = c_dest_port c
            \<and> th_ack a = sg_seq g + word_of_nat (length (sg_payload g))) gs sent"
proof -
  have "fst (feed_all (reassembler_new lim) chunks) = map segment_frame gs"
    using tcp_codec.chunks_recover_frames [OF assms(6) _ assms(9)] assms(5) by simp
  with usb_inputs_packets [OF assms(10), of m]
  have run: "no_metrics (process_packets iter (\<lambda>_. None) mx i devs neg m (map segment_frame gs)) = (devs', neg', sent)"
    by simp
  from process_segments [OF assms(1-5,7,8), of neg m] obtain d' m1 acks
    where p: "process_packets iter (\<lambda>_. None) mx i devs neg m (map segment_frame gs) = (devs(i \<mapsto> d'), neg, m1, acks)"
      and d': "d_connections d' = (d_connections d)(k \<mapsto> fold receive gs c)"
      and acks: "list_all2 (\<lambda>g p. \<exists>a. parse_packet p = Ok (Tcp a []) \<and> th_source_port a = k
            \<and> th_dest_port a = c_dest_port c
            \<and> th_ack a = sg_seq g + word_of_nat (length (sg_payload g))) gs acks"
    by blast
  from run p have "devs' = devs(i \<mapsto> d')" "sent = acks" by (simp_all add: no_metrics_def)
  with d' acks show ?thesis by (intro exI [of _ d'] exI [of _ "fold receive gs c"]) simp
qed

theorem usb_stream_reaches_connection_witness:
  "\<exists>g r' devs' neg' m' sent d' c'.
     usb_inputs (\<lambda>m. sorted_list_of_set (dom m)) (\<lambda>_. None) 64 1 (reassembler_new 64) example_devs True
       (metrics_new 0) [take 9 (segment_frame g), drop 9 (segment_frame g)] = (r', devs', neg', m', sent)
     \<and> devs' 1 = Some d' \<and> d_connections d' 1024 = Some c' \<and> c_ib_buf c' = [1, 2, 3] \<and> length sent = 1"
proof -
  define g where "g = \<lparr>sg_seqs = (1, 2), sg_sport = 62078, sg_dport = 1024, sg_seq = 7, sg_ack = 9,
      sg_flags = TCP_ACK, sg_window = 512, sg_payload = [1, 2, 3]\<rparr>"
  obtain r' devs' neg' m' sent where run:
    "usb_inputs (\<lambda>m. sorted_list_of_set (dom m)) (\<lambda>_. None) 64 1 (reassembler_new 64) example_devs True
       (metrics_new 0) [take 9 (segment_frame g), drop 9 (segment_frame g)] = (r', devs', neg', m', sent)"
    by (metis prod_cases5)
  have "segment_for 1024 62078 g" "segment_fits 64 g"
    by (simp_all add: segment_for_def segment_fits_def g_def data_flags_def TCP_ACK_def TCP_SYN_def TCP_RST_def TCP_FIN_def)
  then obtain d' c' where "devs' = example_devs(1 \<mapsto> d')" "d_connections d' = (d_connections example_device)(1024 \<mapsto> c')"
    "c_ib_buf c' = [1, 2, 3]" "length sent = 1"
    using usb_stream_reaches_connection [OF hash_iter_witness cm_inv_example example_simps(1,2) _ _ _ _ _ run,
        where gs = "[g]"]
    by (auto simp: g_def dest: list_all2_lengthD)
  with run show ?thesis by (intro exI [of _ g]) auto
qed

text \<open>C4: Whatever the tasks of the daemon do and however their critical sections interleave, the
  table stays well formed: every connection is stored under its own source port, taken from the
  allocator's range, and no receive buffer exceeds the configured cap.\<close>

theorem table_invariant_under_interleaving:
  assumes "reachable iter mx devs" and "devs i = Some d" and "d_connections d k = Some c"
  shows "d_device_id d = i \<and> c_source_port c = k \<and> 1024 \<le> unat k \<and> unat k < 65535 \<and> length (c_ib_buf c) \<le> mx"
  using cm_inv_reachable [OF assms(1)] assms(2,3)
  by (auto simp: cm_inv_def dev_inv_def conn_inv_def)

theorem table_invariant_under_interleaving_witness:
  "\<exists>d c. snd (start_connect (cm_add_device cm_new 1) 1 62078 5) 1 = Some d \<and> d_connections d 1024 = Some c
     \<and> c_source_port c = 1024 \<and> length (c_ib_buf c) \<le> 64"
proof -
  let ?iter = "\<lambda>m :: u16 \<rightharpoonup> connection. sorted_list_of_set (dom m)"
  let ?devs = "snd (start_connect (cm_add_device cm_new 1) 1 62078 5)"
  have "(link_step ?iter 64)\<^sup>*\<^sup>* cm_new ?devs"
    using step_add [of ?iter 64 cm_new 1] step_start [of ?iter 64 "cm_add_device cm_new 1" 1 62078 5] by simp
  then have "reachable ?iter 64 ?devs" by (simp add: reachable_def)
  moreover have "?devs 1 = Some ((mux_device_new 1)\<lparr>d_connections := [1024 \<mapsto> connection_new 1024 62078 5]\<rparr>)"
    by (simp add: start_connect_def cm_add_device_def cm_new_def mux_device_new_def find_port.simps)
  ultimately show ?thesis
    using table_invariant_under_interleaving [of ?iter 64 ?devs 1 _ 1024 "connection_new 1024 62078 5"] by simp
qed

text \<open>Client data reaches the device as one contiguous TCP stream: handing any pieces to an
  established connection writes one segment per piece, in order, whose payload is the piece and
  whose sequence number is the connection's own plus the bytes of all earlier pieces, and the
  sent bytes are recorded in order.\<close>

theorem client_data_stream_contiguous:
  assumes "devs i = Some d" and "d_connections d k = Some c" and "c_state c = Connected"
    and "c_dest_port c \<noteq> 0xFACE" and "\<forall>x \<in> set xs. length x < 2 ^ 32 - 36"
  shows "\<exists>d' c' m' sent. send_all_data (\<lambda>_. None) devs i k m xs = (devs(i \<mapsto> d'), m', sent)
      \<and> d_connections d' = (d_connections d)(k \<mapsto> c') \<and> c_ob_buf c' = c_ob_buf c @ concat xs
      \<and> length sent = length xs
      \<and> (\<forall>j < length xs. \<exists>h. parse_packet (sent ! j) = Ok (Tcp h (xs ! j))
            \<and> th_seq h = c_tx_seq c + word_of_nat (length (concat (take j xs)))
            \<and> th_source_port h = k \<and> th_dest_port h = c_dest_port c)"
proof -
  from send_all_data_ok [of devs i d k c xs m] assms obtain d' m' sent
    where *: "send_all_data (\<lambda>_. None) devs i k m xs = (devs(i \<mapsto> d'), m', sent)"
      "d_connections d' = (d_connections d)(k \<mapsto> fold transmit xs c)" "length sent = length xs"
      "\<forall>j < length xs. \<exists>h. parse_packet (sent ! j) = Ok (Tcp h (xs ! j))
            \<and> th_seq h = c_tx_seq c + word_of_nat (length (concat (take j xs)))
            \<and> th_source_port h = k \<and> th_dest_port h = c_dest_port c" by blast
  show ?thesis
    by (intro exI [of _ d'] exI [of _ "fold transmit xs c"] exI [of _ m'] exI [of _ sent] conjI)
       (use * in \<open>simp_all\<close>)
qed

theorem client_data_stream_contiguous_witness:
  "\<exists>devs' m' sent h. send_all_data (\<lambda>_. None) example_devs 1 1024 (metrics_new 0) [[1, 2], [3]] = (devs', m', sent)
     \<and> parse_packet (sent ! 1) = Ok (Tcp h [3]) \<and> th_seq h = 2"
  using client_data_stream_contiguous [of example_devs 1 example_device 1024 example_conn "[[1, 2], [3]]"
      "metrics_new 0"]
  by fastforce

text \<open>C13: A connection request is answered: once a round of the wait is later than five seconds
  there is an answer, whatever the device does. The answer is a port only if the port was
  reserved, exactly one frame was written to the device and a round within five seconds saw the
  connection established;
  every other answer counts one failure, and every request counts one attempt.\<close>

theorem connect_request_answered:
  assumes "handle_connect_request usb interfere obs devs m req = (r, devs', m', sent)"
  shows "((\<exists>(t, d) \<in> set obs. CONNECT_TIMEOUT_MS < t) \<longrightarrow> r \<noteq> None)
    \<and> (case r of
         Some (Ok s) \<Rightarrow> connect_failures m' = connect_failures m \<and> length sent = 1
           \<and> fst (start_connect devs (cr_device_id req) (cr_dport req) (cr_tag req)) = Ok s
           \<and> (\<exists>(t, ds) \<in> set obs. t \<le> CONNECT_TIMEOUT_MS \<and> (\<exists>d c. ds (cr_device_id req) = Some d
                \<and> d_connections d s = Some c \<and> c_state c = Connected))
       | Some (Err e) \<Rightarrow> connect_failures m' = connect_failures m + 1
       | _ \<Rightarrow> connect_failures m' = connect_failures m)
    \<and> connects_total m' = connects_total m + 1"
proof -
  let ?m = "m\<lparr>connects_total := connects_total m + 1\<rparr>" and ?i = "cr_device_id req"
  have wait: "case fst (connect_wait ?i s ?m obs) of
       Some (Err e) \<Rightarrow> snd (connect_wait ?i s ?m obs) = count_connect_failure ?m
     | Some Panic \<Rightarrow> False | _ \<Rightarrow> snd (connect_wait ?i s ?m obs) = ?m" for s
  proof (induction obs)
    case (Cons ob obs)
    then show ?case
      by (cases ob) (auto simp: connect_poll_def split: option.splits res.splits conn_state.splits)
  qed simp
  consider (err) e devs1 where "start_connect devs ?i (cr_dport req) (cr_tag req) = (Err e, devs1)"
    | (ok) s devs1 where "start_connect devs ?i (cr_dport req) (cr_tag req) = (Ok s, devs1)"
  proof (cases "start_connect devs ?i (cr_dport req) (cr_tag req)")
    case (Pair r0 devs1)
    moreover have "r0 \<noteq> Panic" using Pair by (auto simp: start_connect_def split: option.splits)
    ultimately show ?thesis using that by (cases r0) auto
  qed
  then show ?thesis
  proof cases
    case err
    with assms show ?thesis by (auto simp: handle_connect_request_def Let_def)
  next
    case (ok s devs1)
    show ?thesis
    proof (cases "connect_syn (interfere devs1) ?i s")
      case (Pair syn devs2)
      show ?thesis
      proof (cases "\<exists>pkt. syn = Ok pkt \<and> usb pkt = None")
        case True
        then obtain pkt where "syn = Ok pkt" "usb pkt = None" by blast
        with assms ok Pair have rm: "connect_wait ?i s ?m obs = (r, m')" "sent = [pkt]"
          by (auto simp: handle_connect_request_def Let_def split: prod.splits)
        from wait [of s] rm connect_wait_answers [of obs ?i s ?m] connect_wait_OkD [of ?i s ?m obs _ m'] ok
        show ?thesis by (fastforce split: option.splits res.splits)
      next
        case False
        have "syn \<noteq> Panic" using Pair by (auto simp: connect_syn_def split: option.splits)
        with False assms ok Pair show ?thesis
          by (cases syn) (auto simp: handle_connect_request_def Let_def split: option.splits)
      qed
    qed
  qed
qed

theorem connect_request_answered_witness:
  "\<exists>r devs' m' sent. handle_connect_request (\<lambda>_. None) id [(0, example_devs), (5001, example_devs)]
      (cm_add_device cm_new 1) (metrics_new 0) \<lparr>cr_device_id = 1, cr_dport = 62078, cr_tag = 5\<rparr>
    = (r, devs', m', sent) \<and> r \<noteq> None \<and> connects_total m' = 1"
proof -
  obtain r devs' m' sent where "handle_connect_request (\<lambda>_. None) id [(0, example_devs), (5001, example_devs)]
      (cm_add_device cm_new 1) (metrics_new 0) \<lparr>cr_device_id = 1, cr_dport = 62078, cr_tag = 5\<rparr>
    = (r, devs', m', sent)" by (metis prod_cases4)
  with connect_request_answered [OF this] show ?thesis
    by (auto simp: CONNECT_TIMEOUT_MS_def metrics_new_def)
qed

text \<open>C39: A close from the device discards acknowledged data. A data segment arrives on a
  connection; it is buffered and the one packet queued acknowledges its last byte.
  Then the device closes: a segment with FIN, with or without other flags and data (but no reset
  and no SYN with ACK). If the client's proxy has not drained the buffer in between, its next
  look ends it with an error, although every acknowledged byte is still in the buffer; data that
  came with the FIN is not even buffered.\<close>

theorem fin_discards_buffered_data:
  assumes "hash_iter iter" and "cm_inv mx devs" and "devs i = Some d"
    and "d_connections d (th_dest_port h) = Some c" and "c_dest_port c = th_source_port h"
    and "data_flags (th_flags h)" and "payload \<noteq> []" and "length (c_ib_buf c) + length payload \<le> mx"
    and "c_dest_port c \<noteq> 0xFACE"
    and "th_dest_port f = th_dest_port h" and "th_source_port f = th_source_port h"
    and "th_flags f AND TCP_FIN \<noteq> 0" and "th_flags f AND TCP_RST = 0"
    and "th_flags f AND TCP_SYN = 0 \<or> th_flags f AND TCP_ACK = 0"
  shows "\<exists>devs1 devs2 ack a.
      handle_tcp_packet iter devs i h payload m mx = (devs1, m, [EvDataReady i (th_dest_port h)], [ack])
    \<and> parse_packet ack = Ok (Tcp a []) \<and> th_ack a = th_seq h + word_of_nat (length payload)
    \<and> handle_tcp_packet iter devs1 i f last_data m mx = (devs2, m, [EvDisconnected i (th_dest_port h)], [])
    \<and> drain_section devs2 i (th_dest_port h) = (Inl (Err (lit ''connection not connected'')), devs2)
    \<and> (\<exists>d' c'. devs2 i = Some d' \<and> d_connections d' (th_dest_port h) = Some c' \<and> c_ib_buf c' = c_ib_buf c @ payload)"
proof -
  let ?c = "c\<lparr>c_tx_ack := th_seq h + word_of_nat (length payload), c_ib_buf := c_ib_buf c @ payload,
      c_data_notify := notify_waiters (c_data_notify c)\<rparr>"
  let ?devs1 = "put_conn devs i (bump_tx d) (th_dest_port h) ?c"
  let ?d1 = "(bump_tx d)\<lparr>d_connections := (d_connections (bump_tx d))(th_dest_port h \<mapsto> ?c)\<rparr>"
  obtain ack a where data: "handle_tcp_packet iter devs i h payload m mx = (?devs1, m, [EvDataReady i (th_dest_port h)], [ack])"
    "parse_packet ack = Ok (Tcp a [])" "th_ack a = th_seq h + word_of_nat (length payload)"
    using data_segment_delivered [OF assms(1-9), of m] by blast
  have inv: "cm_inv mx ?devs1"
    using cm_inv_link_step [OF step_tcp [of iter mx devs i h payload m] assms(2)] data(1) by simp
  have src: "c_source_port c = th_dest_port h"
    using dev_invD [OF cm_invD [OF assms(2,3)] assms(4)] by (simp add: conn_inv_def)
  have d1: "?devs1 i = Some ?d1" "d_connections ?d1 (th_dest_port f) = Some ?c" "c_dest_port ?c = th_source_port f"
    using assms(5,10,11) by (simp_all add: put_conn_def)
  have "handle_conn ?devs1 i ?d1 (th_dest_port f) ?c f last_data m mx
      = (put_conn ?devs1 i ?d1 (th_dest_port h) (?c\<lparr>c_state := CloseWait\<rparr>), m, [EvDisconnected i (th_dest_port h)], [])"
    using assms(10,12-14) src by (auto simp: handle_conn_def Let_def)
  with handle_tcp_packet_exact [OF assms(1) inv d1]
  have fin: "handle_tcp_packet iter ?devs1 i f last_data m mx
      = (put_conn ?devs1 i ?d1 (th_dest_port h) (?c\<lparr>c_state := CloseWait\<rparr>), m, [EvDisconnected i (th_dest_port h)], [])" by simp
  have "drain_section (put_conn ?devs1 i ?d1 (th_dest_port h) (?c\<lparr>c_state := CloseWait\<rparr>)) i (th_dest_port h)
      = (Inl (Err (lit ''connection not connected'')), put_conn ?devs1 i ?d1 (th_dest_port h) (?c\<lparr>c_state := CloseWait\<rparr>))"
    by (simp add: drain_section_def put_conn_def)
  moreover have "\<exists>d' c'. put_conn ?devs1 i ?d1 (th_dest_port h) (?c\<lparr>c_state := CloseWait\<rparr>) i = Some d'
      \<and> d_connections d' (th_dest_port h) = Some c' \<and> c_ib_buf c' = c_ib_buf c @ payload"
    by (simp add: put_conn_def)
  ultimately show ?thesis using data fin by blast
qed

theorem fin_discards_buffered_data_witness:
  "let h = \<lparr>th_source_port = 62078, th_dest_port = 1024, th_seq = 10, th_ack = 0, th_offset_flags = TCP_ACK, th_window = 0\<rparr>
   in \<exists>devs1 devs2 ack a.
      handle_tcp_packet (\<lambda>m. sorted_list_of_set (dom m)) example_devs 1 h [7, 8] (metrics_new 0) 64
        = (devs1, metrics_new 0, [EvDataReady 1 1024], [ack])
    \<and> parse_packet ack = Ok (Tcp a []) \<and> th_ack a = 12
    \<and> handle_tcp_packet (\<lambda>m. sorted_list_of_set (dom m)) devs1 1 (h\<lparr>th_offset_flags := TCP_FIN OR TCP_ACK\<rparr>) [9] (metrics_new 0) 64
        = (devs2, metrics_new 0, [EvDisconnected 1 1024], [])
    \<and> drain_section devs2 1 1024 = (Inl (Err (lit ''connection not connected'')), devs2)"
proof -
  let ?h = "\<lparr>th_source_port = 62078, th_dest_port = 1024, th_seq = 10, th_ack = 0, th_offset_flags = TCP_ACK, th_window = 0\<rparr>"
  let ?f = "?h\<lparr>th_offset_flags := TCP_FIN OR TCP_ACK\<rparr>"
  have flags: "data_flags (th_flags ?h)" "th_flags ?f AND TCP_FIN \<noteq> 0" "th_flags ?f AND TCP_RST = 0"
    "th_flags ?f AND TCP_SYN = 0 \<or> th_flags ?f AND TCP_ACK = 0"
    by (simp_all add: data_flags_def TCP_FIN_def TCP_ACK_def TCP_SYN_def TCP_RST_def)
  have "\<exists>devs1 devs2 ack a.
      handle_tcp_packet (\<lambda>m. sorted_list_of_set (dom m)) example_devs 1 ?h [7, 8] (metrics_new 0) 64
        = (devs1, metrics_new 0, [EvDataReady 1 (th_dest_port ?h)], [ack])
    \<and> parse_packet ack = Ok (Tcp a []) \<and> th_ack a = th_seq ?h + word_of_nat (length [7 :: u8, 8])
    \<and> handle_tcp_packet (\<lambda>m. sorted_list_of_set (dom m)) devs1 1 ?f [9] (metrics_new 0) 64
        = (devs2, metrics_new 0, [EvDisconnected 1 (th_dest_port ?h)], [])
    \<and> drain_section devs2 1 (th_dest_port ?h) = (Inl (Err (lit ''connection not connected'')), devs2)
    \<and> (\<exists>d' c'. devs2 1 = Some d' \<and> d_connections d' (th_dest_port ?h) = Some c' \<and> c_ib_buf c' = c_ib_buf example_conn @ [7, 8])"
    by (rule fin_discards_buffered_data [OF hash_iter_witness cm_inv_example example_simps(1) _ _ flags(1) _ _ _ _ _ flags(2-4)]) simp_all
  then show ?thesis unfolding Let_def by fastforce
qed

text \<open>Sequence numbers of mux frames can repeat. While the processing task has built a data
  frame but not yet counted it, a connection request for the same version-2 device builds its
  SYN with the same sequence number; both are written, and the counter then skips a number.\<close>

theorem concurrent_connect_repeats_tx_seq:
  assumes "devs i = Some d" and "2 \<le> d_version d" and "d_connections d k = Some c" and "c_state c = Connected"
    and "start_connect devs i dport tag = (Ok s, devs1)"
  shows "\<exists>pkt syn devs2 h1 h2 d'. client_data_packet devs i k data = Some pkt
    \<and> connect_syn devs1 i s = (Ok syn, devs2)
    \<and> parse_mux_header pkt = Ok h1 \<and> parse_mux_header syn = Ok h2 \<and> mh_tx_seq h1 = mh_tx_seq h2
    \<and> client_data_commit devs2 i k data i = Some d' \<and> d_tx_seq d' = mh_tx_seq h1 + 2"
proof -
  have k: "k \<noteq> s" using assms(1,3,5) by (auto simp: start_connect_def dest: find_port_Some split: option.splits)
  have devs1: "devs1 = devs(i \<mapsto> d\<lparr>d_connections := (d_connections d)(s \<mapsto> connection_new s dport tag)\<rparr>)"
    using assms(1,5) by (auto simp: start_connect_def split: option.splits)
  have v2: "v2_seqs d = Some (d_tx_seq d, d_rx_seq d)"
    "v2_seqs (d\<lparr>d_connections := x\<rparr>) = Some (d_tx_seq d, d_rx_seq d)" for x
    using assms(2) by (simp_all add: v2_seqs_def)
  show ?thesis
    using assms(1-4) k
    by (auto simp: client_data_packet_def connect_syn_def devs1 v2 build_tcp_packet_def
        parse_mux_header_frame_v2 client_data_commit_def)
qed

theorem concurrent_connect_repeats_tx_seq_witness:
  "\<exists>pkt syn h1 h2. client_data_packet [1 \<mapsto> example_device\<lparr>d_version := 2\<rparr>] 1 1024 [7] = Some pkt
    \<and> fst (connect_syn (snd (start_connect [1 \<mapsto> example_device\<lparr>d_version := 2\<rparr>] 1 62078 6)) 1 1025) = Ok syn
    \<and> parse_mux_header pkt = Ok h1 \<and> parse_mux_header syn = Ok h2 \<and> mh_tx_seq h1 = mh_tx_seq h2"
proof -
  let ?d = "example_device\<lparr>d_version := 2\<rparr>"
  have "start_connect [1 \<mapsto> ?d] 1 62078 6 = (Ok 1025, snd (start_connect [1 \<mapsto> ?d] 1 62078 6))"
    by (simp add: start_connect_def find_port.simps example_device_def)
  from concurrent_connect_repeats_tx_seq [OF _ _ _ _ this, of ?d 1024 example_conn "[7]"]
  show ?thesis by fastforce
qed

text \<open>A failed connection request keeps its port. When writing the SYN fails, the request is
  answered with an error, but the connection it registered stays in the table under its port, in
  state SynSent.\<close>

theorem failed_syn_leaks_port:
  assumes "start_connect devs i dport tag = (Ok s, devs1)" and "\<forall>pkt. usb pkt \<noteq> None"
  shows "\<exists>e d m' devs'. handle_connect_request usb id obs devs m
       \<lparr>cr_device_id = i, cr_dport = dport, cr_tag = tag\<rparr> = (Some (Err e), devs', m', [])
     \<and> devs' i = Some d \<and> d_connections d s = Some (connection_new s dport tag)"
proof -
  obtain d where d: "devs1 i = Some d" "d_connections d s = Some (connection_new s dport tag)"
    using start_connect_OkD [OF assms(1)] by blast
  then obtain pkt devs2 where syn: "connect_syn devs1 i s = (Ok pkt, devs2)"
    and "\<exists>d. devs2 i = Some d \<and> d_connections d s = Some (connection_new s dport tag)"
    by (cases "2 \<le> d_version d") (auto simp: connect_syn_def)
  moreover obtain e where "usb pkt = Some e" using assms(2) by blast
  ultimately show ?thesis using assms(1) by (auto simp: handle_connect_request_def)
qed

theorem failed_syn_leaks_port_witness:
  "\<exists>e d m' devs'. handle_connect_request (\<lambda>_. Some (lit ''pipe'')) id [] (cm_add_device cm_new 1) (metrics_new 0)
       \<lparr>cr_device_id = 1, cr_dport = 62078, cr_tag = 5\<rparr> = (Some (Err e), devs', m', [])
     \<and> devs' 1 = Some d \<and> d_connections d 1024 = Some (connection_new 1024 62078 5)"
proof -
  have "start_connect (cm_add_device cm_new 1) 1 62078 5 = (Ok 1024, snd (start_connect (cm_add_device cm_new 1) 1 62078 5))"
    by (simp add: start_connect_def cm_add_device_def cm_new_def mux_device_new_def find_port.simps)
  from failed_syn_leaks_port [OF this, of "\<lambda>_. Some (lit ''pipe'')"] show ?thesis by blast
qed

end
