(* ===== verification/Device_Scanner.thy ===== *)
theory Device_Scanner
  imports Relay_Prelude
begin

text \<open>
  \<open>daemon/device_scanner.rs\<close>: the set of attached devices and how one enumeration of the
  USB bus updates it. The enumeration itself belongs to \<open>rusb\<close>: its outcome is an argument, a
  list of bus entries or a failure. Identifiers come from a 32-bit counter that wraps; the
  theorems that need fresh identifiers say how many are left.

  Shown: the table invariant; that a scan refines a per-port state machine (\<open>port_step\<close>) with
  the documented flap suppression; and, through the locale \<open>change_feed\<close>, that a
  client which replays the reported changes holds exactly the scanner's devices.
\<close>

section \<open>Data\<close>

definition APPLE_VENDOR_ID :: u16 where
  "APPLE_VENDOR_ID = 0x05AC"

definition DETACH_AFTER_MISSES :: u32 where
  "DETACH_AFTER_MISSES = 2"

record usb_device =
  u_device_id :: u32
  u_udid :: rstr
  u_product_id :: u16
  u_usb_bus :: u8
  u_usb_address :: u8

datatype device_change = Attached usb_device | Detached u32

record scan_observation =
  o_usb_bus :: u8
  o_usb_address :: u8
  o_product_id :: u16
  o_udid :: "rstr option"

type_synonym port = "u8 \<times> u8"
type_synonym usb_devices = "u32 \<rightharpoonup> usb_device"
type_synonym usb_iter = "usb_devices \<Rightarrow> u32 list"

record device_scanner =
  sc_devices :: usb_devices
  sc_miss_counts :: "port \<rightharpoonup> u32"
  sc_next_id :: u32

abbreviation dev_port :: "usb_device \<Rightarrow> port" where
  "dev_port d \<equiv> (u_usb_bus d, u_usb_address d)"

abbreviation obs_port :: "scan_observation \<Rightarrow> port" where
  "obs_port ob \<equiv> (o_usb_bus ob, o_usb_address ob)"

definition scanner_new :: device_scanner where
  "scanner_new = \<lparr>sc_devices = Map.empty, sc_miss_counts = Map.empty, sc_next_id = 1\<rparr>"

section \<open>Operations\<close>

text \<open>\<open>devices.values()\<close>, in the map's own order.\<close>

definition device_values :: "usb_iter \<Rightarrow> usb_devices \<Rightarrow> usb_device list" where
  "device_values iter devs = map (\<lambda>i. the (devs i)) (iter devs)"

text \<open>\<open>devices.values().find(|d| d.usb_bus == obs.usb_bus && d.usb_address == obs.usb_address)\<close>\<close>

definition find_at :: "usb_iter \<Rightarrow> usb_devices \<Rightarrow> port \<Rightarrow> usb_device option" where
  "find_at iter devs p = find (\<lambda>d. dev_port d = p) (device_values iter devs)"

definition usb_device_of :: "u32 \<Rightarrow> rstr \<Rightarrow> scan_observation \<Rightarrow> usb_device" where
  "usb_device_of i u ob = \<lparr>u_device_id = i, u_udid = u, u_product_id = o_product_id ob,
     u_usb_bus = o_usb_bus ob, u_usb_address = o_usb_address ob\<rparr>"

text \<open>One round of the attach loop.\<close>

definition observe :: "usb_iter \<Rightarrow> device_scanner \<Rightarrow> scan_observation \<Rightarrow> device_scanner \<times> device_change list" where
  "observe iter sc0 ob =
     (let sc = sc0\<lparr>sc_miss_counts := (sc_miss_counts sc0)(obs_port ob := None)\<rparr>;
          i = sc_next_id sc in
      case (find_at iter (sc_devices sc) (obs_port ob), o_udid ob) of
        (Some existing, Some u) \<Rightarrow>
          if u_udid existing \<noteq> u then
            let old_id = u_device_id existing; dev = usb_device_of i u ob in
            (sc\<lparr>sc_devices := ((sc_devices sc)(old_id := None))(i \<mapsto> dev), sc_next_id := i + 1\<rparr>,
             [Detached old_id, Attached dev])
          else (sc, [])
      | (None, Some u) \<Rightarrow>
          let dev = usb_device_of i u ob in
          (sc\<lparr>sc_devices := (sc_devices sc)(i \<mapsto> dev), sc_next_id := i + 1\<rparr>, [Attached dev])
      | (None, None) \<Rightarrow> (sc, [])
      | (Some existing, None) \<Rightarrow> (sc, []))"

fun attach_loop ::
  "usb_iter \<Rightarrow> device_scanner \<Rightarrow> scan_observation list \<Rightarrow> device_scanner \<times> device_change list" where
  "attach_loop iter sc [] = (sc, [])"
| "attach_loop iter sc (ob # obs) =
     (let (sc1, ch1) = observe iter sc ob; (sc2, ch2) = attach_loop iter sc1 obs in (sc2, ch1 @ ch2))"

text \<open>One round of the detach loop, for a known port and the device there.\<close>

definition miss :: "port list \<Rightarrow> device_scanner \<Rightarrow> port \<times> u32 \<Rightarrow> device_scanner \<times> device_change list" where
  "miss current_ports sc = (\<lambda>(p, i).
     if p \<in> set current_ports then (sc, [])
     else
       let misses = (case sc_miss_counts sc p of None \<Rightarrow> 0 | Some n \<Rightarrow> n) + 1 in
       if DETACH_AFTER_MISSES \<le> misses then
         (sc\<lparr>sc_devices := (sc_devices sc)(i := None),
             sc_miss_counts := (sc_miss_counts sc)(p := None)\<rparr>, [Detached i])
       else (sc\<lparr>sc_miss_counts := (sc_miss_counts sc)(p \<mapsto> misses)\<rparr>, []))"

fun detach_loop ::
  "port list \<Rightarrow> device_scanner \<Rightarrow> (port \<times> u32) list \<Rightarrow> device_scanner \<times> device_change list" where
  "detach_loop cur sc [] = (sc, [])"
| "detach_loop cur sc (k # ks) =
     (let (sc1, ch1) = miss cur sc k; (sc2, ch2) = detach_loop cur sc1 ks in (sc2, ch1 @ ch2))"

definition diff_devices ::
  "usb_iter \<Rightarrow> device_scanner \<Rightarrow> scan_observation list \<Rightarrow> device_scanner \<times> device_change list" where
  "diff_devices iter sc current =
     (let current_ports = map obs_port current;
          (sc1, ch1) = attach_loop iter sc current;
          known_ports = map (\<lambda>d. (dev_port d, u_device_id d)) (device_values iter (sc_devices sc1));
          (sc2, ch2) = detach_loop current_ports sc1 known_ports
      in (sc2, ch1 @ ch2))"

text \<open>
  An entry of the bus as \<open>rusb\<close> reports it: the vendor and product of its descriptor when that
  can be read, and the serial string when the device can be opened and the string read.
\<close>

record bus_entry =
  be_bus :: u8
  be_address :: u8
  be_descriptor :: "(u16 \<times> u16) option"
  be_serial :: "rstr option"

definition trim_nul :: "rstr \<Rightarrow> rstr" where
  "trim_nul s = trim_end_nul (dropWhile (\<lambda>c. c = 0) s)"

definition entry_udid :: "bus_entry \<Rightarrow> rstr option" where
  "entry_udid e =
     (case be_serial e of
        Some s \<Rightarrow> if trim (trim_nul s) \<noteq> [] then Some (trim_end_nul (trim s)) else None
      | None \<Rightarrow> None)"

fun observe_entries :: "bus_entry list \<Rightarrow> scan_observation list" where
  "observe_entries [] = []"
| "observe_entries (e # es) =
     (case be_descriptor e of
        None \<Rightarrow> observe_entries es
      | Some (vendor, product) \<Rightarrow>
          if vendor \<noteq> APPLE_VENDOR_ID then observe_entries es
          else \<lparr>o_usb_bus = be_bus e, o_usb_address = be_address e, o_product_id = product,
                o_udid = entry_udid e\<rparr> # observe_entries es)"

text \<open>The argument: no context, a context whose device list fails, or the entries.\<close>

definition enumerate_apple_devices :: "(rstr, bus_entry list) res option \<Rightarrow> (rstr, scan_observation list) res" where
  "enumerate_apple_devices context =
     (case context of
        None \<Rightarrow> Err (lit ''no USB context available'')
      | Some (Ok entries) \<Rightarrow> Ok (observe_entries entries)
      | Some (Err e) \<Rightarrow> Err (lit ''failed to enumerate USB devices: '' @ e)
      | Some Panic \<Rightarrow> Panic)"

text \<open>\<open>get_context\<close>: the context is made on first use and kept; \<open>fresh\<close> is what making one gives.\<close>

definition get_context :: "'c option \<Rightarrow> 'c option \<Rightarrow> 'c option" where
  "get_context held fresh = (case held of Some c \<Rightarrow> Some c | None \<Rightarrow> fresh)"

definition scan ::
  "usb_iter \<Rightarrow> device_scanner \<Rightarrow> (rstr, bus_entry list) res option \<Rightarrow> device_scanner \<times> device_change list" where
  "scan iter sc context =
     (case enumerate_apple_devices context of
        Ok current \<Rightarrow> diff_devices iter sc current
      | _ \<Rightarrow> (sc, []))"

definition get_devices :: "usb_iter \<Rightarrow> device_scanner \<Rightarrow> usb_device list" where
  "get_devices iter sc = device_values iter (sc_devices sc)"

definition get_device_by_id :: "device_scanner \<Rightarrow> u32 \<Rightarrow> usb_device option" where
  "get_device_by_id sc i = sc_devices sc i"

definition product_id_to_model :: "u16 \<Rightarrow> rstr" where
  "product_id_to_model pid =
     (if 0x12A8 \<le> pid \<and> pid \<le> 0x12AF then lit ''iPhone 5s / SE (1st gen)''
      else if 0x12B0 \<le> pid \<and> pid \<le> 0x12B7 then lit ''iPhone 6 / 6 Plus''
      else if 0x12B8 \<le> pid \<and> pid \<le> 0x12BF then lit ''iPhone 6s / 6s Plus / SE (2nd gen)''
      else if 0x12C0 \<le> pid \<and> pid \<le> 0x12C7 then lit ''iPhone 7 / 7 Plus''
      else if 0x12C8 \<le> pid \<and> pid \<le> 0x12CF then lit ''iPhone 8 / 8 Plus / X''
      else if 0x12D0 \<le> pid \<and> pid \<le> 0x12D7 then lit ''iPhone XR / XS / XS Max''
      else if 0x12D8 \<le> pid \<and> pid \<le> 0x12DF then lit ''iPhone 11 / 11 Pro / 11 Pro Max''
      else if 0x12E0 \<le> pid \<and> pid \<le> 0x12E7
        then lit ''iPhone SE (2nd/3rd gen) / 12 mini / 12 / 12 Pro / 12 Pro Max''
      else if 0x12E8 \<le> pid \<and> pid \<le> 0x12EF then lit ''iPhone 13 / 13 mini / 13 Pro / 13 Pro Max''
      else if 0x12F0 \<le> pid \<and> pid \<le> 0x12F7 then lit ''iPhone 14 / 14 Plus / 14 Pro / 14 Pro Max''
      else if 0x12F8 \<le> pid \<and> pid \<le> 0x12FF then lit ''iPhone 15 / 15 Plus / 15 Pro / 15 Pro Max''
      else if 0x1300 \<le> pid \<and> pid \<le> 0x1307 then lit ''iPhone 16 / 16 Plus / 16 Pro / 16 Pro Max''
      else if 0x1310 \<le> pid \<and> pid \<le> 0x1317 then lit ''iPad (various models)''
      else if 0x1318 \<le> pid \<and> pid \<le> 0x131F then lit ''iPad Pro (various models)''
      else if 0x1400 \<le> pid \<and> pid \<le> 0x1407 then lit ''iPod Touch (7th gen)''
      else lit ''Unknown Apple Device'')"

section \<open>Invariant and per-port specification\<close>

text \<open>
  Devices are stored under their own identifier, below the counter, one per port; a port has a
  miss counter only while a device is known there, and it is below the detach threshold.
\<close>

definition ids_below :: "u32 \<Rightarrow> usb_devices \<Rightarrow> bool" where
  "ids_below nxt devs \<longleftrightarrow> (\<forall>i d. devs i = Some d \<longrightarrow> u_device_id d = i \<and> i < nxt)"

definition ports_unique :: "usb_devices \<Rightarrow> bool" where
  "ports_unique devs \<longleftrightarrow>
     (\<forall>i j d e. devs i = Some d \<longrightarrow> devs j = Some e \<longrightarrow> dev_port d = dev_port e \<longrightarrow> i = j)"

definition sc_inv :: "device_scanner \<Rightarrow> bool" where
  "sc_inv sc \<longleftrightarrow> ids_below (sc_next_id sc) (sc_devices sc) \<and> ports_unique (sc_devices sc)
     \<and> (\<forall>p n. sc_miss_counts sc p = Some n \<longrightarrow>
          n = 1 \<and> (\<exists>i d. sc_devices sc i = Some d \<and> dev_port d = p))"

text \<open>What is known of one port: nothing, or a device with its identity and its consecutive misses.\<close>

datatype port_status = Absent | Present u32 rstr nat

text \<open>
  One successful scan, seen from one port. The observation is \<open>None\<close> when nothing was seen
  there, \<open>Some None\<close> for a device whose serial could not be read.
\<close>

fun port_step :: "u32 \<Rightarrow> port_status \<Rightarrow> rstr option option \<Rightarrow> port_status" where
  "port_step fresh Absent None = Absent"
| "port_step fresh Absent (Some None) = Absent"
| "port_step fresh Absent (Some (Some u)) = Present fresh u 0"
| "port_step fresh (Present i u n) None = (if n + 1 < 2 then Present i u (n + 1) else Absent)"
| "port_step fresh (Present i u n) (Some None) = Present i u 0"
| "port_step fresh (Present i u n) (Some (Some v)) =
     (if u = v then Present i u 0 else Present fresh v 0)"

definition port_status :: "usb_iter \<Rightarrow> device_scanner \<Rightarrow> port \<Rightarrow> port_status" where
  "port_status iter sc p =
     (case find_at iter (sc_devices sc) p of
        None \<Rightarrow> Absent
      | Some d \<Rightarrow> Present (u_device_id d) (u_udid d)
          (case sc_miss_counts sc p of None \<Rightarrow> 0 | Some n \<Rightarrow> unat n))"

definition seen_at :: "scan_observation list \<Rightarrow> port \<Rightarrow> rstr option option" where
  "seen_at current p = map_option o_udid (find (\<lambda>ob. obs_port ob = p) current)"

section \<open>Lookup\<close>

lemma finite_dom_id [simp]: "finite (dom (m :: 'a :: finite \<rightharpoonup> 'b))"
  by (rule finite_subset [OF subset_UNIV finite])

lemma set_device_values:
  assumes "hash_iter iter"
  shows "set (device_values iter devs) = ran devs"
  using hash_iterD(2) [OF assms, of devs] by (force simp: device_values_def ran_def image_iff dom_def)

lemma find_at_Some_iff:
  assumes "hash_iter iter" and "ids_below nxt devs" and "ports_unique devs"
  shows "find_at iter devs p = Some d \<longleftrightarrow> devs (u_device_id d) = Some d \<and> dev_port d = p"
proof
  assume "find_at iter devs p = Some d"
  then have "d \<in> ran devs" and "dev_port d = p"
    using find_SomeD [of _ "device_values iter devs" d] set_device_values [OF assms(1)]
    by (auto simp: find_at_def)
  with assms(2) show "devs (u_device_id d) = Some d \<and> dev_port d = p"
    by (auto simp: ran_def ids_below_def)
next
  assume d: "devs (u_device_id d) = Some d \<and> dev_port d = p"
  show "find_at iter devs p = Some d"
    unfolding find_at_def
  proof (rule find_unique)
    show "d \<in> set (device_values iter devs)"
      using d set_device_values [OF assms(1)] by (auto intro: ranI)
    fix e assume "e \<in> set (device_values iter devs)" and "dev_port e = p"
    then obtain j where j: "devs j = Some e" using set_device_values [OF assms(1)] by (auto simp: ran_def)
    then have "j = u_device_id d" using d \<open>dev_port e = p\<close> assms(3) unfolding ports_unique_def by metis
    with d j show "e = d" by simp
  qed (use d in simp)
qed

lemma find_at_None_iff:
  assumes "hash_iter iter"
  shows "find_at iter devs p = None \<longleftrightarrow> (\<forall>i d. devs i = Some d \<longrightarrow> dev_port d \<noteq> p)"
  using set_device_values [OF assms, of devs]
  by (auto simp: find_at_def find_None_iff ran_def)

section \<open>The attach loop\<close>

lemma sc_invD:
  assumes "sc_inv sc"
  shows "ids_below (sc_next_id sc) (sc_devices sc)" and "ports_unique (sc_devices sc)"
    and "sc_miss_counts sc p = Some n \<Longrightarrow> n = 1"
    and "sc_miss_counts sc p = Some n \<Longrightarrow> \<exists>i d. sc_devices sc i = Some d \<and> dev_port d = p"
  using assms unfolding sc_inv_def by blast+

lemma find_at_inv:
  assumes "hash_iter iter" and "sc_inv sc"
  shows "find_at iter (sc_devices sc) p = Some d \<longleftrightarrow> sc_devices sc (u_device_id d) = Some d \<and> dev_port d = p"
  using find_at_Some_iff [OF assms(1) sc_invD(1,2) [OF assms(2)]] .

lemma sc_inv_new [inv_intros]: "sc_inv scanner_new"
  by (simp add: scanner_new_def sc_inv_def ids_below_def ports_unique_def)

lemma next_id_Suc: "unat (n :: u32) + 1 < 2 ^ 32 \<Longrightarrow> n < n + 1 \<and> unat (n + 1) = unat n + 1"
  by (simp add: word_less_nat_alt unat_word_ariths)

text \<open>Storing a new device at a port where no other device is left.\<close>

lemma ids_below_insert:
  "ids_below n devs \<Longrightarrow> u_device_id d = n \<Longrightarrow> unat n + 1 < 2 ^ 32 \<Longrightarrow> ids_below (n + 1) (devs(n \<mapsto> d))"
  using next_id_Suc [of n] by (auto simp: ids_below_def) (meson order.strict_trans)

lemma ports_unique_insert:
  "ports_unique devs \<Longrightarrow> (\<And>j e. devs j = Some e \<Longrightarrow> dev_port e \<noteq> dev_port d) \<Longrightarrow> ports_unique (devs(n \<mapsto> d))"
  unfolding ports_unique_def by (auto split: if_splits) (metis fst_conv snd_conv)+

lemma ids_below_remove: "ids_below n devs \<Longrightarrow> ids_below n (devs(i := None))"
  by (auto simp: ids_below_def)

lemma ports_unique_remove: "ports_unique devs \<Longrightarrow> ports_unique (devs(i := None))"
  unfolding ports_unique_def by (auto split: if_splits)

lemma ids_below_fresh: "ids_below n devs \<Longrightarrow> devs n = None"
  by (cases "devs n") (auto simp: ids_below_def)

lemma observe_cases:
  assumes iter: "hash_iter iter" and inv: "sc_inv sc"
  obtains
    (keep) "observe iter sc ob = (sc\<lparr>sc_miss_counts := (sc_miss_counts sc)(obs_port ob := None)\<rparr>, [])"
      "o_udid ob = None \<or> (\<exists>d. find_at iter (sc_devices sc) (obs_port ob) = Some d \<and> o_udid ob = Some (u_udid d))"
  | (attach) u devs' ch where "o_udid ob = Some u"
      "observe iter sc ob = (\<lparr>sc_devices = devs'(sc_next_id sc \<mapsto> usb_device_of (sc_next_id sc) u ob),
          sc_miss_counts = (sc_miss_counts sc)(obs_port ob := None), sc_next_id = sc_next_id sc + 1\<rparr>,
          ch @ [Attached (usb_device_of (sc_next_id sc) u ob)])"
      "(find_at iter (sc_devices sc) (obs_port ob) = None \<and> devs' = sc_devices sc \<and> ch = [])
       \<or> (\<exists>d. find_at iter (sc_devices sc) (obs_port ob) = Some d \<and> u_udid d \<noteq> u
            \<and> devs' = (sc_devices sc)(u_device_id d := None) \<and> ch = [Detached (u_device_id d)])"
proof (cases "o_udid ob")
  case None
  then show thesis
    by (intro keep) (simp_all add: observe_def Let_def split: option.splits)
next
  case (Some u)
  show thesis
  proof (cases "find_at iter (sc_devices sc) (obs_port ob)")
    case None
    with Some show thesis
      by (intro attach [of u "sc_devices sc" "[]"]) (simp_all add: observe_def Let_def)
  next
    case (Some d)
    show thesis
    proof (cases "u_udid d = u")
      case True
      with Some \<open>o_udid ob = Some u\<close> show thesis
        by (intro keep) (auto simp: observe_def Let_def)
    next
      case False
      with Some \<open>o_udid ob = Some u\<close> show thesis
        by (intro attach [of u "(sc_devices sc)(u_device_id d := None)" "[Detached (u_device_id d)]"])
           (simp_all add: observe_def Let_def)
    qed
  qed
qed

lemma option_eqI: "(\<And>d. a = Some d \<longleftrightarrow> b = Some d) \<Longrightarrow> a = b"
  by (cases a; cases b) auto

lemma usb_device_of_simps [simp]:
  "u_device_id (usb_device_of i u ob) = i" "u_udid (usb_device_of i u ob) = u"
  "u_usb_bus (usb_device_of i u ob) = o_usb_bus ob"
  "u_usb_address (usb_device_of i u ob) = o_usb_address ob"
  by (simp_all add: usb_device_of_def)

lemma find_at_keep:
  assumes "hash_iter iter" and "sc_inv sc" and "sc_inv sc'"
    and "\<And>d. dev_port d = p \<Longrightarrow>
       sc_devices sc' (u_device_id d) = Some d \<longleftrightarrow> sc_devices sc (u_device_id d) = Some d"
  shows "find_at iter (sc_devices sc') p = find_at iter (sc_devices sc) p"
proof (rule option_eqI)
  fix d
  show "find_at iter (sc_devices sc') p = Some d \<longleftrightarrow> find_at iter (sc_devices sc) p = Some d"
    unfolding find_at_inv [OF assms(1,2)] find_at_inv [OF assms(1,3)] using assms(4) by blast
qed

lemma port_status_cong:
  assumes "find_at iter (sc_devices sc') p = find_at iter (sc_devices sc) p"
    and "sc_miss_counts sc' p = sc_miss_counts sc p"
  shows "port_status iter sc' p = port_status iter sc p"
  unfolding port_status_def assms ..

lemma sc_inv_forget_misses:
  "sc_inv sc \<Longrightarrow> sc_inv (sc\<lparr>sc_miss_counts := (sc_miss_counts sc)(p := None)\<rparr>)"
  by (auto simp: sc_inv_def)

text \<open>The device that leaves a port, if any, leaves it free.\<close>

lemma vacated:
  assumes "hash_iter iter" and "sc_inv sc"
    and "(find_at iter (sc_devices sc) p = None \<and> devs' = sc_devices sc)
       \<or> (\<exists>d. find_at iter (sc_devices sc) p = Some d \<and> devs' = (sc_devices sc)(u_device_id d := None))"
  shows "ids_below (sc_next_id sc) devs'" and "ports_unique devs'"
    and "devs' j = Some e \<longleftrightarrow> sc_devices sc j = Some e \<and> dev_port e \<noteq> p"
proof -
  note inv = sc_invD(1,2) [OF assms(2)]
  show "ids_below (sc_next_id sc) devs'" "ports_unique devs'"
    using assms(3) inv by (auto intro: ids_below_remove ports_unique_remove)
  from assms(3) show "devs' j = Some e \<longleftrightarrow> sc_devices sc j = Some e \<and> dev_port e \<noteq> p"
  proof
    assume "find_at iter (sc_devices sc) p = None \<and> devs' = sc_devices sc"
    then show ?thesis using find_at_None_iff [OF assms(1)] by blast
  next
    assume "\<exists>d. find_at iter (sc_devices sc) p = Some d \<and> devs' = (sc_devices sc)(u_device_id d := None)"
    then obtain d where d: "sc_devices sc (u_device_id d) = Some d" "dev_port d = p"
      and devs': "devs' = (sc_devices sc)(u_device_id d := None)"
      unfolding find_at_inv [OF assms(1,2)] by blast
    show ?thesis
    proof (cases "j = u_device_id d")
      case True
      with d show ?thesis by (auto simp: devs')
    next
      case False
      then have "sc_devices sc j = Some e \<Longrightarrow> dev_port e \<noteq> p"
        using d inv(2) unfolding ports_unique_def by blast
      with False show ?thesis unfolding devs' by fastforce
    qed
  qed
qed

lemma observe_correct:
  assumes iter: "hash_iter iter" and inv: "sc_inv sc" and room: "unat (sc_next_id sc) + 1 < 2 ^ 32"
    and obs: "observe iter sc ob = (sc', ch)"
  shows "sc_inv sc' \<and> (sc_next_id sc' = sc_next_id sc \<or> sc_next_id sc' = sc_next_id sc + 1)
     \<and> port_status iter sc' p = (if p = obs_port ob
          then port_step (sc_next_id sc) (port_status iter sc p) (Some (o_udid ob))
          else port_status iter sc p)"
proof (cases rule: observe_cases [OF iter inv, where ob = ob, case_names keep attach])
  case keep
  then show ?thesis
    using obs sc_inv_forget_misses [OF inv, of "obs_port ob"]
    by (auto simp: port_status_def split: option.splits)
next
  case (attach u devs' ch')
  note vac = vacated [OF iter inv, of "obs_port ob" devs']
  have vac_prem: "(find_at iter (sc_devices sc) (obs_port ob) = None \<and> devs' = sc_devices sc)
       \<or> (\<exists>d. find_at iter (sc_devices sc) (obs_port ob) = Some d \<and> devs' = (sc_devices sc)(u_device_id d := None))"
    using attach(3) by blast
  let ?dev = "usb_device_of (sc_next_id sc) u ob"
  have sc': "sc_devices sc' = devs'(sc_next_id sc \<mapsto> ?dev)" "sc_next_id sc' = sc_next_id sc + 1"
      "sc_miss_counts sc' = (sc_miss_counts sc)(obs_port ob := None)"
    using obs attach(2) by auto
  have free: "devs' (sc_next_id sc) = None" "sc_devices sc (sc_next_id sc) = None"
    using ids_below_fresh vac(1) [OF vac_prem] sc_invD(1) [OF inv] by blast+
  have inv': "sc_inv sc'"
    unfolding sc_inv_def sc'
  proof (intro conjI allI impI)
    show "ids_below (sc_next_id sc + 1) (devs'(sc_next_id sc \<mapsto> ?dev))"
      using ids_below_insert vac(1) [OF vac_prem] room by simp
    show "ports_unique (devs'(sc_next_id sc \<mapsto> ?dev))"
      by (rule ports_unique_insert [OF vac(2) [OF vac_prem]]) (use vac(3) [OF vac_prem] in simp)
    fix q n assume q: "((sc_miss_counts sc)(obs_port ob := None)) q = Some n"
    then have "sc_miss_counts sc q = Some n" "q \<noteq> obs_port ob" by (auto split: if_splits)
    then show "n = 1" using sc_invD(3) [OF inv] by blast
    obtain i d where "sc_devices sc i = Some d" "dev_port d = q"
      using sc_invD(4) [OF inv \<open>sc_miss_counts sc q = Some n\<close>] by blast
    with \<open>q \<noteq> obs_port ob\<close> have "devs' i = Some d" using vac(3) [OF vac_prem] by blast
    with free(1) \<open>dev_port d = q\<close>
    show "\<exists>i d. (devs'(sc_next_id sc \<mapsto> ?dev)) i = Some d \<and> dev_port d = q"
      by (intro exI [of _ i] exI [of _ d]) auto
  qed
  moreover have "port_status iter sc' p = port_step (sc_next_id sc) (port_status iter sc p) (Some (o_udid ob))"
    if "p = obs_port ob"
  proof -
    have "find_at iter (sc_devices sc') p = Some ?dev"
      unfolding find_at_inv [OF iter inv'] using that by (simp add: sc')
    moreover have "port_status iter sc p = Absent
        \<or> (\<exists>i v n. port_status iter sc p = Present i v n \<and> v \<noteq> u)"
      using attach(3) that by (auto simp: port_status_def)
    ultimately show ?thesis using attach(1) that by (auto simp: port_status_def sc')
  qed
  moreover have "port_status iter sc' p = port_status iter sc p" if "p \<noteq> obs_port ob"
  proof -
    have "find_at iter (sc_devices sc') p = find_at iter (sc_devices sc) p"
      by (rule find_at_keep [OF iter inv inv'])
         (use that vac(3) [OF vac_prem] free in \<open>auto simp: sc'\<close>)
    with that show ?thesis by (intro port_status_cong) (simp_all add: sc')
  qed
  ultimately show ?thesis using sc'(2) by simp
qed

lemma seen_at_simps [simp]:
  "seen_at [] p = None"
  "seen_at (ob # obs) p = (if obs_port ob = p then Some (o_udid ob) else seen_at obs p)"
  by (simp_all add: seen_at_def)

lemma seen_at_None_iff: "seen_at obs p = None \<longleftrightarrow> p \<notin> obs_port ` set obs"
  by (induction obs) auto

lemma attach_loop_correct:
  assumes "hash_iter iter" and "sc_inv sc" and "unat (sc_next_id sc) + length obs < 2 ^ 32"
    and "distinct (map obs_port obs)" and "attach_loop iter sc obs = (sc', ch)"
  shows "sc_inv sc' \<and> unat (sc_next_id sc') \<le> unat (sc_next_id sc) + length obs
     \<and> (\<exists>fresh \<ge> sc_next_id sc. port_status iter sc' p =
          (case seen_at obs p of None \<Rightarrow> port_status iter sc p
           | Some v \<Rightarrow> port_step fresh (port_status iter sc p) (Some v)))"
  using assms(2-5)
proof (induction obs arbitrary: sc sc' ch)
  case Nil
  then show ?case by auto
next
  case (Cons ob obs)
  obtain sc1 ch1 where one: "observe iter sc ob = (sc1, ch1)" by fastforce
  obtain ch2 where rest: "attach_loop iter sc1 obs = (sc', ch2)"
    using Cons.prems(4) one by (auto split: prod.splits)
  have room: "unat (sc_next_id sc) + 1 < 2 ^ 32" using Cons.prems(2) by simp
  note first = observe_correct [OF assms(1) Cons.prems(1) room one]
  from first [of p] have nxt: "unat (sc_next_id sc) \<le> unat (sc_next_id sc1) \<and> unat (sc_next_id sc1) \<le> unat (sc_next_id sc) + 1"
    using next_id_Suc [OF room] by auto
  then have "unat (sc_next_id sc1) + length obs < 2 ^ 32" using Cons.prems(2) by simp
  with Cons.IH [of sc1] first [of p] Cons.prems(3) rest
  have IH: "sc_inv sc'" "unat (sc_next_id sc') \<le> unat (sc_next_id sc1) + length obs"
    "\<exists>fresh \<ge> sc_next_id sc1. port_status iter sc' p =
          (case seen_at obs p of None \<Rightarrow> port_status iter sc1 p
           | Some v \<Rightarrow> port_step fresh (port_status iter sc1 p) (Some v))"
    by auto
  have "\<exists>fresh \<ge> sc_next_id sc. port_status iter sc' p =
          (case seen_at (ob # obs) p of None \<Rightarrow> port_status iter sc p
           | Some v \<Rightarrow> port_step fresh (port_status iter sc p) (Some v))"
  proof (cases "p = obs_port ob")
    case True
    then have "seen_at obs p = None" using Cons.prems(3) by (simp add: seen_at_None_iff)
    with IH(3) first [of p] True show ?thesis by auto
  next
    case False
    have "sc_next_id sc \<le> sc_next_id sc1" using nxt by (simp add: word_le_nat_alt)
    moreover from IH(3) obtain fresh where "sc_next_id sc1 \<le> fresh"
      "port_status iter sc' p = (case seen_at obs p of None \<Rightarrow> port_status iter sc1 p
           | Some v \<Rightarrow> port_step fresh (port_status iter sc1 p) (Some v))" by blast
    moreover have "port_status iter sc1 p = port_status iter sc p" using first [of p] False by simp
    ultimately show ?thesis using False by (intro exI [of _ fresh]) (auto split: option.splits)
  qed
  with IH nxt show ?case by auto
qed

section \<open>The detach loop\<close>

lemma miss_correct:
  assumes iter: "hash_iter iter" and inv: "sc_inv sc" and dev: "sc_devices sc i = Some d" "dev_port d = q"
    and miss: "miss cur sc (q, i) = (sc', ch)"
  shows "sc_inv sc' \<and> sc_next_id sc' = sc_next_id sc
     \<and> (\<forall>j. j \<noteq> i \<longrightarrow> sc_devices sc' j = sc_devices sc j)
     \<and> port_status iter sc' p =
          (if p = q \<and> q \<notin> set cur then port_step x (port_status iter sc p) None else port_status iter sc p)"
proof -
  have i: "i = u_device_id d" using dev sc_invD(1) [OF inv] by (auto simp: ids_below_def)
  have at: "find_at iter (sc_devices sc) q = Some d"
    unfolding find_at_inv [OF iter inv] using dev i by simp
  consider (seen) "q \<in> set cur" | (first) "q \<notin> set cur" "sc_miss_counts sc q = None"
    | (second) "q \<notin> set cur" "sc_miss_counts sc q = Some 1"
    using sc_invD(3) [OF inv, of q] by (cases "sc_miss_counts sc q") auto
  then show ?thesis
  proof cases
    case seen
    with miss inv show ?thesis by (simp add: miss_def)
  next
    case first
    with miss have sc': "sc' = sc\<lparr>sc_miss_counts := (sc_miss_counts sc)(q \<mapsto> 1)\<rparr>"
      by (auto simp: miss_def DETACH_AFTER_MISSES_def word_le_nat_alt)
    have "sc_inv sc'"
      using inv dev unfolding sc' sc_inv_def by (auto split: if_splits)
    moreover have "port_status iter sc' p = port_status iter sc p" if "p \<noteq> q"
      using that by (intro port_status_cong) (simp_all add: sc')
    ultimately show ?thesis using first at by (auto simp: port_status_def [of iter _ q] sc')
  next
    case second
    with miss have sc': "sc' = sc\<lparr>sc_devices := (sc_devices sc)(i := None),
        sc_miss_counts := (sc_miss_counts sc)(q := None)\<rparr>"
      by (auto simp: miss_def DETACH_AFTER_MISSES_def)
    have other: "((sc_devices sc)(i := None)) j = Some e \<longleftrightarrow> sc_devices sc j = Some e \<and> dev_port e \<noteq> q" for j e
      using vacated(3) [OF iter inv] at i by blast
    have f: "sc_devices sc' = (sc_devices sc)(i := None)" "sc_next_id sc' = sc_next_id sc"
      "sc_miss_counts sc' = (sc_miss_counts sc)(q := None)" by (simp_all add: sc')
    have "sc_inv sc'"
      unfolding sc_inv_def f
    proof (intro conjI allI impI)
      show "ids_below (sc_next_id sc) ((sc_devices sc)(i := None))" "ports_unique ((sc_devices sc)(i := None))"
        using sc_invD(1,2) [OF inv] by (auto intro: ids_below_remove ports_unique_remove)
      fix r n assume r: "((sc_miss_counts sc)(q := None)) r = Some n"
      then have "sc_miss_counts sc r = Some n" "r \<noteq> q" by (auto split: if_splits)
      then show "n = 1" "\<exists>j e. ((sc_devices sc)(i := None)) j = Some e \<and> dev_port e = r"
        unfolding other using sc_invD(3,4) [OF inv] by blast+
    qed
    moreover have "find_at iter (sc_devices sc') p = (if p = q then None else find_at iter (sc_devices sc) p)"
    proof (cases "p = q")
      case True
      have "\<not> (sc_devices sc' j = Some e \<and> dev_port e = q)" for j e
        unfolding sc' using other by simp
      with True show ?thesis using find_at_None_iff [OF iter] by auto
    next
      case False
      then show ?thesis
        using find_at_keep [OF iter inv \<open>sc_inv sc'\<close>, of p] other by (simp add: sc')
    qed
    moreover from this have "port_status iter sc' p = port_status iter sc p" if "p \<noteq> q"
      using that by (intro port_status_cong) (simp_all add: sc')
    ultimately show ?thesis using second at by (auto simp: port_status_def [of iter _ q] sc')
  qed
qed

lemma detach_loop_correct:
  assumes "hash_iter iter" and "sc_inv sc" and "distinct (map fst ks)" and "distinct (map snd ks)"
    and "\<forall>(q, i) \<in> set ks. \<exists>d. sc_devices sc i = Some d \<and> dev_port d = q"
    and "detach_loop cur sc ks = (sc', ch)"
  shows "sc_inv sc' \<and> sc_next_id sc' = sc_next_id sc
     \<and> port_status iter sc' p =
          (if p \<in> fst ` set ks \<and> p \<notin> set cur then port_step x (port_status iter sc p) None
           else port_status iter sc p)"
  using assms(2-6)
proof (induction ks arbitrary: sc sc' ch)
  case (Cons k ks)
  obtain q i where k: "k = (q, i)" by fastforce
  obtain sc1 ch1 where one: "miss cur sc (q, i) = (sc1, ch1)" by fastforce
  obtain ch2 where rest: "detach_loop cur sc1 ks = (sc', ch2)"
    using Cons.prems(5) one k by (auto split: prod.splits)
  obtain d where d: "sc_devices sc i = Some d" "dev_port d = q" using Cons.prems(4) k by auto
  note first = miss_correct [OF assms(1) Cons.prems(1) d one]
  have "\<forall>(r, j) \<in> set ks. \<exists>d. sc_devices sc1 j = Some d \<and> dev_port d = r"
  proof (clarify)
    fix a b j assume "((a, b), j) \<in> set ks"
    moreover from this have "j \<noteq> i" using Cons.prems(3) k by (auto simp: rev_image_eqI)
    ultimately show "\<exists>d. sc_devices sc1 j = Some d \<and> dev_port d = (a, b)"
      using Cons.prems(4) first by fastforce
  qed
  with Cons.IH [of sc1] first [of p] Cons.prems(2,3) rest k
  have "sc_inv sc' \<and> sc_next_id sc' = sc_next_id sc1 \<and> port_status iter sc' p =
          (if p \<in> fst ` set ks \<and> p \<notin> set cur then port_step x (port_status iter sc1 p) None
           else port_status iter sc1 p)" by simp
  moreover have "q \<notin> fst ` set ks" using Cons.prems(2) k by simp
  ultimately show ?case using first [of p x] k by auto
qed simp

section \<open>The change feed\<close>

text \<open>
  What a subscriber does with a change, and what it may rely on: an attached device is new to
  it in identifier and port, a detached one is known to it.
\<close>

fun apply_change :: "usb_devices \<Rightarrow> device_change \<Rightarrow> usb_devices" where
  "apply_change devs (Attached d) = fun_upd devs (u_device_id d) (Some d)"
| "apply_change devs (Detached i) = fun_upd devs i None"

definition replay :: "usb_devices \<Rightarrow> device_change list \<Rightarrow> usb_devices" where
  "replay devs ch = foldl apply_change devs ch"

fun changes_ok :: "usb_devices \<Rightarrow> device_change list \<Rightarrow> bool" where
  "changes_ok devs [] = True"
| "changes_ok devs (Attached d # ch) \<longleftrightarrow>
     devs (u_device_id d) = None \<and> (\<forall>i e. devs i = Some e \<longrightarrow> dev_port e \<noteq> dev_port d)
     \<and> changes_ok (apply_change devs (Attached d)) ch"
| "changes_ok devs (Detached i # ch) \<longleftrightarrow> devs i \<noteq> None \<and> changes_ok (apply_change devs (Detached i)) ch"

fun run_feed :: "('s \<Rightarrow> 'i \<Rightarrow> 's \<times> device_change list) \<Rightarrow> 's \<Rightarrow> 'i list \<Rightarrow> 's \<times> device_change list" where
  "run_feed step s [] = (s, [])"
| "run_feed step s (i # is) =
     (let (s1, ch1) = step s i; (s2, ch2) = run_feed step s1 is in (s2, ch1 @ ch2))"

lemma replay_simps [simp]:
  "replay devs [] = devs" "replay devs (c # ch) = replay (apply_change devs c) ch"
  "replay devs (a @ b) = replay (replay devs a) b"
  by (simp_all add: replay_def)

lemma changes_ok_append [simp]: "changes_ok devs (a @ b) \<longleftrightarrow> changes_ok devs a \<and> changes_ok (replay devs a) b"
proof (induction a arbitrary: devs)
  case (Cons c a)
  show ?case by (cases c) (simp_all add: Cons.IH fun_upd_def)
qed simp

text \<open>
  The contract between a component that owns a set of devices and the subscribers of its
  changes (the device manager and every listening client): \<open>inv\<close> is the provider's
  invariant, \<open>ok\<close> what it assumes of its input, \<open>ids\<close> how many identifiers an input may use.
\<close>

locale change_feed =
  fixes view :: "'s \<Rightarrow> usb_devices"
    and step :: "'s \<Rightarrow> 'i \<Rightarrow> 's \<times> device_change list"
    and inv :: "'s \<Rightarrow> bool" and ok :: "'i \<Rightarrow> bool"
    and used :: "'s \<Rightarrow> nat" and ids :: "'i \<Rightarrow> nat"
  assumes step_replay: "step s i = (s', ch) \<Longrightarrow> replay (view s) ch = view s'"
    and step_inv: "inv s \<Longrightarrow> ok i \<Longrightarrow> used s + ids i < 2 ^ 32 \<Longrightarrow> step s i = (s', ch)
       \<Longrightarrow> inv s' \<and> used s' \<le> used s + ids i"
    and step_changes: "inv s \<Longrightarrow> ok i \<Longrightarrow> used s + ids i < 2 ^ 32 \<Longrightarrow> step s i = (s', ch)
       \<Longrightarrow> changes_ok (view s) ch"
begin

lemma run_replay: "run_feed step s is = (s', ch) \<Longrightarrow> replay (view s) ch = view s'"
proof (induction "is" arbitrary: s s' ch)
  case (Cons i "is")
  obtain s1 ch1 where "step s i = (s1, ch1)" by fastforce
  moreover obtain ch2 where "run_feed step s1 is = (s', ch2)" "ch = ch1 @ ch2"
    using Cons.prems calculation by (auto split: prod.splits)
  ultimately show ?case using Cons.IH [of s1] step_replay [of s i s1 ch1] by simp
qed simp

lemma run_inv:
  assumes "inv s" and "\<forall>i \<in> set is. ok i" and "used s + sum_list (map ids is) < 2 ^ 32"
    and "run_feed step s is = (s', ch)"
  shows "inv s' \<and> used s' \<le> used s + sum_list (map ids is) \<and> changes_ok (view s) ch"
  using assms
proof (induction "is" arbitrary: s s' ch)
  case (Cons i "is")
  obtain s1 ch1 where one: "step s i = (s1, ch1)" by fastforce
  obtain ch2 where rest: "run_feed step s1 is = (s', ch2)" "ch = ch1 @ ch2"
    using Cons.prems(4) one by (auto split: prod.splits)
  have "inv s1 \<and> used s1 \<le> used s + ids i" "changes_ok (view s) ch1"
    using step_inv [OF Cons.prems(1) _ _ one] step_changes [OF Cons.prems(1) _ _ one] Cons.prems(2,3) by auto
  with Cons.IH [of s1 s' ch2] Cons.prems(2,3) rest step_replay [OF one] show ?case by auto
qed simp

end

section \<open>A scan\<close>

lemma observe_replay: "observe iter sc ob = (sc', ch) \<Longrightarrow> replay (sc_devices sc) ch = sc_devices sc'"
  by (auto simp: observe_def Let_def split: option.splits if_splits)

lemma attach_replay: "attach_loop iter sc obs = (sc', ch) \<Longrightarrow> replay (sc_devices sc) ch = sc_devices sc'"
  by (induction obs arbitrary: sc sc' ch) (auto split: prod.splits dest!: observe_replay)

lemma miss_replay: "miss cur sc k = (sc', ch) \<Longrightarrow> replay (sc_devices sc) ch = sc_devices sc'"
  by (auto simp: miss_def Let_def split: prod.splits if_splits)

lemma detach_replay: "detach_loop cur sc ks = (sc', ch) \<Longrightarrow> replay (sc_devices sc) ch = sc_devices sc'"
  by (induction ks arbitrary: sc sc' ch) (auto split: prod.splits dest!: miss_replay)

lemma diff_replay: "diff_devices iter sc cur = (sc', ch) \<Longrightarrow> replay (sc_devices sc) ch = sc_devices sc'"
  by (auto simp: diff_devices_def Let_def split: prod.splits dest!: attach_replay detach_replay)

lemma observe_changes_ok:
  assumes "hash_iter iter" and "sc_inv sc" and "observe iter sc ob = (sc', ch)"
  shows "changes_ok (sc_devices sc) ch"
proof (cases rule: observe_cases [OF assms(1,2), where ob = ob, case_names keep attach])
  case keep
  with assms(3) show ?thesis by simp
next
  case (attach u devs' ch')
  have p: "(find_at iter (sc_devices sc) (obs_port ob) = None \<and> devs' = sc_devices sc)
       \<or> (\<exists>d. find_at iter (sc_devices sc) (obs_port ob) = Some d \<and> devs' = (sc_devices sc)(u_device_id d := None))"
    using attach(3) by blast
  note vac = vacated [OF assms(1,2) p]
  have "devs' (sc_next_id sc) = None" using ids_below_fresh vac(1) by blast
  moreover have "changes_ok (sc_devices sc) ch' \<and> replay (sc_devices sc) ch' = devs'"
    using attach(3) unfolding find_at_inv [OF assms(1,2)] by auto
  ultimately show ?thesis using assms(3) attach(2) vac(3) by auto
qed

lemma attach_changes_ok:
  assumes "hash_iter iter" and "sc_inv sc" and "unat (sc_next_id sc) + length obs < 2 ^ 32"
    and "attach_loop iter sc obs = (sc', ch)"
  shows "changes_ok (sc_devices sc) ch"
  using assms(2-4)
proof (induction obs arbitrary: sc sc' ch)
  case (Cons ob obs)
  obtain sc1 ch1 where one: "observe iter sc ob = (sc1, ch1)" by fastforce
  obtain ch2 where rest: "attach_loop iter sc1 obs = (sc', ch2)" "ch = ch1 @ ch2"
    using Cons.prems(3) one by (auto split: prod.splits)
  have room: "unat (sc_next_id sc) + 1 < 2 ^ 32" using Cons.prems(2) by simp
  have "sc_inv sc1" "unat (sc_next_id sc1) \<le> unat (sc_next_id sc) + 1"
    using observe_correct [OF assms(1) Cons.prems(1) room one, where p = "obs_port ob"]
      next_id_Suc [OF room] by auto
  with Cons.IH [OF _ _ rest(1)] Cons.prems(2) have "changes_ok (sc_devices sc1) ch2" by simp
  with rest(2) observe_changes_ok [OF assms(1) Cons.prems(1) one] observe_replay [OF one]
  show ?case by simp
qed simp

lemma detach_changes_ok:
  assumes "distinct (map snd ks)" and "\<forall>k \<in> set ks. sc_devices sc (snd k) \<noteq> None"
    and "detach_loop cur sc ks = (sc', ch)"
  shows "changes_ok (sc_devices sc) ch"
  using assms
proof (induction ks arbitrary: sc sc' ch)
  case (Cons k ks)
  obtain sc1 ch1 where one: "miss cur sc k = (sc1, ch1)" by fastforce
  obtain ch2 where rest: "detach_loop cur sc1 ks = (sc', ch2)" "ch = ch1 @ ch2"
    using Cons.prems(3) one by (auto split: prod.splits)
  have keep: "changes_ok (sc_devices sc) ch1" "\<And>j. j \<noteq> snd k \<Longrightarrow> sc_devices sc1 j = sc_devices sc j"
    using one Cons.prems(2) by (auto simp: miss_def Let_def split: prod.splits if_splits)
  have "\<forall>l \<in> set ks. sc_devices sc1 (snd l) \<noteq> None"
  proof
    fix l assume l: "l \<in> set ks"
    then have "snd l \<noteq> snd k" using Cons.prems(1) by (metis distinct.simps(2) image_eqI list.map(2) set_map)
    with l Cons.prems(2) keep(2) show "sc_devices sc1 (snd l) \<noteq> None" by simp
  qed
  with Cons.IH [OF _ _ rest(1)] Cons.prems(1) rest(2) keep(1) miss_replay [OF one] show ?case by simp
qed simp

text \<open>The ports and identifiers the detach loop goes through.\<close>

definition known_ports :: "usb_iter \<Rightarrow> device_scanner \<Rightarrow> (port \<times> u32) list" where
  "known_ports iter sc = map (\<lambda>d. (dev_port d, u_device_id d)) (device_values iter (sc_devices sc))"

lemma known_ports:
  assumes "hash_iter iter" and "sc_inv sc"
  shows "distinct (map fst (known_ports iter sc))" and "distinct (map snd (known_ports iter sc))"
    and "(q, i) \<in> set (known_ports iter sc) \<longleftrightarrow> (\<exists>d. sc_devices sc i = Some d \<and> dev_port d = q)"
proof -
  let ?devs = "sc_devices sc"
  note it = hash_iterD [OF assms(1), of ?devs]
  have id: "?devs i = Some d \<Longrightarrow> u_device_id d = i" for i d
    using sc_invD(1) [OF assms(2)] by (auto simp: ids_below_def)
  have snds: "map snd (known_ports iter sc) = iter ?devs"
    unfolding known_ports_def device_values_def using it id by (auto intro!: map_idI)
  show "distinct (map snd (known_ports iter sc))" unfolding snds using it by simp
  have "inj_on (\<lambda>i. dev_port (the (?devs i))) (dom ?devs)"
    using sc_invD(2) [OF assms(2)] unfolding inj_on_def ports_unique_def dom_def by force
  then show "distinct (map fst (known_ports iter sc))"
    using it by (simp add: known_ports_def device_values_def distinct_map comp_def)
  show "(q, i) \<in> set (known_ports iter sc) \<longleftrightarrow> (\<exists>d. ?devs i = Some d \<and> dev_port d = q)"
    using set_device_values [OF assms(1), of ?devs] id
    unfolding known_ports_def set_map ran_def image_iff by auto
qed

lemma diff_split:
  assumes "diff_devices iter sc cur = (sc', ch)"
  obtains sc1 ch1 ch2 where "attach_loop iter sc cur = (sc1, ch1)"
    and "detach_loop (map obs_port cur) sc1 (known_ports iter sc1) = (sc', ch2)" and "ch = ch1 @ ch2"
  using assms by (auto simp: diff_devices_def known_ports_def Let_def split: prod.splits)

lemma diff_correct:
  assumes iter: "hash_iter iter" and inv: "sc_inv sc" and room: "unat (sc_next_id sc) + length cur < 2 ^ 32"
    and dist: "distinct (map obs_port cur)" and diff: "diff_devices iter sc cur = (sc', ch)"
  shows "sc_inv sc'" and "unat (sc_next_id sc') \<le> unat (sc_next_id sc) + length cur"
    and "changes_ok (sc_devices sc) ch"
    and "\<exists>fresh \<ge> sc_next_id sc. port_status iter sc' p = port_step fresh (port_status iter sc p) (seen_at cur p)"
proof -
  obtain sc1 ch1 ch2 where one: "attach_loop iter sc cur = (sc1, ch1)"
    and two: "detach_loop (map obs_port cur) sc1 (known_ports iter sc1) = (sc', ch2)" and ch: "ch = ch1 @ ch2"
    using diff_split [OF diff] .
  note att = attach_loop_correct [OF iter inv room dist one]
  then have inv1: "sc_inv sc1" by blast
  note kp = known_ports [OF iter inv1]
  have kp': "\<forall>(q, i) \<in> set (known_ports iter sc1). \<exists>d. sc_devices sc1 i = Some d \<and> dev_port d = q"
    using kp(3) by blast
  note det = detach_loop_correct [OF iter inv1 kp(1,2) kp' two]
  show "sc_inv sc'" "unat (sc_next_id sc') \<le> unat (sc_next_id sc) + length cur"
    using att det by auto
  have "\<forall>k \<in> set (known_ports iter sc1). sc_devices sc1 (snd k) \<noteq> None" using kp' by auto
  then show "changes_ok (sc_devices sc) ch"
    unfolding ch using attach_changes_ok [OF iter inv room one] attach_replay [OF one]
      detach_changes_ok [OF kp(2) _ two] by simp
  obtain fresh where fresh: "sc_next_id sc \<le> fresh" "port_status iter sc1 p =
          (case seen_at cur p of None \<Rightarrow> port_status iter sc p
           | Some v \<Rightarrow> port_step fresh (port_status iter sc p) (Some v))"
    using att [of p] by blast
  have "port_status iter sc' p = port_step fresh (port_status iter sc p) (seen_at cur p)"
  proof (cases "seen_at cur p")
    case None
    then have "p \<notin> set (map obs_port cur)" by (simp add: seen_at_None_iff)
    moreover have "port_status iter sc1 p = Absent" if "p \<notin> fst ` set (known_ports iter sc1)"
    proof -
      have "find_at iter (sc_devices sc1) p = None"
        unfolding find_at_None_iff [OF iter] using that kp(3) by (metis fst_conv image_eqI)
      then show ?thesis by (simp add: port_status_def)
    qed
    ultimately show ?thesis using det [of p fresh] fresh(2) None by auto
  next
    case (Some v)
    then have "p \<in> set (map obs_port cur)" using seen_at_None_iff [of cur p] by auto
    with det [of p fresh] fresh(2) Some show ?thesis by simp
  qed
  with fresh(1) show "\<exists>fresh \<ge> sc_next_id sc. port_status iter sc' p
      = port_step fresh (port_status iter sc p) (seen_at cur p)" by blast
qed

text \<open>
  What the USB stack promises of an enumeration: no two entries with the same bus and address.
\<close>

fun bus_ok :: "(rstr, bus_entry list) res option \<Rightarrow> bool" where
  "bus_ok (Some (Ok es)) = distinct (map (\<lambda>e. (be_bus e, be_address e)) es)"
| "bus_ok _ = True"

fun bus_count :: "(rstr, bus_entry list) res option \<Rightarrow> nat" where
  "bus_count (Some (Ok es)) = length es"
| "bus_count _ = 0"

lemma observe_entries_ports:
  "set (map obs_port (observe_entries es)) \<subseteq> set (map (\<lambda>e. (be_bus e, be_address e)) es)"
  by (induction es) (auto split: option.splits prod.splits)

lemma observe_entries_distinct:
  "distinct (map (\<lambda>e. (be_bus e, be_address e)) es) \<Longrightarrow> distinct (map obs_port (observe_entries es))"
proof (induction es)
  case (Cons e es)
  then show ?case
    using observe_entries_ports [of es] by (auto simp: image_iff split: option.splits prod.splits)
qed simp

lemma observe_entries_length: "length (observe_entries es) \<le> length es"
  by (induction es) (auto split: option.splits prod.splits)

lemma scan_cases:
  obtains (failed) "scan iter sc ctx = (sc, [])" "\<And>cur. enumerate_apple_devices ctx \<noteq> Ok cur"
  | (listed) es where "ctx = Some (Ok es)" "enumerate_apple_devices ctx = Ok (observe_entries es)"
      "scan iter sc ctx = diff_devices iter sc (observe_entries es)"
proof (cases "\<exists>es. ctx = Some (Ok es)")
  case True
  then show thesis using listed by (auto simp: scan_def enumerate_apple_devices_def)
next
  case False
  then have "enumerate_apple_devices ctx \<noteq> Ok cur" for cur
    by (auto simp: enumerate_apple_devices_def split: option.splits res.splits)
  moreover from this have "scan iter sc ctx = (sc, [])"
    by (auto simp: scan_def split: res.splits)
  ultimately show thesis by (rule failed [rotated])
qed

lemma scan_correct:
  assumes "hash_iter iter" and "sc_inv sc" and "bus_ok ctx"
    and "unat (sc_next_id sc) + bus_count ctx < 2 ^ 32" and "scan iter sc ctx = (sc', ch)"
  shows "sc_inv sc' \<and> unat (sc_next_id sc') \<le> unat (sc_next_id sc) + bus_count ctx
    \<and> changes_ok (sc_devices sc) ch"
proof (cases rule: scan_cases [where iter = iter and sc = sc and ctx = ctx, case_names failed listed])
  case failed
  with assms show ?thesis by simp
next
  case (listed es)
  have dist: "distinct (map obs_port (observe_entries es))"
    using assms(3) listed(1) observe_entries_distinct by simp
  have room: "unat (sc_next_id sc) + length (observe_entries es) < 2 ^ 32"
    using assms(4) listed(1) observe_entries_length [of es] by simp
  have diff: "diff_devices iter sc (observe_entries es) = (sc', ch)" using listed(3) assms(5) by simp
  have "sc_inv sc'" "changes_ok (sc_devices sc) ch"
    "unat (sc_next_id sc') \<le> unat (sc_next_id sc) + length (observe_entries es)"
    using diff_correct(1-3) [OF assms(1,2) room dist diff] by blast+
  then show ?thesis using listed(1) observe_entries_length [of es] by simp
qed

lemma scan_replay: "scan iter sc ctx = (sc', ch) \<Longrightarrow> replay (sc_devices sc) ch = sc_devices sc'"
  by (auto simp: scan_def diff_replay split: res.splits)

interpretation scanner_feed:
  change_feed sc_devices "scan iter" "\<lambda>sc. hash_iter iter \<and> sc_inv sc" bus_ok
    "\<lambda>sc. unat (sc_next_id sc)" bus_count for iter
proof unfold_locales
  fix sc ctx sc' ch
  show "replay (sc_devices sc) ch = sc_devices sc'" if "scan iter sc ctx = (sc', ch)"
    using that by (rule scan_replay)
next
  fix sc ctx sc' ch
  assume "hash_iter iter \<and> sc_inv sc" "bus_ok ctx" "unat (sc_next_id sc) + bus_count ctx < 2 ^ 32"
    "scan iter sc ctx = (sc', ch)"
  then show "(hash_iter iter \<and> sc_inv sc') \<and> unat (sc_next_id sc') \<le> unat (sc_next_id sc) + bus_count ctx"
    "changes_ok (sc_devices sc) ch"
    using scan_correct by blast+
qed

text \<open>What the successful scans of a run saw at one port.\<close>

fun port_trace :: "port \<Rightarrow> (rstr, bus_entry list) res option list \<Rightarrow> rstr option option list" where
  "port_trace p [] = []"
| "port_trace p (ctx # ctxs) =
     (case enumerate_apple_devices ctx of
        Ok cur \<Rightarrow> seen_at cur p # port_trace p ctxs
      | _ \<Rightarrow> port_trace p ctxs)"

text \<open>No two misses in a row (\<open>n\<close> misses so far), and no other serial than \<open>u\<close>.\<close>

fun calm :: "rstr \<Rightarrow> nat \<Rightarrow> rstr option option list \<Rightarrow> bool" where
  "calm u n [] = True"
| "calm u n (None # t) \<longleftrightarrow> n = 0 \<and> calm u 1 t"
| "calm u n (Some None # t) \<longleftrightarrow> calm u 0 t"
| "calm u n (Some (Some v) # t) \<longleftrightarrow> v = u \<and> calm u 0 t"

section \<open>Properties\<close>

text \<open>C8: A scan refines the per-port state machine: with one observation per port and
  identifiers left, the status of every port (which device is known there, under which
  identifier, after how many consecutive misses) is the old status advanced by what was seen at
  that port, whatever order the hash map iterates in; an identifier given out is at least the
  old counter, hence new. The table invariant is kept.\<close>

theorem diff_refines_port_machine:
  assumes "hash_iter iter" and "sc_inv sc" and "unat (sc_next_id sc) + length cur < 2 ^ 32"
    and "distinct (map obs_port cur)"
  shows "sc_inv (fst (diff_devices iter sc cur))
    \<and> (\<forall>p. \<exists>fresh \<ge> sc_next_id sc. port_status iter (fst (diff_devices iter sc cur)) p
          = port_step fresh (port_status iter sc p) (seen_at cur p))"
  using diff_correct(1,4) [OF assms, of "fst (diff_devices iter sc cur)" "snd (diff_devices iter sc cur)"]
  by simp

theorem diff_refines_port_machine_witness:
  "sc_inv (fst (diff_devices (\<lambda>m. sorted_list_of_set (dom m)) scanner_new
      [\<lparr>o_usb_bus = 1, o_usb_address = 4, o_product_id = 0x12A8, o_udid = Some (lit ''AB'')\<rparr>]))"
  using diff_refines_port_machine [OF hash_iter_witness sc_inv_new, of
      "[\<lparr>o_usb_bus = 1, o_usb_address = 4, o_product_id = 0x12A8, o_udid = Some (lit ''AB'')\<rparr>]"]
  by (simp add: scanner_new_def)

text \<open>Flap suppression over any number of scans: a device that misses no two successful
  scans in a row, and at whose port no other serial is read, keeps its identifier and its entry,
  however often it is unreadable or an enumeration fails in between.\<close>

theorem flapping_device_keeps_identity:
  assumes "hash_iter iter" and "sc_inv sc" and "\<forall>ctx \<in> set ctxs. bus_ok ctx"
    and "unat (sc_next_id sc) + sum_list (map bus_count ctxs) < 2 ^ 32"
    and "port_status iter sc p = Present i u n" and "calm u n (port_trace p ctxs)"
  shows "\<exists>m. port_status iter (fst (run_feed (scan iter) sc ctxs)) p = Present i u m"
  using assms(2-6)
proof (induction ctxs arbitrary: sc n)
  case (Cons ctx ctxs)
  obtain sc1 ch1 where one: "scan iter sc ctx = (sc1, ch1)" by fastforce
  then have run: "fst (run_feed (scan iter) sc (ctx # ctxs)) = fst (run_feed (scan iter) sc1 ctxs)"
    by (simp split: prod.splits)
  have "bus_ok ctx" "unat (sc_next_id sc) + bus_count ctx < 2 ^ 32" using Cons.prems(2,3) by simp_all
  from scan_correct [OF assms(1) Cons.prems(1) this one]
  have sc1: "sc_inv sc1" "unat (sc_next_id sc1) + sum_list (map bus_count ctxs) < 2 ^ 32"
    using Cons.prems(3) by simp_all
  have "\<exists>m. port_status iter sc1 p = Present i u m \<and> calm u m (port_trace p ctxs)"
  proof (cases rule: scan_cases [where iter = iter and sc = sc and ctx = ctx, case_names failed listed])
    case failed
    with one Cons.prems(4,5) show ?thesis by (auto split: res.splits)
  next
    case (listed es)
    have "distinct (map obs_port (observe_entries es))"
      "unat (sc_next_id sc) + length (observe_entries es) < 2 ^ 32"
      using Cons.prems(2,3) listed(1) observe_entries_distinct observe_entries_length [of es] by auto
    with diff_correct(4) [OF assms(1) Cons.prems(1), of "observe_entries es" sc1 ch1 p] one listed(3)
    obtain fresh where "port_status iter sc1 p
        = port_step fresh (Present i u n) (seen_at (observe_entries es) p)"
      using Cons.prems(4) by auto
    moreover have "calm u n (seen_at (observe_entries es) p # port_trace p ctxs)"
      using Cons.prems(5) listed(2) by simp
    ultimately show ?thesis
      by (cases "(u, n, seen_at (observe_entries es) p # port_trace p ctxs)" rule: calm.cases) auto
  qed
  with Cons.IH [OF sc1(1) _ sc1(2)] Cons.prems(2) show ?case unfolding run by auto
qed simp

theorem flapping_device_keeps_identity_witness:
  "\<exists>m. port_status (\<lambda>m. sorted_list_of_set (dom m))
      (fst (run_feed (scan (\<lambda>m. sorted_list_of_set (dom m)))
        \<lparr>sc_devices = [1 \<mapsto> \<lparr>u_device_id = 1, u_udid = lit ''AB'', u_product_id = 0x12A8,
             u_usb_bus = 1, u_usb_address = 4\<rparr>], sc_miss_counts = Map.empty, sc_next_id = 2\<rparr>
        [Some (Ok []), None,
         Some (Ok [\<lparr>be_bus = 1, be_address = 4, be_descriptor = Some (0x05AC, 0x12A8), be_serial = None\<rparr>])]))
      (1, 4) = Present 1 (lit ''AB'') m"
  by (rule flapping_device_keeps_identity [where n = 0])
     (simp_all add: hash_iter_witness sc_inv_def ids_below_def ports_unique_def port_status_def
        find_at_def device_values_def enumerate_apple_devices_def entry_udid_def APPLE_VENDOR_ID_def)

text \<open>C23: Whoever replays the reported changes holds the scanner's devices: after any run of scans
  (failed ones included) in which no bus lists two entries at one address and the device numbers
  do not run out, applying the changes in order to the devices at its start gives the devices at its end. And
  the changes are well formed: nothing is attached under an identifier or at a port still in
  use, and nothing is detached that is not there.\<close>

theorem replayed_changes_are_the_devices:
  assumes "hash_iter iter" and "sc_inv sc" and "\<forall>ctx \<in> set ctxs. bus_ok ctx"
    and "unat (sc_next_id sc) + sum_list (map bus_count ctxs) < 2 ^ 32"
    and "run_feed (scan iter) sc ctxs = (sc', ch)"
  shows "replay (sc_devices sc) ch = sc_devices sc' \<and> changes_ok (sc_devices sc) ch \<and> sc_inv sc'"
  using scanner_feed.run_replay [OF assms(5)] scanner_feed.run_inv [OF _ assms(3,4,5)] assms(1,2) by blast

theorem replayed_changes_are_the_devices_witness:
  "\<exists>sc' ch. run_feed (scan (\<lambda>m. sorted_list_of_set (dom m))) scanner_new
      [Some (Ok [\<lparr>be_bus = 1, be_address = 4, be_descriptor = Some (0x05AC, 0x12A8),
                  be_serial = Some (lit ''AB'')\<rparr>]), None] = (sc', ch)
     \<and> replay (sc_devices scanner_new) ch = sc_devices sc' \<and> sc_inv sc'"
proof -
  let ?ctxs = "[Some (Ok [\<lparr>be_bus = 1, be_address = 4, be_descriptor = Some (0x05AC, 0x12A8),
                  be_serial = Some (lit ''AB'')\<rparr>]), None]"
  obtain sc' ch where "run_feed (scan (\<lambda>m. sorted_list_of_set (dom m))) scanner_new ?ctxs = (sc', ch)"
    by fastforce
  moreover from this have "replay (sc_devices scanner_new) ch = sc_devices sc' \<and> sc_inv sc'"
    using replayed_changes_are_the_devices [OF hash_iter_witness sc_inv_new, of ?ctxs sc' ch]
    by (simp add: scanner_new_def)
  ultimately show ?thesis by blast
qed

section \<open>An example bus\<close>

text \<open>One device on the bus, and the scanner that has seen it, for the witnesses of other theories.\<close>

definition example_entry :: bus_entry where
  "example_entry = \<lparr>be_bus = 1, be_address = 2, be_descriptor = Some (0x05AC, 0x12A8), be_serial = Some (lit ''AB'')\<rparr>"

definition example_usb :: usb_device where
  "example_usb = \<lparr>u_device_id = 1, u_udid = lit ''AB'', u_product_id = 0x12A8, u_usb_bus = 1, u_usb_address = 2\<rparr>"

definition example_scanner :: device_scanner where
  "example_scanner = scanner_new\<lparr>sc_devices := [1 \<mapsto> example_usb], sc_next_id := 2\<rparr>"

lemma example_scan:
  "scan (\<lambda>m. sorted_list_of_set (dom m)) scanner_new (Some (Ok [example_entry])) = (example_scanner, [Attached example_usb])"
  by (simp add: scan_def enumerate_apple_devices_def diff_devices_def observe_def find_at_def device_values_def
      scanner_new_def example_scanner_def example_usb_def example_entry_def usb_device_of_def entry_udid_def trim_nul_def
      trim_def trim_end_nul_def trim_end_while_def is_whitespace_def APPLE_VENDOR_ID_def miss_def Let_def)

lemma example_devices: "get_devices (\<lambda>m. sorted_list_of_set (dom m)) example_scanner = [example_usb]"
  by (simp add: get_devices_def device_values_def example_scanner_def)

end
