(* ===== verification/Device_Manager.thy ===== *)
theory Device_Manager
  imports Device_Link Device_Scanner
begin

text \<open>
  The rest of \<open>daemon/device_manager.rs\<close> and the tasks around it: the map of managed devices
  with their channels, adding and removing devices, the per-device processing task, the USB
  reader (\<open>daemon/usb.rs\<close>) and the scan loop of \<open>daemon/mod.rs\<close> that drives the manager from the
  scanner's changes. Opening the USB interface belongs to \<open>rusb\<close>: its outcome is an argument.
  A bounded channel is the list of the messages in it; its capacity comes from the
  configuration.
\<close>

section \<open>Messages and managed devices\<close>

datatype mux_out_msg = Data u16 bytes | WindowUpdate u16

record managed_device =
  md_device_id :: u32
  md_data :: "mux_out_msg list"
  md_connects :: "connect_request list"
  md_task_running :: bool
  md_refcount :: u32

record device_manager =
  dm_devices :: "u32 \<rightharpoonup> managed_device"
  dm_conn_mgr :: devices
  dm_metrics :: metrics

definition dm_new :: "metrics \<Rightarrow> device_manager" where
  "dm_new m = \<lparr>dm_devices = Map.empty, dm_conn_mgr = cm_new, dm_metrics = m\<rparr>"

definition increment_refcount :: "device_manager \<Rightarrow> u32 \<Rightarrow> device_manager" where
  "increment_refcount dm i =
     (case dm_devices dm i of
        Some dev \<Rightarrow> dm\<lparr>dm_devices := (dm_devices dm)(i \<mapsto> dev\<lparr>md_refcount := md_refcount dev + 1\<rparr>)\<rparr>
      | None \<Rightarrow> dm)"

definition decrement_refcount :: "device_manager \<Rightarrow> u32 \<Rightarrow> device_manager" where
  "decrement_refcount dm i =
     (case dm_devices dm i of
        Some dev \<Rightarrow> dm\<lparr>dm_devices := (dm_devices dm)
          (i \<mapsto> dev\<lparr>md_refcount := saturating_sub32 (md_refcount dev) 1\<rparr>)\<rparr>
      | None \<Rightarrow> dm)"

definition is_managed :: "device_manager \<Rightarrow> u32 \<Rightarrow> bool" where
  "is_managed dm i \<longleftrightarrow> dm_devices dm i \<noteq> None"

section \<open>Adding and removing devices\<close>

text \<open>The search for the device with the serial in a new enumeration of the bus.\<close>

definition matches_serial :: "rstr \<Rightarrow> bus_entry \<Rightarrow> bool" where
  "matches_serial serial e \<longleftrightarrow>
     (case be_descriptor e of
        Some (vendor, product) \<Rightarrow> vendor = 0x05AC
          \<and> (case be_serial e of Some s \<Rightarrow> trim_end_nul (trim s) = serial | None \<Rightarrow> False)
      | None \<Rightarrow> False)"

text \<open>
  \<open>open_usb\<close> is the result of opening and claiming the mux interface of the entry found, \<open>bus\<close>
  the enumeration (\<open>None\<close> when it fails).
\<close>

definition claim_usb :: "bus_entry list option \<Rightarrow> (bus_entry \<Rightarrow> bool) \<Rightarrow> usb_device \<Rightarrow> bool" where
  "claim_usb bus open_usb dev =
     (case bus of
        None \<Rightarrow> False
      | Some entries \<Rightarrow>
          (case find (matches_serial (u_udid dev)) entries of None \<Rightarrow> False | Some e \<Rightarrow> open_usb e))"

definition managed_new :: "u32 \<Rightarrow> managed_device" where
  "managed_new i = \<lparr>md_device_id = i, md_data = [], md_connects = [], md_task_running = True, md_refcount = 0\<rparr>"

definition add_device ::
  "bus_entry list option \<Rightarrow> (bus_entry \<Rightarrow> bool) \<Rightarrow> usb_out \<Rightarrow> device_manager \<Rightarrow> usb_device
   \<Rightarrow> device_manager \<times> bytes list" where
  "add_device bus open_usb usb dm dev =
     (let i = u_device_id dev in
      if dm_devices dm i \<noteq> None then (dm, [])
      else if \<not> claim_usb bus open_usb dev then (dm, [])
      else
        (dm\<lparr>dm_devices := (dm_devices dm)(i \<mapsto> managed_new i),
            dm_conn_mgr := cm_add_device (dm_conn_mgr dm) i\<rparr>,
         case usb build_version_request of Some e \<Rightarrow> [] | None \<Rightarrow> [build_version_request]))"

definition remove_device :: "device_manager \<Rightarrow> u32 \<Rightarrow> device_manager" where
  "remove_device dm i = dm\<lparr>dm_devices := (dm_devices dm)(i := None),
     dm_conn_mgr := cm_remove_device (dm_conn_mgr dm) i\<rparr>"

definition handle_usb_disconnect :: "device_manager \<Rightarrow> u32 \<Rightarrow> device_manager" where
  "handle_usb_disconnect dm i = dm\<lparr>dm_conn_mgr := cleanup_device_connections (dm_conn_mgr dm) i,
     dm_devices := (dm_devices dm)(i := None)\<rparr>"

text \<open>
  \<open>DeviceManager::connect\<close> up to the wait for the answer: the request is put on the device's
  channel unless that is full or its task has stopped.
\<close>

definition connect_enqueue ::
  "usize \<Rightarrow> device_manager \<Rightarrow> u32 \<Rightarrow> u16 \<Rightarrow> u32 \<Rightarrow> (rstr, unit) res \<times> device_manager" where
  "connect_enqueue connect_channel dm i dport tag =
     (case dm_devices dm i of
        None \<Rightarrow> (Err (lit ''device not found''), dm)
      | Some dev \<Rightarrow>
          if \<not> md_task_running dev then (Err (lit ''device processing task stopped''), dm)
          else if connect_channel \<le> length (md_connects dev)
            then (Err (lit ''device busy (too many pending connects)''), dm)
          else (Ok (), dm\<lparr>dm_devices := (dm_devices dm)(i \<mapsto> dev\<lparr>md_connects :=
                  md_connects dev @ [\<lparr>cr_device_id = i, cr_dport = dport, cr_tag = tag\<rparr>]\<rparr>)\<rparr>))"

text \<open>The answer as the caller gets it; \<open>None\<close> when the task dropped the request.\<close>

definition connect_answer :: "rstr \<Rightarrow> (rstr, u16) res option \<Rightarrow> (rstr, u16) res" where
  "connect_answer recv_error resp =
     (case resp of Some r \<Rightarrow> r | None \<Rightarrow> Err (lit ''channel recv failed: '' @ recv_error))"

text \<open>
  The whole of \<open>DeviceManager::connect\<close>: \<open>tasks\<close> is what the other tasks do to the manager
  until the answer \<open>resp\<close> arrives.
\<close>

definition dm_connect ::
  "usize \<Rightarrow> (device_manager \<Rightarrow> device_manager) \<Rightarrow> rstr \<Rightarrow> (rstr, u16) res option
   \<Rightarrow> device_manager \<Rightarrow> u32 \<Rightarrow> u16 \<Rightarrow> u32 \<Rightarrow> (rstr, u16) res \<times> device_manager" where
  "dm_connect connect_channel tasks recv_error resp dm i dport tag =
     (case connect_enqueue connect_channel dm i dport tag of
        (Ok _, dm1) \<Rightarrow> (connect_answer recv_error resp, tasks dm1)
      | (Err e, dm1) \<Rightarrow> (Err e, dm1)
      | (Panic, dm1) \<Rightarrow> (Panic, dm1))"

section \<open>The processing task\<close>

datatype task_event =
    UsbData bytes
  | UsbClosed
  | OutMsg mux_out_msg
  | DataClosed
  | ConnectReq connect_request
  | ConnectClosed

record device_task =
  t_reassembler :: reassembler
  t_version_negotiated :: bool
  t_running :: bool

definition task_new :: "usize \<Rightarrow> device_task" where
  "task_new max_reassembly_bytes = \<lparr>t_reassembler = reassembler_new max_reassembly_bytes,
     t_version_negotiated = False, t_running = True\<rparr>"

text \<open>
  One turn of the \<open>select!\<close> loop: the new task and manager, the packets written, and the
  connection requests for which a task is spawned. The cleanup after the loop follows its break.
\<close>

fun task_step ::
  "conn_iter \<Rightarrow> usb_out \<Rightarrow> usize \<Rightarrow> u32 \<Rightarrow> device_task \<Rightarrow> device_manager \<Rightarrow> task_event
   \<Rightarrow> device_task \<times> device_manager \<times> bytes list \<times> connect_request list" where
  "task_step iter usb mx i t dm (UsbData raw_data) =
     (let (r, devs, neg, m, sent) =
            usb_input iter usb mx i (t_reassembler t) (dm_conn_mgr dm) (t_version_negotiated t) (dm_metrics dm) raw_data
      in (t\<lparr>t_reassembler := r, t_version_negotiated := neg\<rparr>, dm\<lparr>dm_conn_mgr := devs, dm_metrics := m\<rparr>, sent, []))"
| "task_step iter usb mx i t dm UsbClosed =
     (let dm1 = handle_usb_disconnect dm i
      in (t\<lparr>t_running := False\<rparr>, dm1\<lparr>dm_conn_mgr := cleanup_device_connections (dm_conn_mgr dm1) i\<rparr>, [], []))"
| "task_step iter usb mx i t dm (OutMsg (Data sport payload)) =
     (let (devs, m, sent) = send_client_data usb (dm_conn_mgr dm) i sport payload (dm_metrics dm)
      in (t, dm\<lparr>dm_conn_mgr := devs, dm_metrics := m\<rparr>, sent, []))"
| "task_step iter usb mx i t dm (OutMsg (WindowUpdate sport)) =
     (let (devs, m, sent) = send_window_update usb (dm_conn_mgr dm) i sport mx (dm_metrics dm)
      in (t, dm\<lparr>dm_conn_mgr := devs, dm_metrics := m\<rparr>, sent, []))"
| "task_step iter usb mx i t dm DataClosed = (t\<lparr>t_running := False\<rparr>, dm, [], [])"
| "task_step iter usb mx i t dm (ConnectReq req) = (t, dm, [], [req])"
| "task_step iter usb mx i t dm ConnectClosed = (t\<lparr>t_running := False\<rparr>, dm, [], [])"

fun task_loop ::
  "conn_iter \<Rightarrow> usb_out \<Rightarrow> usize \<Rightarrow> u32 \<Rightarrow> device_task \<Rightarrow> device_manager \<Rightarrow> task_event list
   \<Rightarrow> device_task \<times> device_manager \<times> bytes list \<times> connect_request list" where
  "task_loop iter usb mx i t dm [] = (t, dm, [], [])"
| "task_loop iter usb mx i t dm (ev # evs) =
     (if t_running t then
        let (t1, dm1, s1, q1) = task_step iter usb mx i t dm ev;
            (t2, dm2, s2, q2) = task_loop iter usb mx i t1 dm1 evs
        in (t2, dm2, s1 @ s2, q1 @ q2)
      else (t, dm, [], []))"

section \<open>The USB reader\<close>

text \<open>One element per bulk read: the bytes read or the text of the error. \<open>sink_open\<close> tells
  whether the channel still accepts the chunk.\<close>

definition is_timeout :: "rstr \<Rightarrow> bool" where
  "is_timeout msg \<longleftrightarrow> contains_str msg (lit ''Timeout'') \<or> contains_str msg (lit ''timed out'')"

fun read_worker :: "(bytes \<Rightarrow> bool) \<Rightarrow> metrics \<Rightarrow> (rstr, bytes) res list \<Rightarrow> metrics \<times> bytes list" where
  "read_worker sink_open m [] = (m, [])"
| "read_worker sink_open m (Ok data # rs) =
     (if 0 < length data then
        let m1 = count_usb_rx (length data) m in
        if sink_open data then let (m2, cs) = read_worker sink_open m1 rs in (m2, data # cs)
        else (m1, [])
      else read_worker sink_open m rs)"
| "read_worker sink_open m (Err msg # rs) =
     (if is_timeout msg then read_worker sink_open m rs else (m, []))"
| "read_worker sink_open m (Panic # rs) = (m, [])"

text \<open>\<open>UsbReader\<close> starts exactly one such worker per device, on its own interface and channel.\<close>

record usb_reader =
  ur_reads :: "(rstr, bytes) res list"
  ur_packet_tx :: "bytes \<Rightarrow> bool"
  ur_metrics :: metrics

definition usb_reader_new :: "(rstr, bytes) res list \<Rightarrow> (bytes \<Rightarrow> bool) \<Rightarrow> metrics \<Rightarrow> usb_reader" where
  "usb_reader_new usb packet_tx m = \<lparr>ur_reads = usb, ur_packet_tx = packet_tx, ur_metrics = m\<rparr>"

definition usb_reader_spawn :: "usb_reader \<Rightarrow> metrics \<times> bytes list" where
  "usb_reader_spawn r = read_worker (ur_packet_tx r) (ur_metrics r) (ur_reads r)"

record usb_packet =
  up_data :: bytes

definition usb_packet_len :: "usb_packet \<Rightarrow> usize" where
  "usb_packet_len p = length (up_data p)"

definition usb_packet_is_empty :: "usb_packet \<Rightarrow> bool" where
  "usb_packet_is_empty p \<longleftrightarrow> up_data p = []"

text \<open>The interface descriptors of a device, and the search for the mux interface.\<close>

datatype transfer_type = Bulk | OtherTransfer

datatype direction = In | Out

record endpoint_descriptor =
  ep_transfer_type :: transfer_type
  ep_direction :: direction
  ep_address :: u8

record interface_descriptor =
  if_number :: u8
  if_class :: u8
  if_subclass :: u8
  if_protocol :: u8
  if_endpoints :: "endpoint_descriptor list"

definition MUX_CLASS :: u8 where "MUX_CLASS = 255"

definition MUX_SUBCLASS :: u8 where "MUX_SUBCLASS = 254"

definition MUX_PROTOCOL :: u8 where "MUX_PROTOCOL = 2"

fun bulk_endpoints :: "u8 \<Rightarrow> u8 \<Rightarrow> endpoint_descriptor list \<Rightarrow> u8 \<times> u8" where
  "bulk_endpoints rd wr [] = (rd, wr)"
| "bulk_endpoints rd wr (ep # eps) =
     (if ep_transfer_type ep = Bulk then
        (case ep_direction ep of
           In \<Rightarrow> bulk_endpoints (ep_address ep) wr eps
         | Out \<Rightarrow> bulk_endpoints rd (ep_address ep) eps)
      else bulk_endpoints rd wr eps)"

fun find_mux_loop :: "(u8 \<times> u8 \<times> u8) option \<Rightarrow> interface_descriptor list \<Rightarrow> (rstr, u8 \<times> u8 \<times> u8) res" where
  "find_mux_loop fallback [] =
     (case fallback of Some c \<Rightarrow> Ok c | None \<Rightarrow> Err (lit ''could not find mux endpoints''))"
| "find_mux_loop fallback (desc # ds) =
     (let is_mux = if_class desc = MUX_CLASS \<and> if_subclass desc = MUX_SUBCLASS \<and> if_protocol desc = MUX_PROTOCOL;
          (read_ep, write_ep) = bulk_endpoints 0 0 (if_endpoints desc) in
      if read_ep = 0 \<or> write_ep = 0 then find_mux_loop fallback ds
      else
        let candidate = (if_number desc, read_ep, write_ep) in
        if is_mux then Ok candidate
        else find_mux_loop (if fallback = None then Some candidate else fallback) ds)"

text \<open>The argument: the interfaces' descriptors in order, or why the configuration cannot be read.\<close>

definition find_mux_interface :: "(rstr, interface_descriptor list) res \<Rightarrow> (rstr, u8 \<times> u8 \<times> u8) res" where
  "find_mux_interface config = res_bind config (find_mux_loop None)"

text \<open>
  Opening the interface: what \<open>rusb\<close> answers to opening the device, to the query for a kernel
  driver and to detaching it, and to claiming the interface. A driver that cannot be detached is
  only logged.
\<close>

record apple_mux_interface =
  am_interface :: u8
  am_read_endpoint :: u8
  am_write_endpoint :: u8
  am_io_timeout :: nat

record rusb_device =
  ru_open :: "rstr option"
  ru_config :: "(rstr, interface_descriptor list) res"
  ru_kernel_driver_active :: "u8 \<Rightarrow> (rstr, bool) res"
  ru_detach_kernel_driver :: "u8 \<Rightarrow> rstr option"
  ru_claim_interface :: "bool \<Rightarrow> u8 \<Rightarrow> rstr option"

text \<open>\<open>ru_claim_interface\<close> may depend on whether a kernel driver still holds the interface.\<close>

definition driver_holds :: "rusb_device \<Rightarrow> u8 \<Rightarrow> bool" where
  "driver_holds dev i = (ru_kernel_driver_active dev i = Ok True \<and> ru_detach_kernel_driver dev i \<noteq> None)"

definition mux_open :: "rusb_device \<Rightarrow> nat \<Rightarrow> (mux_error, apple_mux_interface) res" where
  "mux_open dev io_timeout =
     (case ru_open dev of
        Some e \<Rightarrow> Err (UsbError (lit ''open: '' @ e))
      | None \<Rightarrow>
          (case find_mux_interface (ru_config dev) of
             Err e \<Rightarrow> Err (UsbError (lit ''find interface: '' @ e))
           | Panic \<Rightarrow> Panic
           | Ok (interface_num, read_ep, write_ep) \<Rightarrow>
               (case ru_claim_interface dev (driver_holds dev interface_num) interface_num of
                  Some e \<Rightarrow> Err (UsbError (lit ''claim iface '' @ show_nat (unat interface_num) @ lit '': '' @ e))
                | None \<Rightarrow> Ok \<lparr>am_interface = interface_num, am_read_endpoint = read_ep, am_write_endpoint = write_ep,
                             am_io_timeout = io_timeout\<rparr>)))"

text \<open>The bulk transfers: \<open>write_bulk\<close> and \<open>read_bulk\<close> take the endpoint and the timeout. How much of
  the data a write transferred is not looked at.\<close>

definition mux_send :: "(u8 \<Rightarrow> bytes \<Rightarrow> nat \<Rightarrow> (rstr, usize) res) \<Rightarrow> apple_mux_interface \<Rightarrow> bytes \<Rightarrow> (mux_error, unit) res" where
  "mux_send write_bulk self data =
     (case write_bulk (am_write_endpoint self) data (am_io_timeout self) of
        Ok n \<Rightarrow> Ok () | Err e \<Rightarrow> Err (UsbError e) | Panic \<Rightarrow> Panic)"

definition mux_read :: "(u8 \<Rightarrow> usize \<Rightarrow> nat \<Rightarrow> (rstr, bytes) res) \<Rightarrow> apple_mux_interface \<Rightarrow> usize \<Rightarrow> nat \<Rightarrow> (rstr, bytes) res" where
  "mux_read read_bulk self room timeout = read_bulk (am_read_endpoint self) room timeout"

datatype mux_event =
    DeviceAdded u32 u16 rstr rstr
  | DeviceRemoved u32

definition CONTROL_DEVICE_ADD :: u8 where "CONTROL_DEVICE_ADD = 2"

definition CONTROL_DEVICE_REMOVE :: u8 where "CONTROL_DEVICE_REMOVE = 3"

definition parse_control_message :: "u8 \<Rightarrow> bytes \<Rightarrow> mux_event option" where
  "parse_control_message message payload =
     (if message = CONTROL_DEVICE_ADD then
        (case read_be32 payload 0 of
           Some i \<Rightarrow>
             Some (DeviceAdded i (case read_be16 payload 4 of Some p \<Rightarrow> p | None \<Rightarrow> 0)
                     (lit ''USB'') (lit ''Unknown''))
         | None \<Rightarrow> None)
      else if message = CONTROL_DEVICE_REMOVE then
        map_option DeviceRemoved (read_be32 payload 0)
      else None)"

section \<open>The scan loop\<close>

text \<open>The environment of an \<open>add_device\<close> call: the bus, the outcome of opening, the outcome of a send.\<close>

type_synonym usb_env = "bus_entry list option \<times> (bus_entry \<Rightarrow> bool) \<times> usb_out"

definition add_in :: "usb_env \<Rightarrow> device_manager \<Rightarrow> usb_device \<Rightarrow> device_manager" where
  "add_in env dm dev = (case env of (bus, open_usb, usb) \<Rightarrow> fst (add_device bus open_usb usb dm dev))"

definition claimable :: "usb_env \<Rightarrow> usb_device \<Rightarrow> bool" where
  "claimable env dev = (case env of (bus, open_usb, usb) \<Rightarrow> claim_usb bus open_usb dev)"

fun follow_changes :: "usb_env \<Rightarrow> device_manager \<Rightarrow> device_change list \<Rightarrow> device_manager" where
  "follow_changes env dm [] = dm"
| "follow_changes env dm (Attached dev # ch) = follow_changes env (add_in env dm dev) ch"
| "follow_changes env dm (Detached i # ch) = follow_changes env (remove_device dm i) ch"

fun reconcile :: "usb_env \<Rightarrow> device_manager \<Rightarrow> usb_device list \<Rightarrow> device_manager" where
  "reconcile env dm [] = dm"
| "reconcile env dm (dev # devs) =
     reconcile env (if \<not> is_managed dm (u_device_id dev) then add_in env dm dev else dm) devs"

text \<open>One round of the loop, with the environment of each of its two halves; the last component is
  what is broadcast to the listening clients.\<close>

definition scan_tick ::
  "usb_iter \<Rightarrow> (rstr, bus_entry list) res option \<Rightarrow> usb_env \<Rightarrow> usb_env \<Rightarrow> device_scanner \<Rightarrow> device_manager
   \<Rightarrow> device_scanner \<times> device_manager \<times> device_change list" where
  "scan_tick iter ctx env1 env2 sc dm =
     (let (sc', changes) = scan iter sc ctx;
          dm1 = follow_changes env1 dm changes;
          dm2 = reconcile env2 dm1 (get_devices iter sc');
          dm3 = dm2\<lparr>dm_metrics := (dm_metrics dm2)\<lparr>devices_attached := word_of_nat (length (get_devices iter sc'))\<rparr>\<rparr>
      in (sc', dm3, changes))"

section \<open>Lemmas on the manager\<close>

lemma add_in_devices:
  "dm_devices (add_in env dm dev) =
     (if dm_devices dm (u_device_id dev) = None \<and> claimable env dev
      then (dm_devices dm)(u_device_id dev \<mapsto> managed_new (u_device_id dev)) else dm_devices dm)"
  by (auto simp: add_in_def claimable_def add_device_def Let_def split: prod.splits)

lemma remove_device_devices [simp]: "dm_devices (remove_device dm i) = (dm_devices dm)(i := None)"
  by (simp add: remove_device_def)

lemma follow_changes_dom:
  "dom (dm_devices dm) \<subseteq> dom devs \<Longrightarrow> dom (dm_devices (follow_changes env dm ch)) \<subseteq> dom (replay devs ch)"
proof (induction ch arbitrary: dm devs)
  case (Cons c ch)
  have "dom (dm_devices (follow_changes env dm [c])) \<subseteq> dom (apply_change devs c)"
    using Cons.prems by (cases c) (auto simp: add_in_devices split: if_splits)
  with Cons.IH show ?case by (cases c) (simp_all add: fun_upd_def)
qed simp

lemma reconcile_devices:
  "dom (dm_devices (reconcile env dm devs))
   = dom (dm_devices dm) \<union> u_device_id ` {d \<in> set devs. claimable env d}"
proof (induction devs arbitrary: dm)
  case (Cons d devs)
  let ?dm = "if \<not> is_managed dm (u_device_id d) then add_in env dm d else dm"
  have "dom (dm_devices ?dm) = dom (dm_devices dm) \<union> (if claimable env d then {u_device_id d} else {})"
    by (auto simp: add_in_devices is_managed_def)
  with Cons.IH [of ?dm] show ?case by auto
qed auto

lemma reconcile_keeps_metrics [simp]: "dm_metrics (reconcile env dm devs) = dm_metrics dm"
  by (induction devs arbitrary: dm)
     (auto simp: add_in_def add_device_def Let_def split: prod.splits)

lemma cm_inv_add_in [inv_intros]: "cm_inv mx (dm_conn_mgr dm) \<Longrightarrow> cm_inv mx (dm_conn_mgr (add_in env dm dev))"
  by (auto simp: add_in_def add_device_def Let_def split: prod.splits intro: inv_intros)

text \<open>A turn of the processing task is a run of critical sections of the table.\<close>

lemma task_step_steps:
  "(link_step iter mx)\<^sup>*\<^sup>* (dm_conn_mgr dm) (dm_conn_mgr (fst (snd (task_step iter usb mx i t dm ev))))"
proof (cases ev)
  case (UsbData raw)
  then show ?thesis
    using process_packets_steps [of iter mx "dm_conn_mgr dm" usb i "t_version_negotiated t"]
    by (auto simp: usb_input_def split: prod.splits) (metis fst_conv)
next
  case UsbClosed
  let ?devs = "cleanup_device_connections (dm_conn_mgr dm) i"
  have "(link_step iter mx)\<^sup>*\<^sup>* (dm_conn_mgr dm) (cleanup_device_connections ?devs i)"
    using step_cleanup [of iter mx "dm_conn_mgr dm" i] step_cleanup [of iter mx ?devs i] by simp
  with UsbClosed show ?thesis by (simp add: handle_usb_disconnect_def)
next
  case (OutMsg msg)
  then show ?thesis
    using send_client_data_steps [of iter mx "dm_conn_mgr dm" usb i _ _ "dm_metrics dm"]
      send_window_update_steps [of iter mx "dm_conn_mgr dm" usb i _ mx "dm_metrics dm"]
    by (cases msg) (auto split: prod.splits, metis fst_conv, metis fst_conv)
qed simp_all

lemma task_loop_steps:
  "(link_step iter mx)\<^sup>*\<^sup>* (dm_conn_mgr dm) (dm_conn_mgr (fst (snd (task_loop iter usb mx i t dm evs))))"
proof (induction evs arbitrary: t dm)
  case (Cons ev evs)
  obtain t1 dm1 s1 q1 where one: "task_step iter usb mx i t dm ev = (t1, dm1, s1, q1)" by (metis prod_cases4)
  have "(link_step iter mx)\<^sup>*\<^sup>* (dm_conn_mgr dm) (dm_conn_mgr dm1)"
    using task_step_steps [of iter mx dm usb i t ev] one by simp
  with Cons [of dm1 t1] one show ?case by (auto split: prod.splits intro: rtranclp_trans)
qed simp

lemma cm_inv_steps: "(link_step iter mx)\<^sup>*\<^sup>* devs devs' \<Longrightarrow> cm_inv mx devs \<Longrightarrow> cm_inv mx devs'"
  by (induction rule: rtranclp_induct) (auto intro: cm_inv_link_step)

section \<open>Lemmas on the USB layer\<close>

definition iface_candidate :: "interface_descriptor \<Rightarrow> u8 \<times> u8 \<times> u8" where
  "iface_candidate desc = (if_number desc, bulk_endpoints 0 0 (if_endpoints desc))"

definition iface_usable :: "interface_descriptor \<Rightarrow> bool" where
  "iface_usable desc \<longleftrightarrow> fst (bulk_endpoints 0 0 (if_endpoints desc)) \<noteq> 0 \<and> snd (bulk_endpoints 0 0 (if_endpoints desc)) \<noteq> 0"

definition iface_is_mux :: "interface_descriptor \<Rightarrow> bool" where
  "iface_is_mux desc \<longleftrightarrow> if_class desc = 255 \<and> if_subclass desc = 254 \<and> if_protocol desc = 2"

lemma find_mux_loop_spec:
  "find_mux_loop fallback ds =
     (case find (\<lambda>d. iface_is_mux d \<and> iface_usable d) ds of
        Some d \<Rightarrow> Ok (iface_candidate d)
      | None \<Rightarrow>
          (case fallback of
             Some c \<Rightarrow> Ok c
           | None \<Rightarrow> (case find iface_usable ds of
                 Some d \<Rightarrow> Ok (iface_candidate d)
               | None \<Rightarrow> Err (lit ''could not find mux endpoints''))))"
  by (induction ds arbitrary: fallback)
     (auto simp: iface_is_mux_def iface_usable_def iface_candidate_def MUX_CLASS_def MUX_SUBCLASS_def
        MUX_PROTOCOL_def case_prod_beta Let_def split: option.splits)

fun read_continues :: "(rstr, bytes) res \<Rightarrow> bool" where
  "read_continues (Ok _) = True"
| "read_continues (Err msg) = is_timeout msg"
| "read_continues Panic = False"

fun read_bytes :: "(rstr, bytes) res \<Rightarrow> bytes" where
  "read_bytes (Ok data) = data"
| "read_bytes _ = []"

lemma read_worker_chunks:
  "snd (read_worker (\<lambda>_. True) m rs) = filter (\<lambda>c. c \<noteq> []) (map read_bytes (takeWhile read_continues rs))"
  by (induction "\<lambda>_ :: bytes. True" m rs rule: read_worker.induct) (auto simp: case_prod_beta Let_def)

section \<open>Properties\<close>

text \<open>C22: One round of the scan loop leaves the manager in step with the scanner. Starting with
  no managed device that the scanner does not know, on a bus that lists no two entries at one
  address and with device numbers left for its entries, after the round again only known devices
  are managed, every known device whose interface can be claimed when the round reconciles is
  managed (also one whose claim failed on attachment), the gauge counts the known devices, and
  exactly the scanner's changes are broadcast.\<close>

theorem scan_tick_reconciles:
  assumes "hash_iter iter" and "dom (dm_devices dm) \<subseteq> dom (sc_devices sc)"
    and "scan_tick iter ctx env1 env2 sc dm = (sc', dm', broadcast)"
    and "sc_inv sc" and "bus_ok ctx" and "unat (sc_next_id sc) + bus_count ctx < 2 ^ 32"
  shows "dom (dm_devices dm') \<subseteq> dom (sc_devices sc')
    \<and> (\<forall>i dev. sc_devices sc' i = Some dev \<longrightarrow> claimable env2 dev \<longrightarrow> is_managed dm' i)
    \<and> devices_attached (dm_metrics dm') = word_of_nat (card (dom (sc_devices sc')))
    \<and> scan iter sc ctx = (sc', broadcast)"
proof -
  let ?dm1 = "follow_changes env1 dm broadcast"
  from assms(3) have scan: "scan iter sc ctx = (sc', broadcast)"
    and dm': "dm_devices dm' = dm_devices (reconcile env2 ?dm1 (get_devices iter sc'))"
      "devices_attached (dm_metrics dm') = word_of_nat (length (get_devices iter sc'))"
    by (auto simp: scan_tick_def Let_def split: prod.splits)
  have known: "dom (dm_devices ?dm1) \<subseteq> dom (sc_devices sc')"
    using follow_changes_dom [OF assms(2), of env1 broadcast] scan_replay [OF scan] by simp
  have "sc_inv sc'" using scan_correct [OF assms(1,4-6) scan] by blast
  then have id: "sc_devices sc' i = Some dev \<Longrightarrow> u_device_id dev = i" for i dev
    using sc_invD(1) by (auto simp: ids_below_def)
  have dom': "dom (dm_devices dm') = dom (dm_devices ?dm1) \<union> u_device_id ` {d \<in> ran (sc_devices sc'). claimable env2 d}"
    unfolding dm' reconcile_devices get_devices_def set_device_values [OF assms(1)] ..
  have "u_device_id ` {d \<in> ran (sc_devices sc'). claimable env2 d} \<subseteq> dom (sc_devices sc')"
  proof clarify
    fix d assume "d \<in> ran (sc_devices sc')"
    then obtain j where "sc_devices sc' j = Some d" by (auto simp: ran_def)
    with id [OF this] show "\<exists>y. sc_devices sc' (u_device_id d) = Some y" by blast
  qed
  with dom' known have "dom (dm_devices dm') \<subseteq> dom (sc_devices sc')" by blast
  moreover have "i \<in> dom (dm_devices dm')" if "sc_devices sc' i = Some dev" "claimable env2 dev" for i dev
  proof -
    have "dev \<in> {d \<in> ran (sc_devices sc'). claimable env2 d}" using that by (auto intro: ranI)
    then have "u_device_id dev \<in> dom (dm_devices dm')" unfolding dom' by blast
    with id [OF that(1)] show ?thesis by simp
  qed
  moreover have "length (get_devices iter sc') = card (dom (sc_devices sc'))"
    using hash_iterD [OF assms(1), of "sc_devices sc'"] distinct_card [of "iter (sc_devices sc')"]
    by (simp add: get_devices_def device_values_def)
  ultimately show ?thesis using scan dm'(2) unfolding is_managed_def domIff [symmetric] by simp
qed

theorem scan_tick_reconciles_witness:
  "\<exists>dm'. scan_tick (\<lambda>m. sorted_list_of_set (dom m)) (Some (Ok [example_entry])) (None, \<lambda>_. True, \<lambda>_. None)
       (Some [example_entry], \<lambda>_. True, \<lambda>_. None) scanner_new (dm_new (metrics_new 0))
       = (example_scanner, dm', [Attached example_usb])
     \<and> sc_devices example_scanner 1 = Some example_usb
     \<and> \<not> is_managed (follow_changes (None, \<lambda>_. True, \<lambda>_. None) (dm_new (metrics_new 0)) [Attached example_usb]) 1
     \<and> is_managed dm' 1 \<and> devices_attached (dm_metrics dm') = 1"
proof -
  let ?iter = "\<lambda>m :: u32 \<rightharpoonup> usb_device. sorted_list_of_set (dom m)"
  let ?env2 = "(Some [example_entry], \<lambda>_. True, \<lambda>_. None) :: usb_env"
  let ?tick = "scan_tick ?iter (Some (Ok [example_entry])) (None, \<lambda>_. True, \<lambda>_. None) ?env2 scanner_new (dm_new (metrics_new 0))"
  let ?dm = "fst (snd ?tick)"
  have tick: "?tick = (example_scanner, ?dm, [Attached example_usb])"
    by (simp add: scan_tick_def example_scan Let_def)
  have dom0: "dom (dm_devices (dm_new (metrics_new 0))) \<subseteq> dom (sc_devices scanner_new)" by (simp add: dm_new_def)
  have room: "unat (sc_next_id scanner_new) + bus_count (Some (Ok [example_entry])) < 2 ^ 32" by (simp add: scanner_new_def)
  have "bus_ok (Some (Ok [example_entry]))" by simp
  note round = scan_tick_reconciles [OF hash_iter_witness dom0 tick sc_inv_new this room]
  have dev: "sc_devices example_scanner 1 = Some example_usb" "dom (sc_devices example_scanner) = {1}"
    by (auto simp: example_scanner_def)
  have "claimable ?env2 example_usb"
    by (simp add: claimable_def claim_usb_def matches_serial_def example_entry_def example_usb_def trim_def
        trim_end_nul_def trim_end_while_def is_whitespace_def)
  with round dev have "is_managed ?dm 1" "devices_attached (dm_metrics ?dm) = 1" by auto
  moreover have "\<not> is_managed (follow_changes (None, \<lambda>_. True, \<lambda>_. None) (dm_new (metrics_new 0)) [Attached example_usb]) 1"
    by (simp add: is_managed_def add_in_devices claimable_def claim_usb_def dm_new_def)
  ultimately show ?thesis using tick dev(1) by blast
qed

text \<open>The processing task keeps the connection table well formed through any sequence of
  USB chunks (valid or not), client messages, connection requests and disconnects. When the USB
  channel closes, the task stops at once, the device is no longer managed and each of its
  connections is dead and has been notified.\<close>

theorem task_loop_safe:
  assumes "cm_inv mx (dm_conn_mgr dm)" and "task_loop iter usb mx i t dm (evs @ [UsbClosed]) = (t', dm', sent, reqs)"
    and "t_running (fst (task_loop iter usb mx i t dm evs))"
  shows "cm_inv mx (dm_conn_mgr dm') \<and> \<not> t_running t' \<and> \<not> is_managed dm' i
    \<and> (\<forall>d k c. dm_conn_mgr dm' i = Some d \<longrightarrow> d_connections d k = Some c \<longrightarrow>
          c_state c = Dead \<and> 0 < notify_one_calls (c_data_notify c))"
proof -
  have split: "task_loop iter usb mx i t dm (evs @ [ev]) =
      (let (t1, dm1, s1, q1) = task_loop iter usb mx i t dm evs in
       if t_running t1 then let (t2, dm2, s2, q2) = task_step iter usb mx i t1 dm1 ev in (t2, dm2, s1 @ s2, q1 @ q2)
       else (t1, dm1, s1, q1))" for ev
    by (induction evs arbitrary: t dm) (auto simp: Let_def split: prod.splits)
  have "cm_inv mx (dm_conn_mgr dm')"
    using cm_inv_steps [OF task_loop_steps [of iter mx dm usb i t "evs @ [UsbClosed]"] assms(1)] assms(2) by simp
  moreover obtain t1 dm1 s1 q1 where before: "task_loop iter usb mx i t dm evs = (t1, dm1, s1, q1)"
    by (metis prod_cases4)
  moreover from this assms(2,3) split [of UsbClosed] have "\<not> t_running t'"
    "dm_devices dm' = (dm_devices dm1)(i := None)"
    "dm_conn_mgr dm' = cleanup_device_connections (cleanup_device_connections (dm_conn_mgr dm1) i) i"
    by (auto simp: handle_usb_disconnect_def)
  ultimately show ?thesis
    by (auto simp: is_managed_def cleanup_device_connections_def kill_conn_def notify_one_def
        split: option.splits)
qed

theorem task_loop_safe_witness:
  "\<exists>t' dm' sent reqs. task_loop (\<lambda>m. sorted_list_of_set (dom m)) (\<lambda>_. None) 64 1 (task_new 64)
       ((dm_new (metrics_new 0))\<lparr>dm_conn_mgr := example_devs\<rparr>) ([OutMsg (Data 1024 [7])] @ [UsbClosed])
     = (t', dm', sent, reqs) \<and> \<not> t_running t' \<and> cm_inv 64 (dm_conn_mgr dm')"
proof -
  let ?dm = "(dm_new (metrics_new 0))\<lparr>dm_conn_mgr := example_devs\<rparr>"
  let ?iter = "\<lambda>m :: u16 \<rightharpoonup> connection. sorted_list_of_set (dom m)"
  obtain t' dm' sent reqs where run: "task_loop ?iter (\<lambda>_. None) 64 1 (task_new 64) ?dm
      ([OutMsg (Data 1024 [7])] @ [UsbClosed]) = (t', dm', sent, reqs)" by (metis prod_cases4)
  have "t_running (fst (task_loop ?iter (\<lambda>_. None) 64 1 (task_new 64) ?dm [OutMsg (Data 1024 [7])]))"
    by (simp add: task_new_def case_prod_beta Let_def)
  with task_loop_safe [of 64 ?dm ?iter _ 1 "task_new 64" "[OutMsg (Data 1024 [7])]", OF _ run] run
  show ?thesis by (auto intro: cm_inv_example)
qed

text \<open>The mux interface is the first one with Apple's class triple and a bulk endpoint in each
  direction; only if no interface has both, the first one with a bulk endpoint in each direction
  is taken; if there is none either, opening fails.\<close>

theorem find_mux_interface_spec:
  "find_mux_interface (Ok ds) =
     (case find (\<lambda>d. iface_is_mux d \<and> iface_usable d) ds of
        Some d \<Rightarrow> Ok (iface_candidate d)
      | None \<Rightarrow> (case find iface_usable ds of
           Some d \<Rightarrow> Ok (iface_candidate d)
         | None \<Rightarrow> Err (lit ''could not find mux endpoints'')))"
  by (auto simp: find_mux_interface_def find_mux_loop_spec split: option.splits)

text \<open>An opened interface has been claimed and can be used: it is one of the device's, with a bulk
  endpoint in each direction, and Apple's if the device has a usable one of Apple's.\<close>

lemma opened_interface_usable:
  assumes "mux_open dev t = Ok am" and "ru_config dev = Ok ds"
  shows "\<exists>d \<in> set ds. iface_usable d \<and> iface_candidate d = (am_interface am, am_read_endpoint am, am_write_endpoint am)
    \<and> ((\<exists>d' \<in> set ds. iface_is_mux d' \<and> iface_usable d') \<longrightarrow> iface_is_mux d)
    \<and> ru_claim_interface dev (driver_holds dev (am_interface am)) (am_interface am) = None"
proof -
  have found: "find_mux_interface (Ok ds) = Ok (am_interface am, am_read_endpoint am, am_write_endpoint am)"
    and claimed: "ru_claim_interface dev (driver_holds dev (am_interface am)) (am_interface am) = None"
    using assms by (auto simp: mux_open_def split: option.splits res.splits)
  show ?thesis
  proof (cases "find (\<lambda>d. iface_is_mux d \<and> iface_usable d) ds")
    case (Some d)
    with found claimed show ?thesis by (auto simp: find_mux_interface_spec find_Some_iff intro!: bexI [of _ d])
  next
    case None
    with found obtain d where "find iface_usable ds = Some d" "iface_candidate d = (am_interface am, am_read_endpoint am, am_write_endpoint am)"
      by (auto simp: find_mux_interface_spec split: option.splits)
    with None claimed show ?thesis by (auto simp: find_None_iff find_Some_iff intro!: bexI [of _ d])
  qed
qed

text \<open>A short write is not noticed: the rest of the frame is lost and the caller is told that it
  was sent.\<close>

lemma short_write_unnoticed:
  "write_bulk (am_write_endpoint am) data (am_io_timeout am) = Ok n \<Longrightarrow> mux_send write_bulk am data = Ok ()"
  by (simp add: mux_send_def)

text \<open>The USB reader hands on every byte it reads, once and in order, up to the first error
  that is not a timeout: timeouts and empty reads do not end or disturb the stream.\<close>

theorem read_worker_in_order:
  "concat (snd (read_worker (\<lambda>_. True) m rs)) = concat (map read_bytes (takeWhile read_continues rs))"
proof -
  have "concat (filter (\<lambda>c. c \<noteq> []) xs) = concat xs" for xs :: "bytes list" by (induction xs) auto
  then show ?thesis by (simp add: read_worker_chunks)
qed

end
