(* ===== verification/Client_Proxy.thy ===== *)
theory Client_Proxy
  imports Device_Manager
begin

text \<open>
  The two directions of an established connection, from \<open>daemon/connection.rs\<close>
  (\<open>proxy_connection\<close>, \<open>proxy_loop\<close>): bytes from the device's receive buffer to the client's
  stream, bytes from the client's stream to the device's data channel. The loop shares the
  connection table with all other tasks: each of its rounds starts with what they did since
  (\<open>interfere\<close>), and carries the event it waits for when there is nothing to drain.

  The locale \<open>byte_queue\<close> states what a receive buffer promises; its interpretation is the table
  with the packet handler as producer and the proxy's drain as consumer.
\<close>

section \<open>The proxy loop\<close>

datatype proxy_event =
    Notified
  | ClientRead bytes
  | ClientError rstr

record proxy_io =
  px_channel_open :: "mux_out_msg \<Rightarrow> rstr option"
  px_write :: "bytes \<Rightarrow> rstr option"

record proxy_out =
  po_to_client :: bytes
  po_to_device :: "mux_out_msg list"

definition out_none :: proxy_out where
  "out_none = \<lparr>po_to_client = [], po_to_device = []\<rparr>"

definition out_add :: "bytes \<Rightarrow> mux_out_msg list \<Rightarrow> proxy_out \<Rightarrow> proxy_out" where
  "out_add bs msgs out = \<lparr>po_to_client = bs @ po_to_client out, po_to_device = msgs @ po_to_device out\<rparr>"

abbreviation count_client_tx :: "nat \<Rightarrow> metrics \<Rightarrow> metrics" where
  "count_client_tx n m \<equiv> m\<lparr>client_tx_bytes := client_tx_bytes m + word_of_nat n\<rparr>"

abbreviation count_client_rx :: "nat \<Rightarrow> metrics \<Rightarrow> metrics" where
  "count_client_rx n m \<equiv> m\<lparr>client_rx_bytes := client_rx_bytes m + word_of_nat n\<rparr>"

text \<open>
  The rounds of the loop. The first component of the result is \<open>None\<close> when the listed rounds end
  before the loop returns. A round that drains data leaves its event for the next one.
\<close>

function proxy_loop ::
  "proxy_io \<Rightarrow> u32 \<Rightarrow> u16 \<Rightarrow> devices \<Rightarrow> metrics \<Rightarrow> (devices \<Rightarrow> devices) list \<Rightarrow> proxy_event list
   \<Rightarrow> (rstr, unit) res option \<times> devices \<times> metrics \<times> proxy_out" where
  "proxy_loop io i sport devs m [] evs = (None, devs, m, out_none)"
| "proxy_loop io i sport devs m (interfere # rounds) evs =
     (case drain_section (interfere devs) i sport of
        (Inl r, devs1) \<Rightarrow> (Some r, devs1, m, out_none)
      | (Inr (Some data), devs1) \<Rightarrow>
          (let m1 = count_client_tx (length data) m in
           case px_write io data of
             Some e \<Rightarrow> (Some (Err e), devs1, m1, out_none)
           | None \<Rightarrow>
               (case px_channel_open io (WindowUpdate sport) of
                  Some e \<Rightarrow> (Some (Err (lit ''data channel send failed: '' @ e)), devs1, m1, out_add data [] out_none)
                | None \<Rightarrow>
                    (let (r, devs2, m2, out) = proxy_loop io i sport devs1 m1 rounds evs
                     in (r, devs2, m2, out_add data [WindowUpdate sport] out))))
      | (Inr None, devs1) \<Rightarrow>
          (case evs of
             [] \<Rightarrow> (None, devs1, m, out_none)
           | Notified # evs' \<Rightarrow> proxy_loop io i sport devs1 m rounds evs'
           | ClientError e # evs' \<Rightarrow> (Some (Err e), devs1, m, out_none)
           | ClientRead data # evs' \<Rightarrow>
               if data = [] then (Some (Ok ()), devs1, m, out_none)
               else
                 (let m1 = count_client_rx (length data) m in
                  case px_channel_open io (Data sport data) of
                    Some e \<Rightarrow> (Some (Err (lit ''data channel send failed: '' @ e)), devs1, m1, out_none)
                  | None \<Rightarrow>
                      (let (r, devs2, m2, out) = proxy_loop io i sport devs1 m1 rounds evs'
                       in (r, devs2, m2, out_add [] [Data sport data] out)))))"
  by pat_completeness auto
termination
  by (relation "measure (\<lambda>(io, i, sport, devs, m, rounds, evs). length rounds)") auto

text \<open>\<open>final\<close> is what the other tasks do before the cleanup takes the lock.\<close>

definition proxy_connection ::
  "proxy_io \<Rightarrow> (devices \<Rightarrow> devices) \<Rightarrow> u32 \<Rightarrow> u16 \<Rightarrow> devices \<Rightarrow> metrics \<Rightarrow> (devices \<Rightarrow> devices) list \<Rightarrow> proxy_event list
   \<Rightarrow> (rstr, unit) res option \<times> devices \<times> metrics \<times> proxy_out" where
  "proxy_connection io final i sport devs m rounds evs =
     (case get_data_notify devs i sport of
        None \<Rightarrow> (Some (Err (lit ''connection not found'')), devs, m, out_none)
      | Some notify \<Rightarrow>
          (case proxy_loop io i sport devs m rounds evs of
             (None, devs1, m1, out) \<Rightarrow> (None, devs1, m1, out)
           | (Some r, devs1, m1, out) \<Rightarrow> (Some r, remove_connection (final devs1) i sport, m1, out)))"

section \<open>The contract of a byte queue\<close>

datatype ('i, 'o) queue_op = Push 'i | Pull | Other 'o

fun queue_run ::
  "('s \<Rightarrow> 'i \<Rightarrow> 's) \<Rightarrow> ('s \<Rightarrow> 'i \<Rightarrow> 'b list) \<Rightarrow> ('s \<Rightarrow> 'b list \<times> 's) \<Rightarrow> ('s \<Rightarrow> 'o \<Rightarrow> 's)
   \<Rightarrow> 's \<Rightarrow> ('i, 'o) queue_op list \<Rightarrow> 'b list \<times> 'b list \<times> 's" where
  "queue_run push accepted pull other s [] = ([], [], s)"
| "queue_run push accepted pull other s (Push x # ops) =
     (let (inp, outp, s') = queue_run push accepted pull other (push s x) ops in (accepted s x @ inp, outp, s'))"
| "queue_run push accepted pull other s (Pull # ops) =
     (let (taken, s1) = pull s; (inp, outp, s') = queue_run push accepted pull other s1 ops
      in (inp, taken @ outp, s'))"
| "queue_run push accepted pull other s (Other y # ops) = queue_run push accepted pull other (other s y) ops"

locale byte_queue =
  fixes content :: "'s \<Rightarrow> 'b list"
    and push :: "'s \<Rightarrow> 'i \<Rightarrow> 's" and accepted :: "'s \<Rightarrow> 'i \<Rightarrow> 'b list"
    and pull :: "'s \<Rightarrow> 'b list \<times> 's" and other :: "'s \<Rightarrow> 'o \<Rightarrow> 's"
  assumes push_content: "content (push s x) = content s @ accepted s x"
    and pull_content: "pull s = (taken, s') \<Longrightarrow> taken @ content s' = content s"
    and other_content: "content (other s y) = content s"
begin

lemma fifo:
  "queue_run push accepted pull other s ops = (inp, outp, s') \<Longrightarrow> outp @ content s' = content s @ inp"
proof (induction ops arbitrary: s inp outp)
  case (Cons op ops)
  show ?case
  proof (cases op)
    case (Push x)
    then obtain inp' where "queue_run push accepted pull other (push s x) ops = (inp', outp, s')" "inp = accepted s x @ inp'"
      using Cons.prems by (auto split: prod.splits)
    with Cons.IH [of "push s x" inp' outp] show ?thesis by (simp add: push_content)
  next
    case Pull
    obtain taken s1 where p: "pull s = (taken, s1)" by fastforce
    with Pull obtain outp' where "queue_run push accepted pull other s1 ops = (inp, outp', s')" "outp = taken @ outp'"
      using Cons.prems by (auto split: prod.splits)
    with Cons.IH [of s1 inp outp'] pull_content [OF p] show ?thesis by (metis append_assoc)
  next
    case (Other y)
    with Cons.IH [of "other s y" inp outp] Cons.prems show ?thesis by (simp add: other_content)
  qed
qed simp

lemma conserved: "queue_run push accepted pull other s ops = (inp, outp, s') \<Longrightarrow>
   length outp + length (content s') = length (content s) + length inp"
  by (drule fifo) (metis length_append)

end

section \<open>The receive buffer as a byte queue\<close>

text \<open>The buffer of connection \<open>k\<close> on device \<open>i\<close>; empty when there is no such connection.\<close>

definition ib_content :: "u32 \<Rightarrow> u16 \<Rightarrow> devices \<Rightarrow> bytes" where
  "ib_content i k devs = (case devs i of None \<Rightarrow> [] | Some d \<Rightarrow>
     (case d_connections d k of None \<Rightarrow> [] | Some c \<Rightarrow> c_ib_buf c))"

text \<open>A packet for any device, and what the buffer of \<open>k\<close> on \<open>i\<close> takes of it.\<close>

type_synonym arrival = "u32 \<times> tcp_header \<times> bytes"

definition arrive :: "conn_iter \<Rightarrow> usize \<Rightarrow> devices \<Rightarrow> arrival \<Rightarrow> devices" where
  "arrive iter mx devs = (\<lambda>(j, h, payload). fst (handle_tcp_packet iter devs j h payload (metrics_new 0) mx))"

definition accepted_by :: "conn_iter \<Rightarrow> usize \<Rightarrow> u32 \<Rightarrow> u16 \<Rightarrow> devices \<Rightarrow> arrival \<Rightarrow> bytes" where
  "accepted_by iter mx i k devs = (\<lambda>(j, h, payload).
     case devs j of None \<Rightarrow> [] | Some d \<Rightarrow>
       if j = i \<and> find_conn iter (d_connections d) h = Some k \<and> data_flags (th_flags h)
          \<and> length (ib_content i k devs) + length payload \<le> mx
       then payload else [])"

definition drain :: "u32 \<Rightarrow> u16 \<Rightarrow> devices \<Rightarrow> bytes \<times> devices" where
  "drain i k devs = (case drain_section devs i k of
     (Inr (Some data), devs') \<Rightarrow> (data, devs') | (_, devs') \<Rightarrow> ([], devs'))"

text \<open>What else happens to the table while the connection exists.\<close>

datatype link_op =
    AddDevice u32
  | StartConnect u32 u16 u32
  | SendSyn u32 u16
  | VersionReply u32 u32
  | TrackRx u32 bytes
  | CommitData u32 u16 bytes
  | CommitWindow u32
  | Cleanup u32

fun apply_link_op :: "devices \<Rightarrow> link_op \<Rightarrow> devices" where
  "apply_link_op devs (AddDevice j) = cm_add_device devs j"
| "apply_link_op devs (StartConnect j dport tag) = snd (start_connect devs j dport tag)"
| "apply_link_op devs (SendSyn j s) = snd (connect_syn devs j s)"
| "apply_link_op devs (VersionReply j major) = version_section devs j major"
| "apply_link_op devs (TrackRx j data) = rx_section devs j data"
| "apply_link_op devs (CommitData j s data) = client_data_commit devs j s data"
| "apply_link_op devs (CommitWindow j) = window_update_commit devs j"
| "apply_link_op devs (Cleanup j) = cleanup_device_connections devs j"

lemma link_op_content: "ib_content i k (apply_link_op devs y) = ib_content i k devs"
proof (cases y)
  case (StartConnect j dport tag)
  then show ?thesis
    by (auto simp: ib_content_def start_connect_def connection_new_def
        dest: find_port_Some split: option.splits)
qed (auto simp: ib_content_def cm_add_device_def connect_syn_def version_section_def rx_section_def
      client_data_commit_def window_update_commit_def cleanup_device_connections_def kill_conn_def
      mux_device_new_def put_conn_def split: option.splits res.splits)

lemma drain_content: "drain i k devs = (taken, devs') \<Longrightarrow> taken @ ib_content i k devs' = ib_content i k devs"
  by (auto simp: drain_def drain_section_def ib_content_def conn_drain_def
      split: option.splits if_splits)

lemma put_conn_content:
  "ib_content i k (put_conn devs j d key c) =
     (if j = i then (if key = k then c_ib_buf c
        else (case d_connections d k of None \<Rightarrow> [] | Some c \<Rightarrow> c_ib_buf c)) else ib_content i k devs)"
  by (simp add: ib_content_def put_conn_def)

lemma put_conn_same_content:
  assumes "devs j = Some d" and "d_connections d' = d_connections d" and "d_connections d key = Some c"
    and "c_ib_buf c' = c_ib_buf c"
  shows "ib_content i k (put_conn devs j d' key c') = ib_content i k devs"
  using assms by (cases "j = i"; cases "key = k") (simp_all add: ib_content_def put_conn_def)

lemma handle_conn_content:
  assumes "devs j = Some d" and "d_connections d key = Some c"
  shows "ib_content i k (fst (handle_conn devs j d key c h payload m mx)) =
     (if j = i \<and> key = k \<and> data_flags (th_flags h) \<and> length (c_ib_buf c) + length payload \<le> mx
      then c_ib_buf c @ payload else ib_content i k devs)"
proof (cases "data_flags (th_flags h) \<and> payload \<noteq> []")
  case True
  then have df: "data_flags (th_flags h)" and ne: "payload \<noteq> []" by simp_all
  show ?thesis
    using assms unfolding handle_conn_data [OF df ne]
    by (cases "j = i"; cases "key = k") (simp_all add: df conn_accept_def ib_content_def put_conn_def)
next
  case False
  note same = put_conn_same_content [of devs j d _ key c, OF assms(1) _ assms(2)]
  have eq: "ib_content j key devs = c_ib_buf c" using assms by (simp add: ib_content_def)
  have "ib_content i k (fst (handle_conn devs j d key c h payload m mx)) = ib_content i k devs"
    using False by (auto simp: handle_conn_def data_flags_def Let_def same)
  moreover have "payload = []" if "data_flags (th_flags h)" using False that by simp
  ultimately show ?thesis using eq by auto
qed

lemma arrive_content: "ib_content i k (arrive iter mx devs x) = ib_content i k devs @ accepted_by iter mx i k devs x"
proof -
  obtain j h payload where x: "x = (j, h, payload)" by (metis prod_cases3)
  show ?thesis
  proof (cases "devs j")
    case None
    then show ?thesis by (simp add: x arrive_def accepted_by_def handle_tcp_packet_def)
  next
    case (Some d)
    show ?thesis
    proof (cases "find_conn iter (d_connections d) h")
      case None
      with Some show ?thesis by (simp add: x arrive_def accepted_by_def handle_tcp_packet_def)
    next
      case (Some key)
      obtain c where c: "d_connections d key = Some c" using find_conn_Some [OF Some] by blast
      have "arrive iter mx devs x = fst (handle_conn devs j d key c h payload (metrics_new 0) mx)"
        using \<open>devs j = Some d\<close> Some c by (simp add: x arrive_def handle_tcp_packet_def)
      moreover have "ib_content j key devs = c_ib_buf c" using \<open>devs j = Some d\<close> c by (simp add: ib_content_def)
      moreover have "accepted_by iter mx i k devs x = (if j = i \<and> key = k \<and> data_flags (th_flags h)
          \<and> length (ib_content i k devs) + length payload \<le> mx then payload else [])"
        using \<open>devs j = Some d\<close> Some by (simp add: x accepted_by_def)
      ultimately show ?thesis using handle_conn_content [of devs j d key c i k h payload "metrics_new 0" mx] \<open>devs j = Some d\<close> c by auto
    qed
  qed
qed

interpretation receive_buffer:
  byte_queue "ib_content i k" "arrive iter mx" "accepted_by iter mx i k" "drain i k" apply_link_op
  for i k iter mx
  by unfold_locales (auto intro: arrive_content drain_content link_op_content)

section \<open>Properties\<close>

text \<open>C3: No byte is lost, duplicated or reordered between the device and the client. For any
  interleaving of packets arriving for any device and connection, drains by the client's proxy,
  and the other operations on the table (sends, window updates, handshakes, new connections,
  disconnect cleanup), the bytes the drains returned followed by those still buffered are the
  bytes buffered at the start followed by the accepted payloads in order of arrival.\<close>

theorem receive_path_is_fifo:
  "case queue_run (arrive iter mx) (accepted_by iter mx i k) (drain i k) apply_link_op devs ops of
     (arrived, delivered, devs') \<Rightarrow> delivered @ ib_content i k devs' = ib_content i k devs @ arrived"
  using receive_buffer.fifo [of iter mx i k devs ops]
  by (cases "queue_run (arrive iter mx) (accepted_by iter mx i k) (drain i k) apply_link_op devs ops") auto

text \<open>The messages of a proxy that carry client data, and the client data among the events.\<close>

fun msg_data :: "mux_out_msg \<Rightarrow> bytes" where
  "msg_data (Data s payload) = payload"
| "msg_data (WindowUpdate s) = []"

fun event_data :: "proxy_event \<Rightarrow> bytes" where
  "event_data (ClientRead b) = b"
| "event_data _ = []"

lemma out_add_simps [simp]:
  "po_to_client (out_add bs ms out) = bs @ po_to_client out"
  "po_to_device (out_add bs ms out) = ms @ po_to_device out"
  "po_to_client out_none = []" "po_to_device out_none = []"
  by (simp_all add: out_add_def out_none_def)

lemma proxy_loop_forwards:
  "proxy_loop io i sport devs m rounds evs = (r, devs', m', out) \<Longrightarrow>
   \<exists>n. concat (map msg_data (po_to_device out)) = concat (map event_data (take n evs))
     \<and> n \<le> length evs \<and> (\<forall>msg \<in> set (po_to_device out). msg = WindowUpdate sport \<or> (\<exists>b. msg = Data sport b \<and> b \<noteq> []))"
proof (induction rounds arbitrary: devs m evs r devs' m' out)
  case Nil
  then show ?case by (auto intro: exI [of _ 0])
next
  case (Cons interfere rounds)
  note step = Cons.prems and IH = Cons.IH
  obtain res devs1 where dr: "drain_section (interfere devs) i sport = (res, devs1)" by fastforce
  consider (ended) e where "res = Inl e" | (data) b where "res = Inr (Some b)" | (idle) "res = Inr None"
    by (metis old.sum.exhaust option.exhaust)
  then show ?case
  proof cases
    case ended
    with step dr show ?thesis by (auto intro: exI [of _ 0])
  next
    case (data b)
    show ?thesis
    proof (cases "px_write io b = None \<and> px_channel_open io (WindowUpdate sport) = None")
      case True
      obtain r2 devs2 m2 out2 where rec: "proxy_loop io i sport devs1 (count_client_tx (length b) m) rounds evs
          = (r2, devs2, m2, out2)" by (metis prod_cases4)
      with step dr data True have "out = out_add b [WindowUpdate sport] out2" by auto
      with IH [OF rec] show ?thesis by auto
    next
      case False
      with step dr data show ?thesis by (auto simp: Let_def split: option.splits intro: exI [of _ 0])
    qed
  next
    case idle
    show ?thesis
    proof (cases evs)
      case Nil
      with step dr idle show ?thesis by auto
    next
      case (Cons ev evs')
      show ?thesis
      proof (cases ev)
        case Notified
        with step dr idle Cons have "proxy_loop io i sport devs1 m rounds evs' = (r, devs', m', out)" by simp
        from IH [OF this] obtain n where
          "concat (map msg_data (po_to_device out)) = concat (map event_data (take n evs')) \<and> n \<le> length evs'
           \<and> (\<forall>msg \<in> set (po_to_device out). msg = WindowUpdate sport \<or> (\<exists>b. msg = Data sport b \<and> b \<noteq> []))" by blast
        then show ?thesis using Cons Notified by (intro exI [of _ "Suc n"]) simp
      next
        case (ClientError e)
        with step dr idle Cons show ?thesis by (auto intro: exI [of _ 0])
      next
        case (ClientRead b)
        show ?thesis
        proof (cases "b \<noteq> [] \<and> px_channel_open io (Data sport b) = None")
          case True
          obtain r2 devs2 m2 out2 where rec: "proxy_loop io i sport devs1 (count_client_rx (length b) m) rounds evs'
              = (r2, devs2, m2, out2)" by (metis prod_cases4)
          with step dr idle Cons ClientRead True have out: "out = out_add [] [Data sport b] out2" by auto
          from IH [OF rec] obtain n where
            "concat (map msg_data (po_to_device out2)) = concat (map event_data (take n evs')) \<and> n \<le> length evs'
             \<and> (\<forall>msg \<in> set (po_to_device out2). msg = WindowUpdate sport \<or> (\<exists>b. msg = Data sport b \<and> b \<noteq> []))" by blast
          then show ?thesis using Cons ClientRead True out by (intro exI [of _ "Suc n"]) auto
        next
          case False
          with step dr idle Cons ClientRead show ?thesis
            by (auto simp: Let_def split: if_splits option.splits intro: exI [of _ 0])
        qed
      qed
    qed
  qed
qed

text \<open>While the device is silent on the connection, nothing is drained and every read is forwarded.\<close>

definition quiet :: "u32 \<Rightarrow> u16 \<Rightarrow> devices \<Rightarrow> bool" where
  "quiet i sport devs \<longleftrightarrow> drain_section devs i sport = (Inr None, devs)"

fun passes_on :: "proxy_event \<Rightarrow> bool" where
  "passes_on Notified = True"
| "passes_on (ClientRead data) = (data \<noteq> [])"
| "passes_on (ClientError e) = False"

lemma proxy_loop_complete:
  assumes "quiet i sport devs" and "\<forall>f \<in> set rounds. \<forall>ds. quiet i sport ds \<longrightarrow> quiet i sport (f ds)"
    and "length evs \<le> length rounds" and "\<forall>ev \<in> set evs. passes_on ev" and "px_channel_open io = (\<lambda>_. None)"
    and "proxy_loop io i sport devs m rounds evs = (r, devs', m', out)"
  shows "r = None \<and> concat (map msg_data (po_to_device out)) = concat (map event_data evs)"
  using assms
proof (induction rounds arbitrary: devs m evs r devs' m' out)
  case (Cons f rounds)
  have q: "quiet i sport (f devs)" using Cons.prems(1,2) by simp
  show ?case
  proof (cases evs)
    case Nil
    with q Cons.prems(6) show ?thesis by (auto simp: quiet_def)
  next
    case (Cons ev evs')
    note evs = Cons
    have ih: "proxy_loop io i sport (f devs) m1 rounds evs' = (r1, devs1, m2, out1) \<Longrightarrow>
        r1 = None \<and> concat (map msg_data (po_to_device out1)) = concat (map event_data evs')" for m1 r1 devs1 m2 out1
      using Cons.IH [OF q] Cons.prems(2-5) evs by simp
    obtain r1 devs1 m2 out1 where rest: "proxy_loop io i sport (f devs) (case ev of ClientRead b \<Rightarrow> count_client_rx (length b) m | _ \<Rightarrow> m)
        rounds evs' = (r1, devs1, m2, out1)" by (metis prod_cases4)
    with ih [OF rest] q Cons.prems(4-6) evs show ?thesis by (cases ev) (auto simp: quiet_def)
  qed
qed simp

lemma quiet_registered: "quiet i sport devs \<Longrightarrow> get_data_notify devs i sport \<noteq> None"
  by (auto simp: quiet_def drain_section_def get_data_notify_def split: option.splits)

lemma proxy_connection_forwards:
  assumes "proxy_connection io final i sport devs m rounds evs = (r, devs', m', out)"
  shows "(\<exists>n \<le> length evs. concat (map msg_data (po_to_device out)) = concat (map event_data (take n evs)))
    \<and> (\<forall>msg \<in> set (po_to_device out). msg = WindowUpdate sport \<or> (\<exists>b. msg = Data sport b \<and> b \<noteq> []))"
proof (cases "get_data_notify devs i sport")
  case None
  with assms show ?thesis by (auto simp: proxy_connection_def intro: exI [of _ 0])
next
  case (Some n)
  obtain r1 devs1 m1 out1 where loop: "proxy_loop io i sport devs m rounds evs = (r1, devs1, m1, out1)"
    by (metis prod_cases4)
  with assms Some have "out = out1" by (auto simp: proxy_connection_def split: option.splits)
  with proxy_loop_forwards [OF loop] show ?thesis by auto
qed

lemma proxy_connection_complete:
  assumes "quiet i sport devs" and "\<forall>f \<in> set rounds. \<forall>ds. quiet i sport ds \<longrightarrow> quiet i sport (f ds)"
    and "length evs \<le> length rounds" and "\<forall>ev \<in> set evs. passes_on ev" and "px_channel_open io = (\<lambda>_. None)"
    and "proxy_connection io final i sport devs m rounds evs = (r, devs', m', out)"
  shows "concat (map msg_data (po_to_device out)) = concat (map event_data evs)"
proof -
  obtain r1 devs1 m1 out1 where loop: "proxy_loop io i sport devs m rounds evs = (r1, devs1, m1, out1)"
    by (metis prod_cases4)
  with proxy_loop_complete [OF assms(1-5) loop] quiet_registered [OF assms(1)] assms(6) show ?thesis
    by (auto simp: proxy_connection_def)
qed

lemma proxy_connection_removes:
  assumes "proxy_connection io final i sport devs m rounds evs = (Some r, devs', m', out)"
  shows "get_data_notify devs' i sport = None"
  using assms
  by (auto simp: proxy_connection_def get_data_notify_def remove_connection_def split: option.splits prod.splits)

text \<open>The proxy forwards the client's bytes: whatever the other tasks do meanwhile, the data
  messages it puts on the device's channel carry exactly the bytes of a prefix of the client's
  reads, in order, none empty and all for its own port, with only window updates in between.
  When it returns, its connection is no longer in the table, so the port can be used again.\<close>

theorem proxy_forwards_client_bytes:
  assumes "proxy_connection io final i sport devs m rounds evs = (r, devs', m', out)"
  shows "(\<exists>n \<le> length evs. concat (map msg_data (po_to_device out)) = concat (map event_data (take n evs)))
    \<and> (\<forall>msg \<in> set (po_to_device out). msg = WindowUpdate sport \<or> (\<exists>b. msg = Data sport b \<and> b \<noteq> []))
    \<and> (r \<noteq> None \<longrightarrow> get_data_notify devs' i sport = None)"
  using proxy_connection_forwards [OF assms] proxy_connection_removes [of io final i sport devs m rounds evs _ devs' m' out] assms
  by auto

theorem proxy_forwards_client_bytes_witness:
  "\<exists>devs' m' out. proxy_connection \<lparr>px_channel_open = \<lambda>_. None, px_write = \<lambda>_. None\<rparr> id 1 1024 example_devs
       (metrics_new 0) [id, id] [ClientRead [5, 6], ClientRead []] = (Some (Ok ()), devs', m', out)
     \<and> po_to_device out = [Data 1024 [5, 6]] \<and> get_data_notify devs' 1 1024 = None"
proof -
  have "proxy_connection \<lparr>px_channel_open = \<lambda>_. None, px_write = \<lambda>_. None\<rparr> id 1 1024 example_devs
       (metrics_new 0) [id, id] [ClientRead [5, 6], ClientRead []]
     = (Some (Ok ()), remove_connection example_devs 1 1024, count_client_rx 2 (metrics_new 0),
        out_add [] [Data 1024 [5, 6]] out_none)"
    by (simp add: proxy_connection_def get_data_notify_def drain_section_def)
  with proxy_forwards_client_bytes [OF this] show ?thesis by auto
qed

section \<open>Messages at the device's task\<close>

text \<open>What the processing task makes of the messages of all clients of a device. A message turns
  into at most one frame, from the port it names; frames are read back with the parser.\<close>

fun msg_port :: "mux_out_msg \<Rightarrow> u16" where
  "msg_port (Data s payload) = s"
| "msg_port (WindowUpdate s) = s"

definition frames_of :: "(tcp_header \<times> bytes) list \<Rightarrow> bytes list \<Rightarrow> bool" where
  "frames_of segs sent \<longleftrightarrow> map parse_packet sent = map (\<lambda>(h, x). Ok (Tcp h x)) segs"

fun contiguous :: "u32 \<Rightarrow> (tcp_header \<times> bytes) list \<Rightarrow> bool" where
  "contiguous s [] = True"
| "contiguous s ((h, x) # segs) = (th_seq h = s \<and> contiguous (s + word_of_nat (length x)) segs)"

definition ordinary_ports :: "mux_device \<Rightarrow> bool" where
  "ordinary_ports d \<longleftrightarrow> (\<forall>k c. d_connections d k = Some c \<longrightarrow> c_dest_port c \<noteq> 0xFACE)"

lemma frames_of_append: "frames_of s1 p1 \<Longrightarrow> frames_of s2 p2 \<Longrightarrow> frames_of (s1 @ s2) (p1 @ p2)"
  by (simp add: frames_of_def)

lemma transmit_Nil [simp]: "transmit [] c = c"
  by (simp add: transmit_def)

lemma send_window_update_ok:
  assumes "devs i = Some d" and "d_connections d k = Some c" and "is_active (c_state c)" and "c_dest_port c \<noteq> 0xFACE"
  shows "\<exists>m' pkt h. send_window_update (\<lambda>_. None) devs i k mx m = (devs(i \<mapsto> bump_tx d), m', [pkt])
     \<and> parse_packet pkt = Ok (Tcp h []) \<and> th_seq h = c_tx_seq c \<and> th_source_port h = k \<and> th_dest_port h = c_dest_port c"
proof -
  let ?pkt = "build_tcp_packet (v2_seqs d) k (c_dest_port c) (c_tx_seq c) (c_tx_ack c) TCP_ACK
      (scaled_window (mx - length (c_ib_buf c))) None"
  have "window_update_packet devs i k mx = Some ?pkt"
    using assms by (simp add: window_update_packet_def v2_seqs_def Let_def)
  moreover have "\<exists>h. parse_packet ?pkt = Ok (Tcp h []) \<and> th_seq h = c_tx_seq c \<and> th_source_port h = k
      \<and> th_dest_port h = c_dest_port c"
    using parse_build_tcp_packet [of None "v2_seqs d" k "c_dest_port c"] assms(4) by simp
  ultimately show ?thesis using assms(1) by (simp add: send_window_update_def window_update_commit_def)
qed

lemma out_msg_sent:
  assumes "dm_conn_mgr dm i = Some d" and "d_connections d (msg_port msg) = Some c" and "c_state c = Connected"
    and "c_dest_port c \<noteq> 0xFACE" and "length (msg_data msg) < 2 ^ 32 - 36"
  shows "\<exists>dm' d' pkt h. task_step iter (\<lambda>_. None) mx i t dm (OutMsg msg) = (t, dm', [pkt], [])
     \<and> dm_conn_mgr dm' i = Some d' \<and> d_connections d' = (d_connections d)(msg_port msg \<mapsto> transmit (msg_data msg) c)
     \<and> parse_packet pkt = Ok (Tcp h (msg_data msg)) \<and> th_seq h = c_tx_seq c
     \<and> th_source_port h = msg_port msg \<and> th_dest_port h = c_dest_port c"
proof (cases msg)
  case (Data s payload)
  with assms send_client_data_ok [of "dm_conn_mgr dm" i d s c payload "dm_metrics dm"] show ?thesis
    by (fastforce simp: put_conn_def bump_tx_def)
next
  case (WindowUpdate s)
  with assms send_window_update_ok [of "dm_conn_mgr dm" i d s c mx "dm_metrics dm"] show ?thesis
    by (fastforce simp: bump_tx_def)
qed

text \<open>A message for another connection leaves this one alone, and its frame names the other port.\<close>

lemma out_msg_other:
  assumes "dm_conn_mgr dm i = Some d" and "ordinary_ports d" and "length (msg_data msg) < 2 ^ 32 - 36"
  shows "\<exists>dm' d' sent segs. task_step iter (\<lambda>_. None) mx i t dm (OutMsg msg) = (t, dm', sent, [])
     \<and> dm_conn_mgr dm' i = Some d' \<and> ordinary_ports d' \<and> (\<forall>k. k \<noteq> msg_port msg \<longrightarrow> d_connections d' k = d_connections d k)
     \<and> frames_of segs sent \<and> (\<forall>(h, x) \<in> set segs. th_source_port h = msg_port msg)"
proof (cases "d_connections d (msg_port msg)")
  case None
  with assms(1,2) show ?thesis
    by (cases msg) (auto simp: send_client_data_def client_data_packet_def send_window_update_def
        window_update_packet_def frames_of_def intro!: exI [of _ dm] exI [of _ d] exI [of _ "[] :: (tcp_header \<times> bytes) list"])
next
  case (Some c)
  with assms(2) have port: "c_dest_port c \<noteq> 0xFACE" by (simp add: ordinary_ports_def)
  show ?thesis
  proof (cases "c_state c = Connected")
    case True
    obtain dm' d' pkt h where *: "task_step iter (\<lambda>_. None) mx i t dm (OutMsg msg) = (t, dm', [pkt], [])"
        "dm_conn_mgr dm' i = Some d'" "d_connections d' = (d_connections d)(msg_port msg \<mapsto> transmit (msg_data msg) c)"
        "parse_packet pkt = Ok (Tcp h (msg_data msg))" "th_source_port h = msg_port msg"
      using out_msg_sent [where iter = iter and mx = mx and t = t, OF assms(1) Some True port assms(3)] by blast
    have "frames_of [(h, msg_data msg)] [pkt]" by (simp add: frames_of_def *(4))
    moreover have "ordinary_ports d'" using assms(2) *(3) port by (auto simp: ordinary_ports_def)
    ultimately show ?thesis using *(1-3,5) by fastforce
  next
    case False
    show ?thesis
    proof (cases "\<exists>s. msg = WindowUpdate s \<and> is_active (c_state c)")
      case True
      then obtain s where s: "msg = WindowUpdate s" "is_active (c_state c)" by blast
      obtain m' pkt h where *: "send_window_update (\<lambda>_. None) (dm_conn_mgr dm) i s mx (dm_metrics dm)
            = ((dm_conn_mgr dm)(i \<mapsto> bump_tx d), m', [pkt])"
          "parse_packet pkt = Ok (Tcp h [])" "th_source_port h = s"
        using send_window_update_ok [of "dm_conn_mgr dm" i d s c mx "dm_metrics dm"] assms(1) s port Some by auto
      have "frames_of [(h, [])] [pkt]" by (simp add: frames_of_def *(2))
      moreover have "ordinary_ports (bump_tx d)" using assms(2) by (simp add: ordinary_ports_def bump_tx_def)
      ultimately show ?thesis using *(1,3) s(1) by (fastforce simp: bump_tx_def)
    next
      case quiet: False
      with False Some assms(1,2) show ?thesis
        by (cases msg) (auto simp: send_client_data_def client_data_packet_def send_window_update_def
            window_update_packet_def frames_of_def intro!: exI [of _ dm] exI [of _ d] exI [of _ "[] :: (tcp_header \<times> bytes) list"])
    qed
  qed
qed

text \<open>The segments of one connection among those of a device.\<close>

abbreviation own :: "u16 \<Rightarrow> (tcp_header \<times> bytes) list \<Rightarrow> (tcp_header \<times> bytes) list" where
  "own k segs \<equiv> filter (\<lambda>(h, x). th_source_port h = k) segs"

definition delivered :: "u16 \<Rightarrow> connection \<Rightarrow> connection \<Rightarrow> mux_out_msg list \<Rightarrow> (tcp_header \<times> bytes) list \<Rightarrow> bool" where
  "delivered k c c' msgs segs \<longleftrightarrow>
     c' = fold transmit (map msg_data (filter (\<lambda>msg. msg_port msg = k) msgs)) c
     \<and> map snd (own k segs) = map msg_data (filter (\<lambda>msg. msg_port msg = k) msgs)
     \<and> contiguous (c_tx_seq c) (own k segs)
     \<and> (\<forall>(h, x) \<in> set (own k segs). th_dest_port h = c_dest_port c)"

lemma fold_transmit_port [simp]: "c_dest_port (fold transmit xs c) = c_dest_port c"
  by (induction xs arbitrary: c) simp_all

lemma contiguous_append:
  "contiguous s (xs @ ys) \<longleftrightarrow> contiguous s xs \<and> contiguous (s + word_of_nat (length (concat (map snd xs)))) ys"
  by (induction s xs rule: contiguous.induct) (auto simp: ac_simps)

lemma delivered_append:
  assumes "delivered k c c' msgs segs" and "delivered k c' c'' msgs' segs'"
  shows "delivered k c c'' (msgs @ msgs') (segs @ segs')"
  using assms by (auto simp: delivered_def contiguous_append)

lemma out_msg_step:
  assumes "dm_conn_mgr dm i = Some d" and "d_connections d k = Some c" and "c_state c = Connected"
    and "ordinary_ports d" and "length (msg_data msg) < 2 ^ 32 - 36"
  shows "\<exists>dm' d' c' sent segs. task_step iter (\<lambda>_. None) mx i t dm (OutMsg msg) = (t, dm', sent, [])
     \<and> dm_conn_mgr dm' i = Some d' \<and> ordinary_ports d' \<and> d_connections d' k = Some c' \<and> c_state c' = Connected
     \<and> frames_of segs sent \<and> delivered k c c' [msg] segs"
proof (cases "msg_port msg = k")
  case mine: True
  have port: "c_dest_port c \<noteq> 0xFACE" using assms(2,4) by (simp add: ordinary_ports_def)
  obtain dm1 d1 pkt h where one: "task_step iter (\<lambda>_. None) mx i t dm (OutMsg msg) = (t, dm1, [pkt], [])"
      "dm_conn_mgr dm1 i = Some d1" "d_connections d1 = (d_connections d)(k \<mapsto> transmit (msg_data msg) c)"
      "parse_packet pkt = Ok (Tcp h (msg_data msg))" "th_seq h = c_tx_seq c" "th_source_port h = k" "th_dest_port h = c_dest_port c"
    using out_msg_sent [where iter = iter and mx = mx and t = t, OF assms(1) _ assms(3) port assms(5)] mine assms(2) by auto
  have "ordinary_ports d1" using assms(4) port one(3) by (auto simp: ordinary_ports_def)
  moreover have "frames_of [(h, msg_data msg)] [pkt]" using one(4) by (simp add: frames_of_def)
  moreover have "delivered k c (transmit (msg_data msg) c) [msg] [(h, msg_data msg)]"
    using one(5-7) mine by (simp add: delivered_def)
  ultimately show ?thesis using one(1-3) assms(3) by fastforce
next
  case other: False
  obtain dm1 d1 sent1 segs1 where one: "task_step iter (\<lambda>_. None) mx i t dm (OutMsg msg) = (t, dm1, sent1, [])"
      "dm_conn_mgr dm1 i = Some d1" "ordinary_ports d1" "\<forall>k. k \<noteq> msg_port msg \<longrightarrow> d_connections d1 k = d_connections d k"
      "frames_of segs1 sent1" "\<forall>(h, x) \<in> set segs1. th_source_port h = msg_port msg"
    using out_msg_other [where iter = iter and mx = mx and t = t, OF assms(1,4,5)] by blast
  have "own k segs1 = []" using one(6) other by (auto simp: filter_empty_conv)
  then have "delivered k c c [msg] segs1" using other by (simp add: delivered_def)
  with one other assms(2,3) show ?thesis by auto
qed

text \<open>So a run of messages of many clients delivers those of each connection.\<close>

lemma task_out_msgs:
  assumes "dm_conn_mgr dm i = Some d" and "d_connections d k = Some c" and "c_state c = Connected"
    and "ordinary_ports d" and "\<forall>msg \<in> set msgs. length (msg_data msg) < 2 ^ 32 - 36" and "t_running t"
  shows "\<exists>dm' d' c' sent segs. task_loop iter (\<lambda>_. None) mx i t dm (map OutMsg msgs) = (t, dm', sent, [])
     \<and> dm_conn_mgr dm' i = Some d' \<and> d_connections d' k = Some c' \<and> frames_of segs sent \<and> delivered k c c' msgs segs"
  using assms
proof (induction msgs arbitrary: dm d c)
  case Nil
  then show ?case
    by (auto simp: frames_of_def delivered_def intro!: exI [of _ "[] :: (tcp_header \<times> bytes) list"])
next
  case (Cons msg msgs)
  obtain dm1 d1 c1 sent1 segs1 where one: "task_step iter (\<lambda>_. None) mx i t dm (OutMsg msg) = (t, dm1, sent1, [])"
      "dm_conn_mgr dm1 i = Some d1" "ordinary_ports d1" "d_connections d1 k = Some c1" "c_state c1 = Connected"
      "frames_of segs1 sent1" "delivered k c c1 [msg] segs1"
    using out_msg_step [where iter = iter and mx = mx and t = t and msg = msg, OF Cons.prems(1-4)] Cons.prems(5) by auto
  obtain dm' d' c' sent segs where rest: "task_loop iter (\<lambda>_. None) mx i t dm1 (map OutMsg msgs) = (t, dm', sent, [])"
      "dm_conn_mgr dm' i = Some d'" "d_connections d' k = Some c'" "frames_of segs sent" "delivered k c1 c' msgs segs"
    using Cons.IH [OF one(2,4,5,3)] Cons.prems(5,6) by auto
  from frames_of_append [OF one(6) rest(4)] delivered_append [OF one(7) rest(5)] rest(1-3) one(1) Cons.prems(6)
  show ?case
    by (intro exI [of _ dm'] exI [of _ d'] exI [of _ c'] exI [of _ "sent1 @ sent"] exI [of _ "segs1 @ segs"]) simp
qed

end
