(* ===== verification/Security.thy ===== *)
theory Security
  imports Relay_Prelude
begin

text \<open>
  \<open>security.rs\<close> and the peer identity of \<open>platform/mod.rs\<close>: validation of device identifiers
  before they become file names, lookup of a group in the text of \<open>/etc/group\<close>, peer
  credentials and the guard that removes the socket file. The kernel's answer to
  \<open>SO_PEERCRED\<close> and the text of \<open>/etc/group\<close> are arguments.

  The theorems: what a sanitized identifier can look like (no byte that can leave the lockdown
  directory), that sanitizing is the identity on well-formed identifiers, and the group lookup.
\<close>

section \<open>Device identifiers\<close>

definition MAX_UDID_LEN :: usize where
  "MAX_UDID_LEN = 64"

definition UDID_CHARS :: bytes where
  "UDID_CHARS = str_bytes (lit ''0123456789abcdefABCDEF-'')"

definition validate_udid :: "rstr \<Rightarrow> (rstr, unit) res" where
  "validate_udid udid =
     (let trimmed = trim_end_nul (trim udid) in
      if trimmed = [] then Err (lit ''UDID is empty'')
      else if MAX_UDID_LEN < str_len trimmed then Err (lit ''UDID too long'')
      else if \<not> list_all (\<lambda>b. List.member UDID_CHARS b) (str_bytes trimmed)
        then Err (lit ''UDID contains invalid characters'')
      else if contains_str trimmed (lit ''..'') \<or> 47 \<in> set trimmed \<or> 92 \<in> set trimmed
        then Err (lit ''UDID contains path traversal characters'')
      else Ok ())"

definition sanitize_udid_for_path :: "rstr \<Rightarrow> rstr option" where
  "sanitize_udid_for_path udid =
     (let trimmed = trim_end_nul (trim udid)
      in if is_Ok (validate_udid trimmed) then Some trimmed else None)"

section \<open>Groups\<close>

text \<open>The loop over the lines of \<open>/etc/group\<close>; \<open>None\<close> for a file that cannot be read.\<close>

fun group_gid_of_lines :: "rstr \<Rightarrow> rstr list \<Rightarrow> u32 option" where
  "group_gid_of_lines group_name [] = None"
| "group_gid_of_lines group_name (line # rest) =
     (let parts = split_on 58 line in
      if 3 \<le> length parts \<and> parts ! 0 = group_name then
        (case parse_uint 10 (2 ^ 32 - 1) (parts ! 2) of
           Some gid \<Rightarrow> Some (word_of_nat gid)
         | None \<Rightarrow> group_gid_of_lines group_name rest)
      else group_gid_of_lines group_name rest)"

definition resolve_group_gid :: "rstr option \<Rightarrow> rstr \<Rightarrow> u32 option" where
  "resolve_group_gid etc_group group_name =
     (case etc_group of
        None \<Rightarrow> None
      | Some content \<Rightarrow> group_gid_of_lines group_name (str_lines content))"

section \<open>Peers\<close>

record peer_credentials =
  pc_uid :: u32
  pc_gid :: u32
  pc_pid :: "u32 option"

text \<open>The argument is the kernel's \<open>ucred\<close> (pid, uid, gid) when \<open>getsockopt\<close> returned zero.\<close>

definition from_unix_stream :: "(int \<times> u32 \<times> u32) option \<Rightarrow> peer_credentials option" where
  "from_unix_stream cred =
     map_option (\<lambda>(p, u, g). \<lparr>pc_uid = u, pc_gid = g, pc_pid = (if 0 < p then Some (word_of_int p) else None)\<rparr>) cred"

definition is_allowed :: "peer_credentials \<Rightarrow> u32 list \<Rightarrow> bool" where
  "is_allowed self allowed_uids = (if allowed_uids = [] then True else List.member allowed_uids (pc_uid self))"

record peer_identity =
  pi_credentials :: "peer_credentials option"
  pi_sid :: "rstr option"

definition anonymous :: peer_identity where
  "anonymous = \<lparr>pi_credentials = None, pi_sid = None\<rparr>"

definition with_pid :: "peer_identity \<Rightarrow> u32 \<Rightarrow> peer_identity" where
  "with_pid self p =
     (if p \<noteq> 0 then
        (case pi_credentials self of
           Some c \<Rightarrow> self\<lparr>pi_credentials := Some (c\<lparr>pc_pid := Some p\<rparr>)\<rparr>
         | None \<Rightarrow> self\<lparr>pi_credentials := Some \<lparr>pc_uid = 0, pc_gid = 0, pc_pid = Some p\<rparr>\<rparr>)
      else self)"

definition peer_identity_of_unix :: "(int \<times> u32 \<times> u32) option \<Rightarrow> peer_identity" where
  "peer_identity_of_unix cred = \<lparr>pi_credentials = from_unix_stream cred, pi_sid = None\<rparr>"

section \<open>The socket file\<close>

record socket_cleanup_guard =
  guard_path :: rstr
  guard_remove :: bool

definition guard_new :: "rstr \<Rightarrow> bool \<Rightarrow> socket_cleanup_guard" where
  "guard_new path remove_on_drop = \<lparr>guard_path = path, guard_remove = remove_on_drop\<rparr>"

definition guard_disarm :: "socket_cleanup_guard \<Rightarrow> socket_cleanup_guard" where
  "guard_disarm g = g\<lparr>guard_remove := False\<rparr>"

text \<open>\<open>removable\<close> is the outcome of \<open>std::fs::remove_file\<close>; a failure is only logged.\<close>

definition guard_drop :: "(rstr \<Rightarrow> bool) \<Rightarrow> socket_cleanup_guard \<Rightarrow> (rstr \<rightharpoonup> 'f) \<Rightarrow> (rstr \<rightharpoonup> 'f)" where
  "guard_drop removable g fs =
     (if guard_remove g \<and> fs (guard_path g) \<noteq> None \<and> removable (guard_path g)
      then fs(guard_path g := None) else fs)"

section \<open>Lemmas\<close>

definition udid_char :: "nat \<Rightarrow> bool" where
  "udid_char c \<longleftrightarrow> (48 \<le> c \<and> c \<le> 57) \<or> (97 \<le> c \<and> c \<le> 102) \<or> (65 \<le> c \<and> c \<le> 70) \<or> c = 45"

lemma UDID_CHARS_eq: "UDID_CHARS = map word_of_nat ([48..<58] @ [97..<103] @ [65..<71] @ [45])"
  by (simp add: UDID_CHARS_def utf8_char_def upt_rec)

lemma utf8_continuation: "128 \<le> c \<Longrightarrow> word_of_nat (128 + c mod 64) \<in> set (utf8_char c)"
  by (simp add: utf8_char_def)

lemma UDID_CHARS_ascii: "b \<in> set UDID_CHARS \<Longrightarrow> unat b < 128"
  by (auto simp: UDID_CHARS_eq unat_of_nat)

lemma udid_char_bytes: "set (utf8_char c) \<subseteq> set UDID_CHARS \<longleftrightarrow> udid_char c"
proof (cases "c < 128")
  case True
  have "(word_of_nat c :: u8) \<in> set UDID_CHARS \<longleftrightarrow> udid_char c"
  proof
    assume "(word_of_nat c :: u8) \<in> set UDID_CHARS"
    then obtain n where n: "n \<in> set ([48..<58] @ [97..<103] @ [65..<71] @ [45])"
      and eq: "(word_of_nat c :: u8) = word_of_nat n"
      unfolding UDID_CHARS_eq set_map by blast
    from n have "n < 128" by auto
    from eq have "unat (word_of_nat c :: u8) = unat (word_of_nat n :: u8)" by simp
    with True \<open>n < 128\<close> have "c = n" by (simp add: unat_of_nat)
    with n show "udid_char c" by (auto simp: udid_char_def)
  next
    assume "udid_char c"
    then have "c \<in> set ([48..<58] @ [97..<103] @ [65..<71] @ [45])"
      unfolding udid_char_def set_append set_upt by force
    then show "(word_of_nat c :: u8) \<in> set UDID_CHARS"
      unfolding UDID_CHARS_eq set_map by (rule imageI)
  qed
  with True show ?thesis by (simp add: utf8_char_ascii)
next
  case False
  then have "word_of_nat (128 + c mod 64) \<in> set (utf8_char c)"
    using utf8_continuation [of c] by linarith
  moreover have "unat (word_of_nat (128 + c mod 64) :: u8) = 128 + c mod 64"
    using mod_less_divisor [of 64 c] by (simp add: unat_of_nat del: of_nat_add of_nat_mod)
  ultimately have "\<not> set (utf8_char c) \<subseteq> set UDID_CHARS"
    using UDID_CHARS_ascii by fastforce
  with False show ?thesis by (auto simp: udid_char_def)
qed

lemma all_udid_bytes:
  "list_all (\<lambda>b. List.member UDID_CHARS b) (str_bytes s) \<longleftrightarrow> (\<forall>c \<in> set s. udid_char c)"
proof (induction s)
  case (Cons c s)
  have "list_all (\<lambda>b. List.member UDID_CHARS b) (utf8_char c) \<longleftrightarrow> udid_char c"
    by (simp add: udid_char_bytes [symmetric] list_all_iff subset_iff Ball_def)
  with Cons show ?case by simp
qed simp

lemma udid_char_not_special:
  "udid_char c \<Longrightarrow> c \<noteq> 0 \<and> c \<noteq> 46 \<and> c \<noteq> 47 \<and> c \<noteq> 92 \<and> c < 128 \<and> \<not> is_whitespace c"
  by (auto simp: udid_char_def is_whitespace_def)

lemma contains_str_subset: "contains_str s p \<Longrightarrow> set p \<subseteq> set s"
proof (induction s)
  case (Cons c s)
  then show ?case
    by (auto simp: contains_str.simps [of "c # s"] dest: in_set_takeD)
       (metis in_set_takeD set_ConsD)
qed (simp add: contains_str.simps [of "[]"])

lemma str_len_ascii: "\<forall>c \<in> set s. c < 128 \<Longrightarrow> str_len s = length s"
  by (induction s) (auto simp: str_len_def utf8_char_ascii)

text \<open>A UDID is valid exactly if what remains after trimming is 1 to 64 hexadecimal digits or
  dashes; the search for path traversal that follows never finds anything.\<close>

lemma validate_udid_iff:
  "validate_udid u = Ok () \<longleftrightarrow>
     (let t = trim_end_nul (trim u) in t \<noteq> [] \<and> length t \<le> 64 \<and> (\<forall>c \<in> set t. udid_char c))"
proof -
  define t where "t = trim_end_nul (trim u)"
  have "\<not> contains_str t (lit ''..'') \<and> 47 \<notin> set t \<and> 92 \<notin> set t \<and> str_len t = length t"
    if "\<forall>c \<in> set t. udid_char c"
    using that contains_str_subset [of t "lit ''..''"] udid_char_not_special
    by (auto simp: str_len_ascii)
  then show ?thesis
    unfolding validate_udid_def t_def [symmetric] Let_def all_udid_bytes MAX_UDID_LEN_def by auto
qed

lemma trim_split: "\<exists>a b. s = a @ trim s @ b \<and> (\<forall>c \<in> set (a @ b). is_whitespace c)"
proof -
  have "s = takeWhile is_whitespace s @ dropWhile is_whitespace s" by simp
  moreover obtain b where "dropWhile is_whitespace s = trim s @ b" "\<forall>c \<in> set b. is_whitespace c"
    using trim_end_while_prefix [of "dropWhile is_whitespace s" is_whitespace] unfolding trim_def by blast
  ultimately show ?thesis
    by (metis (no_types, lifting) Un_iff set_append set_takeWhileD)
qed

lemma trim_id: "\<forall>c \<in> set s. \<not> is_whitespace c \<Longrightarrow> trim s = s"
  by (cases s) (auto simp: trim_def intro!: trim_end_while_id split: if_splits)

lemma trim_hd: "trim s \<noteq> [] \<Longrightarrow> \<not> is_whitespace (hd (trim s))"
proof -
  assume ne: "trim s \<noteq> []"
  obtain t where "dropWhile is_whitespace s = trim s @ t"
    using trim_end_while_prefix [of "dropWhile is_whitespace s" is_whitespace] by (auto simp: trim_def)
  with ne have "hd (trim s) = hd (dropWhile is_whitespace s)" and "dropWhile is_whitespace s \<noteq> []" by auto
  then show ?thesis using hd_dropWhile by metis
qed

lemma sanitize_shape:
  assumes "sanitize_udid_for_path u = Some t"
  shows "\<exists>core tail. t = core @ tail \<and> core \<noteq> [] \<and> length core \<le> 64
     \<and> (\<forall>c \<in> set core. udid_char c) \<and> (\<forall>c \<in> set tail. is_whitespace c \<or> c = 0)"
proof -
  from assms have t: "t = trim_end_nul (trim u)" and v: "validate_udid t = Ok ()"
    by (auto simp: sanitize_udid_for_path_def Let_def split: if_splits elim: is_Ok.elims)
  obtain a b where ab: "t = a @ trim t @ b" and ws: "\<forall>c \<in> set (a @ b). is_whitespace c"
    using trim_split by blast
  obtain z where z: "trim t = trim_end_nul (trim t) @ z" and nul: "\<forall>c \<in> set z. c = 0"
    using trim_end_while_prefix [of "trim t"] unfolding trim_end_nul_def by blast
  have core: "trim_end_nul (trim t) \<noteq> []" "length (trim_end_nul (trim t)) \<le> 64"
      "\<forall>c \<in> set (trim_end_nul (trim t)). udid_char c"
    using v by (auto simp: validate_udid_iff Let_def)
  have "a = []"
  proof (rule ccontr)
    assume "a \<noteq> []"
    obtain z' where "trim u = t @ z'"
      using trim_end_while_prefix [of "trim u"] unfolding t trim_end_nul_def by blast
    with ab \<open>a \<noteq> []\<close> have "trim u \<noteq> []" "hd (trim u) = hd a"
      by (metis append_is_Nil_conv, metis append_assoc hd_append2)
    with trim_hd [of u] ws \<open>a \<noteq> []\<close> show False by simp
  qed
  with ab z have "t = trim_end_nul (trim t) @ (z @ b)" by (metis append_Nil append_assoc)
  with core ws nul show ?thesis
    by (intro exI [of _ "trim_end_nul (trim t)"] exI [of _ "z @ b"]) auto
qed

lemma sanitize_clean:
  assumes "u \<noteq> []" and "length u \<le> 64" and "\<forall>c \<in> set u. udid_char c"
  shows "sanitize_udid_for_path u = Some u"
proof -
  have "trim u = u" using assms udid_char_not_special by (intro trim_id) blast
  moreover have "trim_end_nul u = u"
    using assms udid_char_not_special [of "last u"] unfolding trim_end_nul_def
    by (intro trim_end_while_id) auto
  moreover from calculation have "validate_udid u = Ok ()"
    using assms by (simp add: validate_udid_iff Let_def)
  ultimately show ?thesis by (simp add: sanitize_udid_for_path_def)
qed

section \<open>Properties\<close>

text \<open>C34: A sanitized identifier cannot leave the directory it is joined to: it has no slash, no
  backslash and no dot, it starts with a hexadecimal digit or a dash, and apart from a tail of
  white space and NUL it consists of 1 to 64 such characters. Every string of 1 to 64
  hexadecimal digits and dashes is returned as it is.\<close>

theorem sanitized_udid_is_path_safe:
  "(sanitize_udid_for_path u = Some t \<longrightarrow>
      47 \<notin> set t \<and> 92 \<notin> set t \<and> 46 \<notin> set t \<and> t \<noteq> [] \<and> udid_char (hd t)
      \<and> (\<exists>core tail. t = core @ tail \<and> core \<noteq> [] \<and> length core \<le> MAX_UDID_LEN
           \<and> (\<forall>c \<in> set core. udid_char c) \<and> (\<forall>c \<in> set tail. is_whitespace c \<or> c = 0)))
   \<and> (u \<noteq> [] \<and> length u \<le> MAX_UDID_LEN \<and> (\<forall>c \<in> set u. udid_char c)
        \<longrightarrow> sanitize_udid_for_path u = Some u)"
proof (intro conjI impI)
  assume "sanitize_udid_for_path u = Some t"
  from sanitize_shape [OF this] obtain core tail where t: "t = core @ tail" "core \<noteq> []"
    "length core \<le> 64" "\<forall>c \<in> set core. udid_char c" "\<forall>c \<in> set tail. is_whitespace c \<or> c = 0" by blast
  then have ok: "\<forall>c \<in> set t. udid_char c \<or> is_whitespace c \<or> c = 0" by auto
  have "\<not> is_whitespace 47 \<and> \<not> is_whitespace 92 \<and> \<not> is_whitespace 46"
    "\<not> udid_char 47 \<and> \<not> udid_char 92 \<and> \<not> udid_char 46" by (simp_all add: is_whitespace_def udid_char_def)
  with ok show "47 \<notin> set t" "92 \<notin> set t" "46 \<notin> set t" by fastforce+
  from t show "t \<noteq> []" "udid_char (hd t)" by simp_all
  from t show "\<exists>core tail. t = core @ tail \<and> core \<noteq> [] \<and> length core \<le> MAX_UDID_LEN
           \<and> (\<forall>c \<in> set core. udid_char c) \<and> (\<forall>c \<in> set tail. is_whitespace c \<or> c = 0)"
    unfolding MAX_UDID_LEN_def by blast
qed (simp add: sanitize_clean MAX_UDID_LEN_def)

theorem sanitized_udid_is_path_safe_witness:
  "sanitize_udid_for_path (lit ''00008030-0A1B'') = Some (lit ''00008030-0A1B'')
   \<and> 47 \<notin> set (lit ''00008030-0A1B'')"
  using sanitized_udid_is_path_safe [of "lit ''00008030-0A1B''" "lit ''00008030-0A1B''"]
  by (simp add: udid_char_def MAX_UDID_LEN_def)

text \<open>Sanitizing does not always give a valid identifier in its trimmed form: the NULs are cut
  after the white space, so white space in front of a trailing NUL survives, and with more NULs
  behind it one stays inside the name.\<close>

theorem sanitize_keeps_inner_blank:
  "sanitize_udid_for_path (lit ''AB '' @ [0]) = Some (lit ''AB '')
   \<and> sanitize_udid_for_path (lit ''AB'' @ [0, 32, 0]) = Some (lit ''AB'' @ [0, 32])"
  by (simp add: sanitize_udid_for_path_def validate_udid_def trim_def trim_end_nul_def
      trim_end_while_def is_whitespace_def MAX_UDID_LEN_def str_len_def utf8_char_def
      UDID_CHARS_def contains_str.simps)

text \<open>The group lookup returns the number of the first line of the group file whose first
  field is the name and whose third is a 32-bit number, whatever precedes it under other names.\<close>

theorem resolve_group_gid_finds:
  assumes "\<forall>l \<in> set before. split_on 58 l ! 0 \<noteq> name"
    and "58 \<notin> set name" and "58 \<notin> set passwd" and "n < 2 ^ 32"
  shows "group_gid_of_lines name (before @ (name @ 58 # passwd @ 58 # show_nat n @ 58 # members) # after)
    = Some (word_of_nat n)"
proof -
  have "58 \<notin> set (show_nat n)" using show_nat_digits [of 58 n] by auto
  with assms(2,3) have "split_on 58 (name @ 58 # passwd @ 58 # show_nat n @ 58 # members)
      = name # passwd # show_nat n # split_on 58 members"
    by (simp add: split_on_append_sep)
  with assms(4) have "group_gid_of_lines name
      ((name @ 58 # passwd @ 58 # show_nat n @ 58 # members) # after) = Some (word_of_nat n)"
    by (simp add: parse_uint_show_nat)
  with assms(1) show ?thesis
    by (induction before) (simp_all add: Let_def)
qed

theorem resolve_group_gid_finds_witness:
  "resolve_group_gid (Some (lit ''root:x:0:'' @ [10] @ lit ''plugdev:x:46:ana'' @ [10])) (lit ''plugdev'') = Some 46"
  using resolve_group_gid_finds [of "[lit ''root:x:0:'']" "lit ''plugdev''" "lit ''x''" 46 "lit ''ana''" "[]"]
  by (simp add: resolve_group_gid_def str_lines_def strip_cr_def show_nat.simps)

end
