(* ===== verification/Usb_Protocol.thy ===== *)
theory Usb_Protocol
  imports Device_Scanner
begin

text \<open>
  \<open>daemon/protocol.rs\<close>: the packets between the daemon and its clients, a little-endian header
  of sixteen bytes and a property list. The property list crate is not part of the sources: its
  values are the datatype \<open>plist\<close>, its dictionaries keep insertion order, and its writer and
  its two readers are arguments. What the round trips need of them is a hypothesis: reading
  back what the XML writer wrote gives the same dictionary, and XML text does not begin with
  the letter b that marks the binary format.

  A stream is the list of the bytes that can still be read from it; its end is the end of file.
\<close>

section \<open>Property lists and I/O errors\<close>

datatype plist =
    PString rstr
  | PInteger int
  | PBoolean bool
  | PData bytes
  | PArray "plist list"
  | PDictionary "(rstr \<times> plist) list"
  | POther rstr

type_synonym dictionary = "(rstr \<times> plist) list"

text \<open>\<open>insert\<close> replaces the value of a key in place and otherwise appends.\<close>

fun dict_insert :: "rstr \<Rightarrow> plist \<Rightarrow> dictionary \<Rightarrow> dictionary" where
  "dict_insert k v [] = [(k, v)]"
| "dict_insert k v ((k', v') # d) = (if k' = k then (k, v) # d else (k', v') # dict_insert k v d)"

abbreviation dict_get :: "dictionary \<Rightarrow> rstr \<Rightarrow> plist option" where
  "dict_get d k \<equiv> map_of d k"

datatype io_kind =
    UnexpectedEof | InvalidData | NotFound | InvalidInput | PermissionDenied | Unsupported | OtherKind

datatype io_error = Io io_kind rstr

fun err_kind :: "io_error \<Rightarrow> io_kind" where
  "err_kind (Io k msg) = k"

fun err_text :: "io_error \<Rightarrow> rstr" where
  "err_text (Io k msg) = msg"

fun map_err :: "('e \<Rightarrow> 'f) \<Rightarrow> ('e, 'a) res \<Rightarrow> ('f, 'a) res" where
  "map_err f (Ok x) = Ok x"
| "map_err f (Err e) = Err (f e)"
| "map_err f Panic = Panic"

lemma map_err_Ok [simp]: "map_err f r = Ok x \<longleftrightarrow> r = Ok x"
  by (cases r) auto

section \<open>Packets\<close>

definition XML_PLIST_VERSION :: u32 where "XML_PLIST_VERSION = 1"

definition PLIST_MESSAGE_TYPE :: u32 where "PLIST_MESSAGE_TYPE = 8"

definition RESULT_OK :: u32 where "RESULT_OK = 0"

definition BAD_COMMAND :: u32 where "BAD_COMMAND = 1"

definition BAD_DEVICE :: u32 where "BAD_DEVICE = 2"

definition CONNECTION_REFUSED :: u32 where "CONNECTION_REFUSED = 3"

definition PAIR_RECORD_REQUIRED :: u32 where "PAIR_RECORD_REQUIRED = 8"

lemmas result_defs = RESULT_OK_def BAD_COMMAND_def BAD_DEVICE_def CONNECTION_REFUSED_def
  PAIR_RECORD_REQUIRED_def

record raw_packet =
  rp_size :: u32
  rp_version :: u32
  rp_message :: u32
  rp_tag :: u32
  rp_plist :: dictionary

definition raw_packet_new :: "dictionary \<Rightarrow> u32 \<Rightarrow> u32 \<Rightarrow> u32 \<Rightarrow> raw_packet" where
  "raw_packet_new d version message tag =
     \<lparr>rp_size = 0, rp_version = version, rp_message = message, rp_tag = tag, rp_plist = d\<rparr>"

type_synonym plist_writer = "dictionary \<Rightarrow> (rstr, bytes) res"
type_synonym plist_reader = "bytes \<Rightarrow> (rstr, dictionary) res"

text \<open>The bytes \<open>write_to\<close> passes to the stream.\<close>

definition write_to :: "plist_writer \<Rightarrow> raw_packet \<Rightarrow> (io_error, bytes) res" where
  "write_to to_xml p =
     (case to_xml (rp_plist p) of
        Err e \<Rightarrow> Err (Io InvalidData e)
      | Panic \<Rightarrow> Panic
      | Ok plist_bytes \<Rightarrow>
          Ok (le32 (word_of_nat (length plist_bytes + 16)) @ le32 (rp_version p) @ le32 (rp_message p)
              @ le32 (rp_tag p) @ plist_bytes))"

text \<open>\<open>read_exact\<close>: the bytes and the rest of the stream, or the end of the file.\<close>

definition read_exact :: "nat \<Rightarrow> bytes \<Rightarrow> (io_error, bytes \<times> bytes) res" where
  "read_exact n stream =
     (if n \<le> length stream then Ok (take n stream, drop n stream)
      else Err (Io UnexpectedEof (lit ''early eof'')))"

definition parse_body :: "plist_reader \<Rightarrow> plist_reader \<Rightarrow> bytes \<Rightarrow> (io_error, dictionary) res" where
  "parse_body from_binary from_xml body =
     (if body \<noteq> [] \<and> hd body = 98 then
        (case from_binary body of
           Ok d \<Rightarrow> Ok d
         | Err e \<Rightarrow> Err (Io InvalidData (lit ''binary plist parse error: '' @ e))
         | Panic \<Rightarrow> Panic)
      else
        (case from_xml body of
           Ok d \<Rightarrow> Ok d
         | Err e \<Rightarrow> Err (Io InvalidData (lit ''xml plist parse error: '' @ e))
         | Panic \<Rightarrow> Panic))"

definition read_packet ::
  "plist_reader \<Rightarrow> plist_reader \<Rightarrow> usize \<Rightarrow> bytes \<Rightarrow> (io_error, raw_packet \<times> bytes) res" where
  "read_packet from_binary from_xml max_packet_bytes stream =
     res_bind (read_exact 16 stream) (\<lambda>(header, stream1).
     res_bind (or_panic (read_le32 header 0)) (\<lambda>size.
     res_bind (or_panic (read_le32 header 4)) (\<lambda>version.
     res_bind (or_panic (read_le32 header 8)) (\<lambda>message.
     res_bind (or_panic (read_le32 header 12)) (\<lambda>tag.
     if size < 16 then
       Err (Io InvalidData (lit ''packet size too small: '' @ show_nat (unat size) @ lit '' bytes''))
     else
       let body_size = unat (size - 16) in
       if max_packet_bytes < body_size then
         Err (Io InvalidData (lit ''packet body too large: '' @ show_nat body_size
           @ lit '' bytes (max '' @ show_nat max_packet_bytes @ lit '')''))
       else
         res_bind (read_exact body_size stream1) (\<lambda>(body, stream2).
         res_bind (parse_body from_binary from_xml body) (\<lambda>d.
         Ok (\<lparr>rp_size = size, rp_version = version, rp_message = message, rp_tag = tag, rp_plist = d\<rparr>,
             stream2))))))))"

section \<open>Responses and events\<close>

definition make_result_response :: "u32 \<Rightarrow> u32 \<Rightarrow> raw_packet" where
  "make_result_response tag number =
     raw_packet_new
       (dict_insert (lit ''Number'') (PInteger (uint number))
         (dict_insert (lit ''MessageType'') (PString (lit ''Result'')) []))
       XML_PLIST_VERSION PLIST_MESSAGE_TYPE tag"

definition device_props :: "usb_device \<Rightarrow> dictionary" where
  "device_props dev =
     dict_insert (lit ''Port'') (PInteger 0)
       (dict_insert (lit ''LocationID'') (PInteger 0)
         (dict_insert (lit ''ProductID'') (PInteger (uint (u_product_id dev)))
           (dict_insert (lit ''SerialNumber'') (PString (u_udid dev))
             (dict_insert (lit ''ConnectionType'') (PString (lit ''USB''))
               (dict_insert (lit ''DeviceID'') (PInteger (uint (u_device_id dev))) [])))))"

definition make_device_list_response :: "u32 \<Rightarrow> usb_device list \<Rightarrow> raw_packet" where
  "make_device_list_response tag devices =
     raw_packet_new
       (dict_insert (lit ''DeviceList'')
         (PArray (map (\<lambda>dev. PDictionary (dict_insert (lit ''Properties'') (PDictionary (device_props dev)) [])) devices))
         [])
       XML_PLIST_VERSION PLIST_MESSAGE_TYPE tag"

definition make_attached_event :: "u32 \<Rightarrow> usb_device \<Rightarrow> raw_packet" where
  "make_attached_event tag dev =
     raw_packet_new
       (dict_insert (lit ''Properties'') (PDictionary (device_props dev))
         (dict_insert (lit ''DeviceID'') (PInteger (uint (u_device_id dev)))
           (dict_insert (lit ''MessageType'') (PString (lit ''Attached'')) [])))
       XML_PLIST_VERSION PLIST_MESSAGE_TYPE tag"

definition make_detached_event :: "u32 \<Rightarrow> u32 \<Rightarrow> raw_packet" where
  "make_detached_event tag device_id =
     raw_packet_new
       (dict_insert (lit ''DeviceID'') (PInteger (uint device_id))
         (dict_insert (lit ''MessageType'') (PString (lit ''Detached'')) []))
       XML_PLIST_VERSION PLIST_MESSAGE_TYPE tag"

definition make_stats_response :: "u32 \<Rightarrow> rstr \<Rightarrow> raw_packet" where
  "make_stats_response tag json =
     raw_packet_new
       (dict_insert (lit ''Stats'') (PString json)
         (dict_insert (lit ''Number'') (PInteger 0)
           (dict_insert (lit ''MessageType'') (PString (lit ''Result'')) [])))
       XML_PLIST_VERSION PLIST_MESSAGE_TYPE tag"

definition make_stats_command :: "u32 \<Rightarrow> raw_packet" where
  "make_stats_command tag =
     raw_packet_new (dict_insert (lit ''MessageType'') (PString (lit ''MeridianStats'')) [])
       XML_PLIST_VERSION PLIST_MESSAGE_TYPE tag"

definition write_packet :: "plist_writer \<Rightarrow> raw_packet \<Rightarrow> (io_error, bytes) res" where
  "write_packet to_xml p = write_to to_xml p"

section \<open>Lemmas\<close>

text \<open>What the daemon relies on in the property list crate, for one dictionary.\<close>

definition xml_roundtrip :: "plist_writer \<Rightarrow> plist_reader \<Rightarrow> dictionary \<Rightarrow> bytes \<Rightarrow> bool" where
  "xml_roundtrip to_xml from_xml d xml \<longleftrightarrow>
     to_xml d = Ok xml \<and> from_xml xml = Ok d \<and> \<not> (xml \<noteq> [] \<and> hd xml = 98)"

lemma dict_get_insert [simp]: "dict_get (dict_insert k v d) k' = (if k' = k then Some v else dict_get d k')"
  by (induction d) auto

lemma read_exact_append: "length xs = n \<Longrightarrow> read_exact n (xs @ ys) = Ok (xs, ys)"
  by (simp add: read_exact_def)

lemma read_le32_fields:
  "read_le32 (le32 a @ le32 b @ le32 c @ le32 d) 0 = Some a"
  "read_le32 (le32 a @ le32 b @ le32 c @ le32 d) 4 = Some b"
  "read_le32 (le32 a @ le32 b @ le32 c @ le32 d) 8 = Some c"
  "read_le32 (le32 a @ le32 b @ le32 c @ le32 d) 12 = Some d"
  using read_le32_at [of "[]" 0 a] read_le32_at [of "le32 a" 4 b]
    read_le32_at [of "le32 a @ le32 b" 8 c] read_le32_at [of "le32 a @ le32 b @ le32 c" 12 d "[]"]
  by simp_all

lemma read_write_packet:
  assumes "xml_roundtrip to_xml from_xml (rp_plist p) xml"
    and "length xml + 16 < 2 ^ 32" and "length xml \<le> mx"
  shows "\<exists>bs. write_to to_xml p = Ok bs \<and> length bs = length xml + 16
     \<and> read_packet from_binary from_xml mx (bs @ rest)
        = Ok (p\<lparr>rp_size := word_of_nat (length xml + 16)\<rparr>, rest)"
proof -
  let ?size = "word_of_nat (length xml + 16) :: u32"
  let ?hdr = "le32 ?size @ le32 (rp_version p) @ le32 (rp_message p) @ le32 (rp_tag p)"
  have size: "unat ?size = length xml + 16"
    using assms(2) by (simp add: unat_of_nat del: of_nat_add of_nat_numeral)
  then have big: "\<not> ?size < 16" and body: "unat (?size - 16) = length xml"
    by (simp_all add: word_less_nat_alt unat_sub word_le_nat_alt del: of_nat_add of_nat_numeral)
  have xml: "to_xml (rp_plist p) = Ok xml" "parse_body from_binary from_xml xml = Ok (rp_plist p)"
    using assms(1) by (auto simp: xml_roundtrip_def parse_body_def)
  have "read_packet from_binary from_xml mx (?hdr @ xml @ rest)
      = Ok (p\<lparr>rp_size := ?size\<rparr>, rest)"
    using read_exact_append [of ?hdr 16 "xml @ rest"] read_exact_append [of xml "length xml" rest] big body assms(3)
    by (simp add: read_packet_def read_le32_fields xml Let_def del: of_nat_add of_nat_numeral)
  moreover have "write_to to_xml p = Ok (?hdr @ xml)" by (simp add: write_to_def xml)
  ultimately show ?thesis by (intro exI [of _ "?hdr @ xml"]) (simp del: of_nat_add of_nat_numeral)
qed

text \<open>Packets read one after the other.\<close>

fun read_packets ::
  "plist_reader \<Rightarrow> plist_reader \<Rightarrow> usize \<Rightarrow> nat \<Rightarrow> bytes \<Rightarrow> (io_error, raw_packet list \<times> bytes) res" where
  "read_packets from_binary from_xml mx 0 stream = Ok ([], stream)"
| "read_packets from_binary from_xml mx (Suc n) stream =
     res_bind (read_packet from_binary from_xml mx stream) (\<lambda>(p, stream1).
     res_bind (read_packets from_binary from_xml mx n stream1) (\<lambda>(ps, stream2).
     Ok (p # ps, stream2)))"

text \<open>The header of a packet that was written: the size is that of the written bytes.\<close>

definition sized :: "plist_writer \<Rightarrow> raw_packet \<Rightarrow> raw_packet" where
  "sized to_xml p = (case to_xml (rp_plist p) of
     Ok xml \<Rightarrow> p\<lparr>rp_size := word_of_nat (length xml + 16)\<rparr> | _ \<Rightarrow> p)"

definition packet_bytes :: "plist_writer \<Rightarrow> raw_packet \<Rightarrow> bytes" where
  "packet_bytes to_xml p = (case write_to to_xml p of Ok bs \<Rightarrow> bs | _ \<Rightarrow> [])"

section \<open>Properties\<close>

text \<open>C29: A sequence of packets written by one side is read back by the other, packet for packet:
  versions, message types, tags and dictionaries are those written, the size field counts header
  and body, and the stream is left exactly behind the last packet.\<close>

theorem packet_stream_roundtrip:
  assumes "\<forall>p \<in> set ps. \<exists>xml. xml_roundtrip to_xml from_xml (rp_plist p) xml
              \<and> length xml + 16 < 2 ^ 32 \<and> length xml \<le> mx"
  shows "read_packets from_binary from_xml mx (length ps) (concat (map (packet_bytes to_xml) ps) @ rest)
     = Ok (map (sized to_xml) ps, rest)"
  using assms
proof (induction ps)
  case (Cons p ps)
  then obtain xml where xml: "xml_roundtrip to_xml from_xml (rp_plist p) xml" "length xml + 16 < 2 ^ 32"
      "length xml \<le> mx" by auto
  from read_write_packet [OF this] obtain bs where "write_to to_xml p = Ok bs"
    and "read_packet from_binary from_xml mx (bs @ r) = Ok (p\<lparr>rp_size := word_of_nat (length xml + 16)\<rparr>, r)" for r
    by (metis res.inject(1))
  moreover have "sized to_xml p = p\<lparr>rp_size := word_of_nat (length xml + 16)\<rparr>"
    using xml(1) by (simp add: sized_def xml_roundtrip_def)
  ultimately show ?case using Cons by (simp add: packet_bytes_def)
qed simp

theorem packet_stream_roundtrip_witness:
  "read_packets (\<lambda>_. Panic) (\<lambda>_. Ok (rp_plist (make_stats_command 1))) 64
     (length [make_stats_command 1, make_stats_command 2])
     (concat (map (packet_bytes (\<lambda>_. Ok [60])) [make_stats_command 1, make_stats_command 2]) @ [7])
   = Ok (map (sized (\<lambda>_. Ok [60])) [make_stats_command 1, make_stats_command 2], [7])"
  by (rule packet_stream_roundtrip) (simp add: xml_roundtrip_def make_stats_command_def raw_packet_new_def)

text \<open>The size a packet announces in its header.\<close>

definition announced :: "bytes \<Rightarrow> u32" where
  "announced stream = the (read_le32 (take 16 stream) 0)"

lemma read_packet_long:
  assumes "16 \<le> length stream"
  defines "n \<equiv> unat (announced stream - 16)"
  shows "read_packet from_binary from_xml mx stream =
    (if announced stream < 16 then
       Err (Io InvalidData (lit ''packet size too small: '' @ show_nat (unat (announced stream)) @ lit '' bytes''))
     else if mx < n then Err (Io InvalidData (lit ''packet body too large: '' @ show_nat n
           @ lit '' bytes (max '' @ show_nat mx @ lit '')''))
     else if length stream - 16 < n then Err (Io UnexpectedEof (lit ''early eof''))
     else res_bind (parse_body from_binary from_xml (take n (drop 16 stream)))
       (\<lambda>d. Ok (\<lparr>rp_size = announced stream, rp_version = the (read_le32 (take 16 stream) 4),
             rp_message = the (read_le32 (take 16 stream) 8), rp_tag = the (read_le32 (take 16 stream) 12),
             rp_plist = d\<rparr>, drop n (drop 16 stream))))"
proof -
  have "\<exists>w. read_le32 (take 16 stream) i = Some w" if "i \<le> 12" for i
    using that assms(1) by (simp add: read_le32_def)
  from this [of 0] this [of 4] this [of 8] this [of 12] obtain a b c d where
    "read_le32 (take 16 stream) 0 = Some a" "read_le32 (take 16 stream) 4 = Some b"
    "read_le32 (take 16 stream) 8 = Some c" "read_le32 (take 16 stream) 12 = Some d" by auto
  with assms(1) show ?thesis
    unfolding n_def announced_def by (simp add: read_packet_def read_exact_def Let_def)
qed

lemma body_size: "\<not> announced stream < 16 \<Longrightarrow> unat (announced stream) = 16 + unat (announced stream - 16)"
  by (simp add: word_less_nat_alt unat_sub word_le_nat_alt)

lemma parse_body_kind: "parse_body from_binary from_xml b = Err (Io kind msg) \<Longrightarrow> kind = InvalidData"
  by (auto simp: parse_body_def split: if_splits res.splits)

lemma take_within: "n + k \<le> m \<Longrightarrow> take m xs = take m ys \<Longrightarrow> take n (drop k xs) = take n (drop k ys)"
proof -
  assume "n + k \<le> m" and eq: "take m xs = take m ys"
  then have "take n (drop k zs) = take n (drop k (take m zs))" for zs :: "'a list" by (simp add: drop_take)
  then show ?thesis using eq by metis
qed

text \<open>A stream that agrees with another on the header and a body of the allowed size fails alike.\<close>

lemma read_packet_local:
  assumes "take (16 + mx) stream' = take (16 + mx) stream" and "read_packet from_binary from_xml mx stream = Err e"
  shows "read_packet from_binary from_xml mx stream' = Err e"
proof (cases "length stream < 16 + mx")
  case True
  with assms(1) have "length (take (16 + mx) stream') < 16 + mx" "take (16 + mx) stream = stream" by simp_all
  then have "take (16 + mx) stream' = stream'" by (simp add: min_def split: if_splits)
  with assms(1) \<open>take (16 + mx) stream = stream\<close> have "stream' = stream" by simp
  with assms(2) show ?thesis by simp
next
  case False
  have len: "16 + mx \<le> length stream'" using False arg_cong [OF assms(1), of length] by simp
  have h: "take 16 stream' = take 16 stream" using take_within [of 16 0 "16 + mx", OF _ assms(1)] by simp
  then have size: "announced stream' = announced stream" by (simp add: announced_def)
  have body: "take n (drop 16 stream') = take n (drop 16 stream)" if "n \<le> mx" for n
    using take_within [of n 16 "16 + mx", OF _ assms(1)] that by simp
  show ?thesis
    using assms(2) False len
    by (cases "parse_body from_binary from_xml (take (unat (announced stream - 16)) (drop 16 stream))")
      (auto simp: read_packet_long [of stream] read_packet_long [of stream'] size h body split: if_splits)
qed

text \<open>C30: Reading a packet never panics (as long as the property list readers do not). It reads at
  most the header and \<open>max_packet_bytes\<close> bytes of body: a packet that is read takes a body of at
  most that size and leaves the rest of the stream alone, and a failure does not depend on
  anything behind those bytes. It reports the end of the file exactly when the stream ends within
  the header or within a body of admissible size.\<close>

theorem read_packet_bounded:
  assumes "\<forall>b. from_binary b \<noteq> Panic" and "\<forall>b. from_xml b \<noteq> Panic"
  shows "read_packet from_binary from_xml mx stream \<noteq> Panic
    \<and> (\<forall>p rest. read_packet from_binary from_xml mx stream = Ok (p, rest) \<longrightarrow>
         (\<exists>body. length body \<le> mx \<and> unat (rp_size p) = 16 + length body
            \<and> stream = take 16 stream @ body @ rest))
    \<and> (\<forall>e stream'. read_packet from_binary from_xml mx stream = Err e
         \<and> take (16 + mx) stream' = take (16 + mx) stream \<longrightarrow> read_packet from_binary from_xml mx stream' = Err e)
    \<and> ((\<exists>msg. read_packet from_binary from_xml mx stream = Err (Io UnexpectedEof msg)) \<longleftrightarrow>
         length stream < 16
         \<or> 16 \<le> announced stream \<and> unat (announced stream) - 16 \<le> mx \<and> length stream < unat (announced stream))"
proof (cases "length stream < 16")
  case True
  then show ?thesis
    using read_packet_local [of mx _ stream from_binary from_xml] by (auto simp: read_packet_def read_exact_def)
next
  case False
  have body: "parse_body from_binary from_xml b \<noteq> Panic" for b
    using assms by (auto simp: parse_body_def split: res.splits)
  define n where "n = unat (announced stream - 16)"
  note eq = read_packet_long [of stream from_binary from_xml mx, folded n_def]
  have size: "\<not> announced stream < 16 \<Longrightarrow> unat (announced stream) = 16 + n"
    unfolding n_def by (rule body_size)
  have ok: "read_packet from_binary from_xml mx stream \<noteq> Panic
    \<and> (\<forall>p rest. read_packet from_binary from_xml mx stream = Ok (p, rest) \<longrightarrow>
         (\<exists>body. length body \<le> mx \<and> unat (rp_size p) = 16 + length body \<and> stream = take 16 stream @ body @ rest))"
    using eq body [of "take n (drop 16 stream)"] False size
    by (auto simp: res_bind_eq_Ok res_bind_eq_Panic intro!: exI [of _ "take n (drop 16 stream)"])
       (metis append_take_drop_id drop_drop add.commute)
  have "(\<exists>msg. read_packet from_binary from_xml mx stream = Err (Io UnexpectedEof msg)) \<longleftrightarrow>
      \<not> announced stream < 16 \<and> n \<le> mx \<and> length stream - 16 < n"
    using eq False parse_body_kind [of from_binary from_xml "take n (drop 16 stream)"]
    by (cases "parse_body from_binary from_xml (take n (drop 16 stream))") (auto simp: not_less split: if_splits)
  with size False have "(\<exists>msg. read_packet from_binary from_xml mx stream = Err (Io UnexpectedEof msg)) \<longleftrightarrow> length stream < 16
      \<or> 16 \<le> announced stream \<and> unat (announced stream) - 16 \<le> mx \<and> length stream < unat (announced stream)"
    by (auto simp: not_less)
  with ok show ?thesis using read_packet_local by blast
qed

theorem read_packet_bounded_witness:
  "\<exists>msg. read_packet (\<lambda>_. Err []) (\<lambda>_. Err []) 64 (le32 20 @ replicate 12 0 @ [1, 2, 3]) = Err (Io UnexpectedEof msg)"
proof -
  define s :: bytes where "s = le32 20 @ replicate 12 0 @ [1, 2, 3]"
  have "announced s = 20"
    using read_le32_at [where xs = "[]" and i = 0 and w = 20 and ys = "replicate 12 0"] by (simp add: announced_def s_def)
  moreover have "length s = 19" by (simp add: s_def)
  ultimately have "16 \<le> announced s \<and> unat (announced s) - 16 \<le> 64 \<and> length s < unat (announced s)"
    by (simp add: word_le_nat_alt)
  moreover have "\<forall>b. (Err [] :: (rstr, dictionary) res) \<noteq> Panic" by simp
  ultimately have "\<exists>msg. read_packet (\<lambda>_. Err []) (\<lambda>_. Err []) 64 s = Err (Io UnexpectedEof msg)"
    using read_packet_bounded [of "\<lambda>_. Err []" "\<lambda>_. Err []" 64 s] by blast
  then show ?thesis unfolding s_def .
qed

end
