(* ===== verification/Pair_Records.thy ===== *)
theory Pair_Records
  imports Security Usb_Protocol
begin

text \<open>
  The lockdown directory: pair records and the host's BUID, from \<open>daemon/connection.rs\<close>
  (\<open>has_pair_record\<close> to \<open>get_or_create_buid\<close>) and \<open>secure_write_secret\<close> of
  \<open>platform/unix.rs\<close>. The directory is a map from names to nodes; what the file system answers
  follows POSIX: \<open>metadata\<close> and \<open>read\<close> follow symbolic links, opening with \<open>O_NOFOLLOW\<close> refuses
  them, the creation mode applies only to a new file, and no name holds a NUL. The order in
  which \<open>read_dir\<close> lists the names is an argument.

  The locale \<open>secret_store\<close> is the contract of the platform's secure write, with the unix
  implementation as an interpretation.
  The locale \<open>pair_store\<close> is the contract the client handler relies on; the daemon's three
  operations are its interpretation.
\<close>

section \<open>The directory\<close>

datatype node =
    Regular bytes u32
  | Symlink "bytes option"
  | SubDir

record lockdown_dir =
  ld_exists :: bool
  ld_files :: "rstr \<rightharpoonup> node"

type_synonym dir_iter = "(rstr \<rightharpoonup> node) \<Rightarrow> rstr list"

definition fs_lookup :: "lockdown_dir \<Rightarrow> rstr \<Rightarrow> node option" where
  "fs_lookup ld name = (if ld_exists ld \<and> 0 \<notin> set name then ld_files ld name else None)"

definition fs_metadata_ok :: "lockdown_dir \<Rightarrow> rstr \<Rightarrow> bool" where
  "fs_metadata_ok ld name = (case fs_lookup ld name of
     Some (Regular _ _) \<Rightarrow> True | Some (Symlink (Some _)) \<Rightarrow> True | Some SubDir \<Rightarrow> True | _ \<Rightarrow> False)"

definition fs_read :: "lockdown_dir \<Rightarrow> rstr \<Rightarrow> (io_error, bytes) res" where
  "fs_read ld name = (case fs_lookup ld name of
     Some (Regular b _) \<Rightarrow> Ok b
   | Some (Symlink (Some b)) \<Rightarrow> Ok b
   | Some SubDir \<Rightarrow> Err (Io OtherKind (lit ''Is a directory''))
   | _ \<Rightarrow> Err (Io NotFound (lit ''No such file or directory'')))"

text \<open>\<open>remove_file\<close> unlinks a file or a link, never a directory.\<close>

definition fs_remove :: "lockdown_dir \<Rightarrow> rstr \<Rightarrow> (io_error, unit) res \<times> lockdown_dir" where
  "fs_remove ld name = (case fs_lookup ld name of
     None \<Rightarrow> (Err (Io NotFound (lit ''No such file or directory'')), ld)
   | Some SubDir \<Rightarrow> (Err (Io OtherKind (lit ''Is a directory'')), ld)
   | Some _ \<Rightarrow> (Ok (), ld\<lparr>ld_files := (ld_files ld)(name := None)\<rparr>))"

text \<open>
  \<open>secure_write_secret\<close>. The argument \<open>short\<close> is the outcome of the write and the sync: \<open>None\<close>
  for success, else the number of bytes written before the error. The file is truncated when
  it is opened.
\<close>

definition secure_write_secret ::
  "nat option \<Rightarrow> lockdown_dir \<Rightarrow> rstr \<Rightarrow> bytes \<Rightarrow> (io_error, unit) res \<times> lockdown_dir" where
  "secure_write_secret short ld name data =
     (if \<not> ld_exists ld then (Err (Io NotFound (lit ''No such file or directory'')), ld)
      else if 0 \<in> set name then (Err (Io InvalidInput (lit ''file name contained an unexpected NUL byte'')), ld)
      else case ld_files ld name of
        Some (Symlink _) \<Rightarrow> (Err (Io OtherKind (lit ''Too many levels of symbolic links'')), ld)
      | Some SubDir \<Rightarrow> (Err (Io OtherKind (lit ''Is a directory'')), ld)
      | old \<Rightarrow>
          let mode = (case old of Some (Regular _ m) \<Rightarrow> m | _ \<Rightarrow> 384) in
          (case short of
             None \<Rightarrow> (Ok (), ld\<lparr>ld_files := (ld_files ld)(name \<mapsto> Regular data mode)\<rparr>)
           | Some n \<Rightarrow> (Err (Io OtherKind (lit ''write failed'')),
                        ld\<lparr>ld_files := (ld_files ld)(name \<mapsto> Regular (take n data) mode)\<rparr>)))"

text \<open>
  The random half of a BUID (\<open>random_u64\<close>): eight bytes of \<open>/dev/urandom\<close> in the byte order of
  the machine, or the fallback generator when it cannot be opened or read. \<open>urandom\<close> is what the
  device delivers, \<open>None\<close> if it cannot be opened.
\<close>

definition random_u64 :: "(bytes \<Rightarrow> u64) \<Rightarrow> bytes option \<Rightarrow> u64 \<Rightarrow> u64" where
  "random_u64 from_ne_bytes urandom fallback =
     (case urandom of
        Some bs \<Rightarrow> (case read_exact 8 bs of Ok (buf, rest) \<Rightarrow> from_ne_bytes buf | _ \<Rightarrow> fallback)
      | None \<Rightarrow> fallback)"

section \<open>The contract of a secret store\<close>

text \<open>
  What the pair records rely on in the platform's \<open>secure_write_secret\<close>: a successful write is
  what is read, nothing else changes, and a link is never followed. The unix and the windows
  implementations are its interpretations.
\<close>

locale secret_store =
  fixes put :: "'s \<Rightarrow> rstr \<Rightarrow> bytes \<Rightarrow> ('e, unit) res \<times> 's"
    and content :: "'s \<Rightarrow> rstr \<Rightarrow> bytes option"
    and is_link :: "'s \<Rightarrow> rstr \<Rightarrow> bool"
  assumes write_content: "put s n b = (Ok (), s') \<Longrightarrow> content s' n = Some b"
    and write_elsewhere: "m \<noteq> n \<Longrightarrow> content (snd (put s n b)) m = content s m"
    and write_no_link: "is_link s n \<Longrightarrow> \<exists>e. put s n b = (Err e, s)"
begin

primrec write_all :: "'s \<Rightarrow> (rstr \<times> bytes) list \<Rightarrow> bool \<times> 's" where
  "write_all s [] = (True, s)"
| "write_all s (x # xs) =
     (let (r, s1) = put s (fst x) (snd x); (ok, s2) = write_all s1 xs in (r = Ok () \<and> ok, s2))"

text \<open>After any run of successful writes each name holds the last secret written to it.\<close>

lemma last_write_wins:
  assumes "write_all s ws = (True, s')"
  shows "content s' n = (case map_of (rev ws) n of Some b \<Rightarrow> Some b | None \<Rightarrow> content s n)"
  using assms
proof (induction ws arbitrary: s)
  case (Cons w ws)
  obtain r s1 where w: "put s (fst w) (snd w) = (r, s1)" by fastforce
  with Cons.prems have r: "r = Ok ()" "write_all s1 ws = (True, s')" by (auto simp: Let_def split: prod.splits)
  have "content s1 n = (if n = fst w then Some (snd w) else content s n)"
    using write_content [of s "fst w" "snd w" s1] write_elsewhere [of n "fst w" s "snd w"] w r(1) by auto
  with Cons.IH [OF r(2)] show ?case by (auto simp: map_add_def split: option.splits)
qed simp

end

definition secret_content :: "lockdown_dir \<Rightarrow> rstr \<Rightarrow> bytes option" where
  "secret_content ld name = (case fs_lookup ld name of Some (Regular b m) \<Rightarrow> Some b | _ \<Rightarrow> None)"

definition secret_link :: "lockdown_dir \<Rightarrow> rstr \<Rightarrow> bool" where
  "secret_link ld name = (case fs_lookup ld name of Some (Symlink t) \<Rightarrow> True | _ \<Rightarrow> False)"

interpretation unix_secrets: secret_store "secure_write_secret short" secret_content secret_link for short
proof unfold_locales
  fix ld ld' :: lockdown_dir and n m :: rstr and b :: bytes
  show "secret_content ld' n = Some b" if "secure_write_secret short ld n b = (Ok (), ld')"
    using that
    by (auto simp: secure_write_secret_def secret_content_def fs_lookup_def Let_def split: if_splits option.splits node.splits)
  show "secret_content (snd (secure_write_secret short ld n b)) m = secret_content ld m" if "m \<noteq> n"
    using that
    by (auto simp: secure_write_secret_def secret_content_def fs_lookup_def Let_def split: option.splits node.splits)
  show "\<exists>e. secure_write_secret short ld n b = (Err e, ld)" if "secret_link ld n"
    using that by (auto simp: secure_write_secret_def secret_link_def fs_lookup_def split: if_splits option.splits node.splits)
qed

section \<open>Pair records\<close>

definition raw_udid :: "rstr \<Rightarrow> rstr" where
  "raw_udid udid = trim_end_nul (trim udid)"

definition plist_name :: "rstr \<Rightarrow> rstr" where
  "plist_name stem = stem @ lit ''.plist''"

text \<open>The dashed form of a 24-byte identifier; the slice panics off a character boundary.\<close>

definition dashed_udid :: "rstr \<Rightarrow> ('e, rstr) res" where
  "dashed_udid raw =
     (if str_len raw = 24 \<and> 45 \<notin> set raw
      then res_bind (or_panic (str_split_at 8 raw)) (\<lambda>(l, r). Ok (l @ lit ''-'' @ r))
      else Ok raw)"

text \<open>The search through the directory: the first name with a matching stem.\<close>

definition stem_matches :: "rstr \<Rightarrow> rstr \<Rightarrow> rstr \<Rightarrow> bool" where
  "stem_matches raw dashed name \<longleftrightarrow> ends_with name (lit ''.plist'')
     \<and> (trim_end_str (lit ''.plist'') name = raw \<or> trim_end_str (lit ''.plist'') name = dashed)"

definition has_pair_record :: "dir_iter \<Rightarrow> lockdown_dir \<Rightarrow> rstr \<Rightarrow> (io_error, bool) res" where
  "has_pair_record entries ld udid =
     (if \<not> ld_exists ld then Ok False
      else
        let raw = raw_udid udid in
        res_bind (dashed_udid raw) (\<lambda>dashed.
        if fs_metadata_ok ld (plist_name raw) then Ok True
        else if fs_metadata_ok ld (plist_name dashed) then Ok True
        else Ok (find (stem_matches raw dashed) (entries (ld_files ld)) \<noteq> None)))"

definition read_pair_record :: "dir_iter \<Rightarrow> lockdown_dir \<Rightarrow> rstr \<Rightarrow> (io_error, bytes) res" where
  "read_pair_record entries ld udid =
     (if \<not> ld_exists ld then Err (Io NotFound (lit ''lockdown directory not found''))
      else
        let raw = raw_udid udid in
        res_bind (dashed_udid raw) (\<lambda>dashed.
        if fs_metadata_ok ld (plist_name raw) then fs_read ld (plist_name raw)
        else if fs_metadata_ok ld (plist_name dashed) then fs_read ld (plist_name dashed)
        else case find (stem_matches raw dashed) (entries (ld_files ld)) of
          Some name \<Rightarrow> fs_read ld name
        | None \<Rightarrow> Err (Io NotFound (lit ''pair record not found for '' @ udid))))"

text \<open>\<open>mkdir\<close> is the outcome of \<open>create_dir_all\<close>.\<close>

definition create_dir_all :: "(io_error, unit) res \<Rightarrow> lockdown_dir \<Rightarrow> (io_error, unit) res \<times> lockdown_dir" where
  "create_dir_all mkdir ld = (case mkdir of
     Ok _ \<Rightarrow> (Ok (), ld\<lparr>ld_exists := True\<rparr>) | r \<Rightarrow> (r, ld))"

definition save_pair_record ::
  "(io_error, unit) res \<Rightarrow> nat option \<Rightarrow> lockdown_dir \<Rightarrow> rstr \<Rightarrow> bytes \<Rightarrow> (io_error, unit) res \<times> lockdown_dir" where
  "save_pair_record mkdir short ld udid data =
     (let (made, ld1) = (if ld_exists ld then (Ok (), ld) else create_dir_all mkdir ld) in
      case made of
        Ok _ \<Rightarrow>
          (case sanitize_udid_for_path udid of
             None \<Rightarrow> (Err (Io InvalidInput (lit ''invalid UDID for path'')), ld1)
           | Some safe_name \<Rightarrow> secure_write_secret short ld1 (plist_name safe_name) data)
      | r \<Rightarrow> (r, ld1))"

definition delete_pair_record :: "lockdown_dir \<Rightarrow> rstr \<Rightarrow> (io_error, unit) res \<times> lockdown_dir" where
  "delete_pair_record ld udid =
     (if \<not> ld_exists ld then (Ok (), ld)
      else
        let raw = raw_udid udid in
        case dashed_udid raw of
          Ok dashed \<Rightarrow>
            if fs_metadata_ok ld (plist_name raw) then fs_remove ld (plist_name raw)
            else if fs_metadata_ok ld (plist_name dashed) then fs_remove ld (plist_name dashed)
            else (Ok (), ld)
        | Err e \<Rightarrow> (Err e, ld)
        | Panic \<Rightarrow> (Panic, ld))"

section \<open>The BUID\<close>

text \<open>\<open>{:016x}\<close> of a 64-bit number.\<close>

definition hex_digit :: "nat \<Rightarrow> nat" where
  "hex_digit d = (if d < 10 then 48 + d else 87 + d)"

definition hex16 :: "u64 \<Rightarrow> rstr" where
  "hex16 w = map (\<lambda>i. hex_digit (unat (drop_bit (4 * (15 - i)) w) mod 16)) [0..<16]"

text \<open>\<open>read_to_string\<close> succeeds on UTF-8 only.\<close>

definition utf8_seq_len :: "u8 \<Rightarrow> nat" where
  "utf8_seq_len b = (if b < 0x80 then 1 else if b < 0xE0 then 2 else if b < 0xF0 then 3 else 4)"

definition utf8_value :: "bytes \<Rightarrow> nat" where
  "utf8_value bs = (case bs of
     [] \<Rightarrow> 0
   | b # rest \<Rightarrow> foldl (\<lambda>acc x. acc * 64 + unat x mod 64)
       (case utf8_seq_len b of Suc 0 \<Rightarrow> unat b | Suc (Suc 0) \<Rightarrow> unat b mod 32
          | Suc (Suc (Suc 0)) \<Rightarrow> unat b mod 16 | _ \<Rightarrow> unat b mod 8) rest)"

definition is_scalar :: "nat \<Rightarrow> bool" where
  "is_scalar c \<longleftrightarrow> c < 0x110000 \<and> \<not> (0xD800 \<le> c \<and> c \<le> 0xDFFF)"

text \<open>The character at the front of the bytes, when its encoding is there in full.\<close>

definition utf8_head :: "bytes \<Rightarrow> nat option" where
  "utf8_head bs = (case bs of
     [] \<Rightarrow> None
   | b # rest \<Rightarrow>
       (let s = take (utf8_seq_len b) bs in
        if is_scalar (utf8_value s) \<and> utf8_char (utf8_value s) = s then Some (utf8_value s) else None))"

function from_utf8 :: "bytes \<Rightarrow> rstr option" where
  "from_utf8 [] = Some []"
| "from_utf8 (b # bs) =
     (case utf8_head (b # bs) of
        Some c \<Rightarrow> map_option (Cons c) (from_utf8 (drop (utf8_seq_len b) (b # bs)))
      | None \<Rightarrow> None)"
  by pat_completeness auto
termination
  by (relation "measure length") (auto simp: utf8_seq_len_def)

definition get_or_create_buid ::
  "(io_error, unit) res \<Rightarrow> nat option \<Rightarrow> u64 \<Rightarrow> u64 \<Rightarrow> lockdown_dir \<Rightarrow> rstr \<times> lockdown_dir" where
  "get_or_create_buid mkdir short nanos random ld =
     (let fresh = hex16 nanos @ hex16 random;
          ld1 = (if ld_exists ld then ld else snd (create_dir_all mkdir ld));
          created = (fresh, snd (secure_write_secret short ld1 (lit ''buid'') (str_bytes fresh))) in
      case fs_read ld (lit ''buid'') of
        Ok content \<Rightarrow>
          (case from_utf8 content of
             Some buid \<Rightarrow> if trim buid \<noteq> [] then (trim buid, ld) else created
           | None \<Rightarrow> created)
      | _ \<Rightarrow> created)"

section \<open>Names of records\<close>

abbreviation valid_udid :: "rstr \<Rightarrow> bool" where
  "valid_udid u \<equiv> validate_udid u = Ok ()"

definition dashed_form :: "rstr \<Rightarrow> rstr" where
  "dashed_form raw = (if length raw = 24 \<and> 45 \<notin> set raw then take 8 raw @ 45 # drop 8 raw else raw)"

lemma valid_udid_raw:
  "valid_udid u \<Longrightarrow> raw_udid u \<noteq> [] \<and> length (raw_udid u) \<le> 64 \<and> (\<forall>c \<in> set (raw_udid u). udid_char c)"
  by (simp add: validate_udid_iff raw_udid_def Let_def)

lemma sanitize_valid:
  assumes "valid_udid u"
  shows "sanitize_udid_for_path u = Some (raw_udid u)"
proof -
  have "sanitize_udid_for_path (raw_udid u) = Some (raw_udid u)"
    using sanitize_clean [of "raw_udid u"] valid_udid_raw [OF assms] by simp
  then have "trim_end_nul (trim (raw_udid u)) = raw_udid u" "is_Ok (validate_udid (raw_udid u))"
    by (simp_all only: sanitize_udid_for_path_def Let_def split: if_splits) simp_all
  then show ?thesis by (simp add: sanitize_udid_for_path_def raw_udid_def)
qed

lemma str_split_at_ascii:
  "\<forall>c \<in> set s. c < 128 \<Longrightarrow> n \<le> length s \<Longrightarrow> str_split_at n s = Some (take n s, drop n s)"
proof (induction s arbitrary: n)
  case (Cons c s)
  then show ?case by (cases n) (auto simp: utf8_char_ascii)
qed simp

lemma dashed_valid:
  assumes "valid_udid u"
  shows "dashed_udid (raw_udid u) = Ok (dashed_form (raw_udid u))"
proof -
  have ascii: "\<forall>c \<in> set (raw_udid u). c < 128"
    using valid_udid_raw [OF assms] udid_char_not_special by blast
  show ?thesis
    using str_split_at_ascii [OF ascii, of 8] str_len_ascii [OF ascii]
    by (auto simp: dashed_udid_def dashed_form_def)
qed

lemma plist_name_inject [simp]: "plist_name a = plist_name b \<longleftrightarrow> a = b"
  by (simp add: plist_name_def)

lemma udid_no_nul: "\<forall>c \<in> set s. udid_char c \<Longrightarrow> 0 \<notin> set (plist_name s)"
  using udid_char_not_special by (auto simp: plist_name_def)

lemma dashed_form_chars: "\<forall>c \<in> set s. udid_char c \<Longrightarrow> \<forall>c \<in> set (dashed_form s). udid_char c"
  by (auto simp: dashed_form_def udid_char_def dest: in_set_takeD in_set_dropD)

lemma valid_names_no_nul:
  assumes "valid_udid u"
  shows "0 \<notin> set (plist_name (raw_udid u))" and "0 \<notin> set (plist_name (dashed_form (raw_udid u)))"
  using valid_udid_raw [OF assms] dashed_form_chars udid_no_nul by blast+

section \<open>The contract of the record store\<close>

text \<open>The record of an identifier: a regular file under its name.\<close>

definition stored :: "lockdown_dir \<Rightarrow> rstr \<Rightarrow> bytes \<Rightarrow> bool" where
  "stored ld u data \<longleftrightarrow> ld_exists ld \<and> (\<exists>m. ld_files ld (plist_name (raw_udid u)) = Some (Regular data m))"

text \<open>Operations of clients on the store (a save with the outcomes of its system calls), and running them.\<close>

datatype 'o pair_op = SaveOp 'o rstr bytes | DeleteOp rstr

fun op_udid :: "'o pair_op \<Rightarrow> rstr" where
  "op_udid (SaveOp outcome u d) = u"
| "op_udid (DeleteOp u) = u"

fun run_pair_op ::
  "('o \<Rightarrow> 's \<Rightarrow> rstr \<Rightarrow> bytes \<Rightarrow> ('e, unit) res \<times> 's) \<Rightarrow> ('s \<Rightarrow> rstr \<Rightarrow> ('e, unit) res \<times> 's)
   \<Rightarrow> 's \<Rightarrow> 'o pair_op \<Rightarrow> 's" where
  "run_pair_op save delete s (SaveOp outcome u d) = snd (save outcome s u d)"
| "run_pair_op save delete s (DeleteOp u) = snd (delete s u)"

locale pair_store =
  fixes valid :: "rstr \<Rightarrow> bool" and key :: "rstr \<Rightarrow> rstr" and aliases :: "rstr \<Rightarrow> rstr set"
    and holds :: "'s \<Rightarrow> rstr \<Rightarrow> bytes \<Rightarrow> bool"
    and save :: "'o \<Rightarrow> 's \<Rightarrow> rstr \<Rightarrow> bytes \<Rightarrow> (io_error, unit) res \<times> 's"
    and delete :: "'s \<Rightarrow> rstr \<Rightarrow> (io_error, unit) res \<times> 's"
    and read :: "'s \<Rightarrow> rstr \<Rightarrow> (io_error, bytes) res"
  assumes read_holds: "valid u \<Longrightarrow> holds s u d \<Longrightarrow> read s u = Ok d"
    and save_holds: "valid u \<Longrightarrow> save x s u d = (Ok (), s') \<Longrightarrow> holds s' u d"
    and save_other: "valid u \<Longrightarrow> valid v \<Longrightarrow> key v \<notin> aliases u \<Longrightarrow> holds s v e \<Longrightarrow> holds (snd (save x s u d)) v e"
    and delete_other: "valid u \<Longrightarrow> valid v \<Longrightarrow> key v \<notin> aliases u \<Longrightarrow> holds s v e \<Longrightarrow> holds (snd (delete s u)) v e"
begin

lemma holds_run:
  assumes "holds s v e" and "valid v" and "\<forall>op \<in> set ops. valid (op_udid op) \<and> key v \<notin> aliases (op_udid op)"
  shows "holds (foldl (run_pair_op save delete) s ops) v e"
  using assms(1,3)
proof (induction ops arbitrary: s)
  case (Cons op ops)
  have "holds (run_pair_op save delete s op) v e"
    using Cons.prems assms(2) by (cases op) (auto intro: save_other delete_other)
  with Cons show ?case by simp
qed simp

lemma read_after_save:
  assumes "valid v" and "save x s v e = (Ok (), s')"
    and "\<forall>op \<in> set ops. valid (op_udid op) \<and> key v \<notin> aliases (op_udid op)"
  shows "read (foldl (run_pair_op save delete) s' ops) v = Ok e"
  using read_holds holds_run save_holds assms by blast

end

lemma read_stored:
  assumes "valid_udid u" and "stored ld u d"
  shows "read_pair_record entries ld u = Ok d" and "has_pair_record entries ld u = Ok True"
proof -
  obtain m where f: "ld_exists ld" "ld_files ld (plist_name (raw_udid u)) = Some (Regular d m)"
    using assms(2) by (auto simp: stored_def)
  then have "fs_lookup ld (plist_name (raw_udid u)) = Some (Regular d m)"
    using valid_names_no_nul [OF assms(1)] by (simp add: fs_lookup_def)
  then have "fs_metadata_ok ld (plist_name (raw_udid u))" "fs_read ld (plist_name (raw_udid u)) = Ok d"
    by (simp_all add: fs_metadata_ok_def fs_read_def)
  with f show "read_pair_record entries ld u = Ok d" "has_pair_record entries ld u = Ok True"
    by (simp_all add: read_pair_record_def has_pair_record_def dashed_valid [OF assms(1)] Let_def)
qed

definition udid_aliases :: "rstr \<Rightarrow> rstr set" where
  "udid_aliases u = {raw_udid u, dashed_form (raw_udid u)}"

lemma secure_write_cases:
  assumes "secure_write_secret short ld name data = (r, ld')"
  shows "(\<exists>e. r = Err e) \<and> ld' = ld
    \<or> (\<exists>b m. ld_exists ld \<and> 0 \<notin> set name \<and> ld' = ld\<lparr>ld_files := (ld_files ld)(name \<mapsto> Regular b m)\<rparr> \<and> (r = Ok () \<longrightarrow> b = data))"
  using assms
  by (auto simp: secure_write_secret_def Let_def split: if_splits option.splits node.splits)

lemma save_cases:
  assumes "valid_udid u" and "save_pair_record mkdir short ld u data = (r, ld')"
  shows "(\<exists>ex. ld' = ld\<lparr>ld_exists := ex\<rparr> \<and> (ld_exists ld \<longrightarrow> ex) \<and> r \<noteq> Ok ())
    \<or> (\<exists>b m. ld' = ld\<lparr>ld_exists := True, ld_files := (ld_files ld)(plist_name (raw_udid u) \<mapsto> Regular b m)\<rparr>
        \<and> (r = Ok () \<longrightarrow> b = data))"
proof -
  obtain made ld1 where mk: "(if ld_exists ld then (Ok (), ld) else create_dir_all mkdir ld) = (made, ld1)" by fastforce
  then have ld1: "\<exists>ex. ld1 = ld\<lparr>ld_exists := ex\<rparr> \<and> (ld_exists ld \<longrightarrow> ex) \<and> (made = Ok () \<longrightarrow> ex)"
  proof (cases "ld_exists ld \<or> mkdir \<noteq> Ok ()")
    case True
    with mk show ?thesis
      by (intro exI [of _ "ld_exists ld"]) (auto simp: create_dir_all_def split: if_splits res.splits)
  next
    case False
    with mk show ?thesis by (intro exI [of _ True]) (simp add: create_dir_all_def)
  qed
  show ?thesis
  proof (cases "made = Ok ()")
    case True
    then have "secure_write_secret short ld1 (plist_name (raw_udid u)) data = (r, ld')"
      using assms mk by (simp add: save_pair_record_def sanitize_valid)
    note wr = secure_write_cases [OF this]
    from ld1 True have "ld1 = ld\<lparr>ld_exists := True\<rparr>" by auto
    with wr show ?thesis by auto
  next
    case False
    then have "r = made \<and> ld' = ld1" using assms(2) mk
      by (cases made) (auto simp: save_pair_record_def split: prod.splits)
    with ld1 False show ?thesis by auto
  qed
qed

lemma delete_cases:
  assumes "valid_udid u" and "delete_pair_record ld u = (r, ld')"
  shows "ld' = ld \<or> (\<exists>k \<in> udid_aliases u. ld' = ld\<lparr>ld_files := (ld_files ld)(plist_name k := None)\<rparr>)"
  using assms
  by (auto simp: delete_pair_record_def dashed_valid fs_remove_def udid_aliases_def Let_def
      split: if_splits option.splits node.splits)

definition save_with :: "(io_error, unit) res \<times> nat option \<Rightarrow> lockdown_dir \<Rightarrow> rstr \<Rightarrow> bytes \<Rightarrow> (io_error, unit) res \<times> lockdown_dir" where
  "save_with = (\<lambda>(mkdir, short). save_pair_record mkdir short)"

interpretation records: pair_store valid_udid raw_udid udid_aliases stored
  save_with delete_pair_record "read_pair_record entries" for entries
proof unfold_locales
  fix u v s d e s' and x :: "(io_error, unit) res \<times> nat option"
  show "read_pair_record entries s u = Ok d" if "valid_udid u" "stored s u d"
    using that by (rule read_stored)
  obtain mkdir short where x: "x = (mkdir, short)" by fastforce
  show "stored s' u d" if "valid_udid u" "save_with x s u d = (Ok (), s')"
    using save_cases [OF that(1), of mkdir short s d "Ok ()" s'] that(2) x by (auto simp: stored_def save_with_def)
  show "stored (snd (save_with x s u d)) v e"
    if "valid_udid u" "valid_udid v" "raw_udid v \<notin> udid_aliases u" "stored s v e"
    using save_cases [OF that(1), of mkdir short s d] that(3,4) x
    by (cases "save_pair_record mkdir short s u d") (fastforce simp: stored_def udid_aliases_def save_with_def)
  show "stored (snd (delete_pair_record s u)) v e"
    if "valid_udid u" "valid_udid v" "raw_udid v \<notin> udid_aliases u" "stored s v e"
    using delete_cases [OF that(1), of s] that(3,4)
    by (cases "delete_pair_record s u") (auto simp: stored_def udid_aliases_def)
qed

section \<open>BUIDs\<close>

lemma hex_digit_ascii: "d < 16 \<Longrightarrow> hex_digit d < 128 \<and> \<not> is_whitespace (hex_digit d)"
  by (auto simp: hex_digit_def is_whitespace_def)

lemma hex16_chars: "c \<in> set (hex16 w) \<Longrightarrow> c < 128 \<and> \<not> is_whitespace c"
  using hex_digit_ascii by (auto simp: hex16_def)

lemma from_utf8_ascii: "\<forall>c \<in> set s. c < 128 \<Longrightarrow> from_utf8 (str_bytes s) = Some s"
proof (induction s)
  case (Cons c s)
  then have "unat (word_of_nat c :: u8) = c" "c < 128" by (simp_all add: unat_of_nat)
  with Cons show ?case
    by (simp add: utf8_head_def utf8_char_ascii utf8_seq_len_def word_less_nat_alt utf8_value_def is_scalar_def)
qed simp

section \<open>Properties\<close>

text \<open>A saved pair record can be read back: once a save is reported as successful, whatever
  other clients save or delete for other devices afterwards, and whatever those operations
  report, reading the record returns the bytes saved and the record counts as present.\<close>

theorem saved_record_is_read_back:
  assumes "valid_udid u" and "save_pair_record mkdir short ld u data = (Ok (), ld')"
    and "\<forall>op \<in> set ops. valid_udid (op_udid op) \<and> raw_udid u \<notin> udid_aliases (op_udid op)"
  shows "read_pair_record entries (foldl (run_pair_op save_with delete_pair_record) ld' ops) u = Ok data
    \<and> has_pair_record entries (foldl (run_pair_op save_with delete_pair_record) ld' ops) u = Ok True"
proof -
  have "save_with (mkdir, short) ld u data = (Ok (), ld')" by (simp add: save_with_def assms(2))
  then have "stored ld' u data" by (rule records.save_holds [OF assms(1)])
  then have "stored (foldl (run_pair_op save_with delete_pair_record) ld' ops) u data"
    using records.holds_run [OF _ assms(1,3)] by blast
  then show ?thesis using read_stored [OF assms(1)] by blast
qed

theorem saved_record_is_read_back_witness:
  "\<exists>ld'. save_pair_record (Ok ()) None \<lparr>ld_exists = False, ld_files = Map.empty\<rparr> (lit ''AB'') [1, 2] = (Ok (), ld')
     \<and> read_pair_record (\<lambda>_. []) (foldl (run_pair_op save_with delete_pair_record) ld'
          [SaveOp (Ok (), Some 0) (lit ''CD'') [9], DeleteOp (lit ''EF'')]) (lit ''AB'') = Ok [1, 2]"
proof -
  have clean: "trim s = s \<and> trim_end_nul s = s" if "s \<in> {lit ''AB'', lit ''CD'', lit ''EF''}" for s
    using that by (auto simp: trim_def trim_end_nul_def trim_end_while_def is_whitespace_def)
  have valid: "valid_udid s \<and> raw_udid s = s \<and> dashed_form s = s" if "s \<in> {lit ''AB'', lit ''CD'', lit ''EF''}" for s
    using that clean [OF that] by (auto simp: validate_udid_iff raw_udid_def dashed_form_def udid_char_def)
  obtain ld' where save: "save_pair_record (Ok ()) None \<lparr>ld_exists = False, ld_files = Map.empty\<rparr> (lit ''AB'') [1, 2] = (Ok (), ld')"
    using sanitize_valid [of "lit ''AB''"] valid [of "lit ''AB''"]
    by (auto simp: save_pair_record_def create_dir_all_def secure_write_secret_def plist_name_def)
  show ?thesis
    using saved_record_is_read_back [OF _ save, of "[SaveOp (Ok (), Some 0) (lit ''CD'') [9], DeleteOp (lit ''EF'')]" "\<lambda>_. []"]
      valid save by (auto simp: udid_aliases_def)
qed

text \<open>Deleting is incomplete when a device has records under both spellings of its identifier:
  deleting the undashed one succeeds and the record stays readable under the same identifier,
  now with the contents of the dashed file.\<close>

theorem delete_leaves_dashed_record:
  assumes "valid_udid u" and "length (raw_udid u) = 24" and "45 \<notin> set (raw_udid u)"
    and "stored ld u d" and "ld_files ld (plist_name (dashed_form (raw_udid u))) = Some (Regular e m)"
  shows "\<exists>ld'. delete_pair_record ld u = (Ok (), ld') \<and> read_pair_record entries ld' u = Ok e
    \<and> has_pair_record entries ld' u = Ok True"
proof -
  let ?raw = "raw_udid u" and ?dashed = "dashed_form (raw_udid u)"
  let ?ld = "ld\<lparr>ld_files := (ld_files ld)(plist_name ?raw := None)\<rparr>"
  have ne: "?dashed \<noteq> ?raw" using assms(2,3) by (auto simp: dashed_form_def dest: arg_cong [of _ _ length])
  obtain m' where f: "ld_exists ld" "ld_files ld (plist_name ?raw) = Some (Regular d m')"
    using assms(4) by (auto simp: stored_def)
  note nul = valid_names_no_nul [OF assms(1)]
  have "fs_lookup ld (plist_name ?raw) = Some (Regular d m')" "fs_lookup ?ld (plist_name ?raw) = None"
    "fs_lookup ?ld (plist_name ?dashed) = Some (Regular e m)"
    using f assms(5) nul ne by (simp_all add: fs_lookup_def)
  then have "fs_metadata_ok ld (plist_name ?raw)" "fs_remove ld (plist_name ?raw) = (Ok (), ?ld)"
    "\<not> fs_metadata_ok ?ld (plist_name ?raw)" "fs_metadata_ok ?ld (plist_name ?dashed)"
    "fs_read ?ld (plist_name ?dashed) = Ok e"
    by (simp_all add: fs_metadata_ok_def fs_remove_def fs_read_def)
  with f(1) show ?thesis
    by (intro exI [of _ ?ld])
       (simp add: delete_pair_record_def read_pair_record_def has_pair_record_def dashed_valid [OF assms(1)] Let_def)
qed

theorem delete_leaves_dashed_record_witness:
  "\<exists>ld'. delete_pair_record \<lparr>ld_exists = True, ld_files =
        [plist_name (replicate 24 65) \<mapsto> Regular [1] 384, plist_name (dashed_form (replicate 24 65)) \<mapsto> Regular [2] 384]\<rparr>
      (replicate 24 65) = (Ok (), ld') \<and> has_pair_record (\<lambda>_. []) ld' (replicate 24 65) = Ok True"
proof -
  let ?u = "replicate 24 65 :: rstr"
  have raw: "raw_udid ?u = ?u"
    by (simp add: raw_udid_def trim_def trim_end_nul_def trim_end_while_def is_whitespace_def)
  then have "valid_udid ?u" by (simp add: validate_udid_iff raw_udid_def Let_def udid_char_def)
  moreover have "dashed_form ?u \<noteq> ?u" by (auto simp: dashed_form_def dest: arg_cong [of _ _ length])
  ultimately show ?thesis
    using delete_leaves_dashed_record [of ?u "\<lparr>ld_exists = True, ld_files =
        [plist_name ?u \<mapsto> Regular [1] 384, plist_name (dashed_form ?u) \<mapsto> Regular [2] 384]\<rparr>" "[1]" "[2]" 384 "\<lambda>_. []"] raw
    by (auto simp: stored_def)
qed

text \<open>Secrets are written as documented only to new files. A successful write leaves exactly
  the bytes given; a symbolic link is refused and nothing changes; a new file gets mode 0600;
  but a file that exists keeps whatever mode it had.\<close>

theorem secure_write_secret_modes:
  "(case secure_write_secret short ld name data of
      (Ok _, ld') \<Rightarrow> (\<exists>m. ld_files ld' name = Some (Regular data m)
          \<and> (ld_files ld name = None \<longrightarrow> m = 384)
          \<and> (\<forall>b m'. ld_files ld name = Some (Regular b m') \<longrightarrow> m = m'))
        \<and> (\<forall>other. other \<noteq> name \<longrightarrow> ld_files ld' other = ld_files ld other)
    | (r, ld') \<Rightarrow> r \<noteq> Panic)
   \<and> (\<forall>t. ld_files ld name = Some (Symlink t) \<longrightarrow>
        (\<exists>e. secure_write_secret short ld name data = (Err e, ld)))"
  by (auto simp: secure_write_secret_def Let_def split: option.splits node.splits)

theorem secure_write_secret_modes_witness:
  "ld_files (snd (secure_write_secret None \<lparr>ld_exists = True, ld_files = [[97] \<mapsto> Regular [] 420]\<rparr> [97] [5])) [97]
     = Some (Regular [5] 420)"
  using secure_write_secret_modes [where short = None and name = "[97]" and data = "[5]"
      and ld = "\<lparr>ld_exists = True, ld_files = [[97] \<mapsto> Regular [] 420]\<rparr>"]
  by (auto simp: secure_write_secret_def Let_def)

text \<open>The BUID is stable: the identifier made on the first request (32 hexadecimal digits) is
  the one every later request returns, if it could be written, without changing the directory.\<close>

theorem buid_stable:
  assumes "get_or_create_buid mkdir short nanos random ld = (buid, ld')"
    and "ld_files ld' (lit ''buid'') = Some (Regular (str_bytes buid) m)" and "ld_exists ld'"
    and "fs_read ld (lit ''buid'') = Err e"
  shows "buid = hex16 nanos @ hex16 random \<and> length buid = 32
    \<and> get_or_create_buid mkdir2 short2 nanos2 random2 ld' = (buid, ld')"
proof -
  have buid: "buid = hex16 nanos @ hex16 random"
    using assms(1,4) by (simp add: get_or_create_buid_def Let_def)
  then have chars: "\<forall>c \<in> set buid. c < 128" "\<forall>c \<in> set buid. \<not> is_whitespace c"
    using hex16_chars by auto
  have "fs_read ld' (lit ''buid'') = Ok (str_bytes buid)"
    using assms(2,3) by (simp add: fs_read_def fs_lookup_def)
  moreover have len: "length buid = 32" by (simp add: buid hex16_def)
  moreover from this have "buid \<noteq> []" by auto
  ultimately show ?thesis
    using from_utf8_ascii [OF chars(1)] trim_id [OF chars(2)] buid
    by (simp add: get_or_create_buid_def Let_def)
qed

theorem buid_stable_witness:
  "\<exists>buid ld'. get_or_create_buid (Ok ()) None 7 8 \<lparr>ld_exists = True, ld_files = Map.empty\<rparr> = (buid, ld')
     \<and> get_or_create_buid (Ok ()) None 9 10 ld' = (buid, ld')"
proof -
  let ?ld = "\<lparr>ld_exists = True, ld_files = Map.empty\<rparr>"
  obtain buid ld' where g: "get_or_create_buid (Ok ()) None 7 8 ?ld = (buid, ld')" by fastforce
  then have "ld_files ld' (lit ''buid'') = Some (Regular (str_bytes buid) 384)" "ld_exists ld'"
    by (auto simp: get_or_create_buid_def fs_read_def fs_lookup_def secure_write_secret_def Let_def)
  with buid_stable [OF g this] g show ?thesis by (auto simp: fs_read_def fs_lookup_def)
qed

end
