(* ===== verification/Socket_Addr.thy ===== *)
theory Socket_Addr
  imports Relay_Prelude
begin

text \<open>
  Socket addresses as the standard library reads and prints them (\<open>SocketAddr\<close>, used by
  \<open>daemon/transport.rs\<close>): the recursive descent parser of \<open>core::net\<close> for IPv6, with embedded
  IPv4 groups, the double colon and scope identifiers, and the display that compresses the
  longest run of zero groups. A parser takes the text and gives a value and the rest of the text.
\<close>

section \<open>Addresses\<close>

datatype sock_addr = V4 u8 u8 u8 u8 u16 | V6 "u16 list" u32 u16

fun is_loopback :: "sock_addr \<Rightarrow> bool" where
  "is_loopback (V4 a b c d port) \<longleftrightarrow> a = 127"
| "is_loopback (V6 segs scope port) \<longleftrightarrow> segs = [0, 0, 0, 0, 0, 0, 0, 1]"

section \<open>Parsing\<close>

type_synonym 'a reader = "rstr \<Rightarrow> ('a \<times> rstr) option"

definition to_digit :: "nat \<Rightarrow> nat \<Rightarrow> nat option" where
  "to_digit radix c =
     (let d = (if 48 \<le> c \<and> c \<le> 57 then c - 48 else if 97 \<le> c \<and> c \<le> 122 then c - 87
               else if 65 \<le> c \<and> c \<le> 90 then c - 55 else radix)
      in if d < radix then Some d else None)"

text \<open>The digits at the front of the text and their value, read with checked arithmetic.\<close>

fun read_digits :: "nat \<Rightarrow> nat \<Rightarrow> nat \<Rightarrow> nat \<Rightarrow> rstr \<Rightarrow> (nat \<times> nat \<times> rstr) option" where
  "read_digits radix mx count acc [] = Some (count, acc, [])"
| "read_digits radix mx count acc (c # s) =
     (case to_digit radix c of
        None \<Rightarrow> Some (count, acc, c # s)
      | Some d \<Rightarrow> if acc * radix + d \<le> mx then read_digits radix mx (Suc count) (acc * radix + d) s else None)"

definition read_number :: "nat \<Rightarrow> nat option \<Rightarrow> bool \<Rightarrow> nat \<Rightarrow> nat reader" where
  "read_number radix max_digits allow_zero_prefix mx s =
     (case read_digits radix mx 0 0 s of
        None \<Rightarrow> None
      | Some (count, n, rest) \<Rightarrow>
          if count = 0 \<or> (case max_digits of Some k \<Rightarrow> k < count | None \<Rightarrow> False)
             \<or> (\<not> allow_zero_prefix \<and> hd s = 48 \<and> 1 < count)
          then None else Some (n, rest))"

definition read_given_char :: "nat \<Rightarrow> rstr \<Rightarrow> rstr option" where
  "read_given_char c s = (case s of x # rest \<Rightarrow> if x = c then Some rest else None | [] \<Rightarrow> None)"

definition read_separator :: "nat \<Rightarrow> nat \<Rightarrow> 'a reader \<Rightarrow> 'a reader" where
  "read_separator sep index inner s =
     (if 0 < index then Option.bind (read_given_char sep s) inner else inner s)"

definition read_octet :: "nat \<Rightarrow> u8 reader" where
  "read_octet i s = map_option (\<lambda>(n, rest). (word_of_nat n, rest)) (read_separator 46 i (read_number 10 (Some 3) False 255) s)"

definition read_ipv4_addr :: "(u8 \<times> u8 \<times> u8 \<times> u8) reader" where
  "read_ipv4_addr s =
     Option.bind (read_octet 0 s) (\<lambda>(a, s1). Option.bind (read_octet 1 s1) (\<lambda>(b, s2).
     Option.bind (read_octet 2 s2) (\<lambda>(c, s3). Option.bind (read_octet 3 s3) (\<lambda>(d, s4). Some ((a, b, c, d), s4)))))"

text \<open>Up to \<open>n\<close> groups, the first of them the \<open>i\<close>-th; whether they end with an IPv4 address.\<close>

fun read_groups :: "nat \<Rightarrow> nat \<Rightarrow> rstr \<Rightarrow> u16 list \<times> bool \<times> rstr" where
  "read_groups 0 i s = ([], False, s)"
| "read_groups (Suc n) i s =
     (case (if 0 < n then read_separator 58 i read_ipv4_addr s else None) of
        Some ((one, two, three, four), rest) \<Rightarrow> ([from_be16 one two, from_be16 three four], True, rest)
      | None \<Rightarrow>
          (case read_separator 58 i (read_number 16 (Some 4) True 65535) s of
             None \<Rightarrow> ([], False, s)
           | Some (g, rest) \<Rightarrow>
               (let (gs, v4, rest1) = read_groups n (Suc i) rest in (word_of_nat g # gs, v4, rest1))))"

definition read_ipv6_addr :: "u16 list reader" where
  "read_ipv6_addr s =
     (let (hd_groups, hd_ipv4, s1) = read_groups 8 0 s in
      if length hd_groups = 8 then Some (hd_groups, s1)
      else if hd_ipv4 then None
      else Option.bind (read_given_char 58 s1) (\<lambda>s2. Option.bind (read_given_char 58 s2) (\<lambda>s3.
        let (tl_groups, tl_ipv4, s4) = read_groups (8 - (length hd_groups + 1)) 0 s3 in
        Some (hd_groups @ replicate (8 - length hd_groups - length tl_groups) 0 @ tl_groups, s4))))"

definition read_port :: "u16 reader" where
  "read_port s = map_option (\<lambda>(n, rest). (word_of_nat n, rest))
     (Option.bind (read_given_char 58 s) (read_number 10 None True 65535))"

definition read_scope_id :: "u32 reader" where
  "read_scope_id s = map_option (\<lambda>(n, rest). (word_of_nat n, rest))
     (Option.bind (read_given_char 37 s) (read_number 10 None True (2 ^ 32 - 1)))"

definition read_socket_addr_v6 :: "sock_addr reader" where
  "read_socket_addr_v6 s =
     Option.bind (read_given_char 91 s) (\<lambda>s1. Option.bind (read_ipv6_addr s1) (\<lambda>(ip, s2).
     let (scope, s3) = (case read_scope_id s2 of Some x \<Rightarrow> x | None \<Rightarrow> (0, s2)) in
     Option.bind (read_given_char 93 s3) (\<lambda>s4. Option.bind (read_port s4) (\<lambda>(port, s5). Some (V6 ip scope port, s5)))))"

definition read_socket_addr_v4 :: "sock_addr reader" where
  "read_socket_addr_v4 s =
     Option.bind (read_ipv4_addr s) (\<lambda>((a, b, c, d), s1). Option.bind (read_port s1) (\<lambda>(port, s2). Some (V4 a b c d port, s2)))"

text \<open>The whole text has to be read.\<close>

definition parse_sock_addr :: "rstr \<Rightarrow> sock_addr option" where
  "parse_sock_addr s =
     (case (case read_socket_addr_v4 s of Some r \<Rightarrow> Some r | None \<Rightarrow> read_socket_addr_v6 s) of
        Some (addr, []) \<Rightarrow> Some addr
      | _ \<Rightarrow> None)"

section \<open>Printing\<close>

fun show_hex :: "nat \<Rightarrow> rstr" where
  "show_hex n = (if n < 16 then [if n < 10 then 48 + n else 87 + n]
                 else show_hex (n div 16) @ [if n mod 16 < 10 then 48 + n mod 16 else 87 + n mod 16])"

declare show_hex.simps [simp del]

text \<open>The first longest run of zero groups: its start and its length. \<open>start\<close> and \<open>len\<close> are the
  current run, \<open>best\<close> the longest so far.\<close>

fun longest_zeros :: "nat \<Rightarrow> nat \<Rightarrow> nat \<Rightarrow> nat \<times> nat \<Rightarrow> u16 list \<Rightarrow> nat \<times> nat" where
  "longest_zeros i start len best [] = best"
| "longest_zeros i start len best (g # gs) =
     (if g = 0 then
        let start' = (if len = 0 then i else start); len' = Suc len in
        longest_zeros (Suc i) start' len' (if snd best < len' then (start', len') else best) gs
      else longest_zeros (Suc i) 0 0 best gs)"

fun show_groups :: "u16 list \<Rightarrow> rstr" where
  "show_groups [] = []"
| "show_groups [g] = show_hex (unat g)"
| "show_groups (g # h # gs) = show_hex (unat g) @ [58] @ show_groups (h # gs)"

definition show_ipv4 :: "u8 \<Rightarrow> u8 \<Rightarrow> u8 \<Rightarrow> u8 \<Rightarrow> rstr" where
  "show_ipv4 a b c d = show_nat (unat a) @ [46] @ show_nat (unat b) @ [46] @ show_nat (unat c) @ [46] @ show_nat (unat d)"

definition show_ipv6 :: "u16 list \<Rightarrow> rstr" where
  "show_ipv6 segs =
     (if take 6 segs = [0, 0, 0, 0, 0, 0xFFFF] then
        let ab = segs ! 6; cd = segs ! 7 in
        lit ''::ffff:'' @ show_ipv4 (ucast (drop_bit 8 ab)) (ucast ab) (ucast (drop_bit 8 cd)) (ucast cd)
      else
        let (start, len) = longest_zeros 0 0 0 (0, 0) segs in
        if 1 < len then show_groups (take start segs) @ lit ''::'' @ show_groups (drop (start + len) segs)
        else show_groups segs)"

fun show_sock_addr :: "sock_addr \<Rightarrow> rstr" where
  "show_sock_addr (V4 a b c d port) = show_ipv4 a b c d @ [58] @ show_nat (unat port)"
| "show_sock_addr (V6 segs scope port) =
     lit ''['' @ show_ipv6 segs @ (if scope = 0 then [] else lit ''%'' @ show_nat (unat scope)) @ lit '']:'' @ show_nat (unat port)"

section \<open>Reading back what was printed\<close>

lemma show_nat_small: "n < 10 \<Longrightarrow> show_nat n = [48 + n]"
  by (simp add: show_nat.simps [of n])

lemma show_nat_step: "10 \<le> n \<Longrightarrow> show_nat n = show_nat (n div 10) @ [48 + n mod 10]"
  by (simp add: show_nat.simps [of n])

lemma show_nat_byte:
  assumes "n < 256"
  shows "length (show_nat n) \<le> 3" and "1 < length (show_nat n) \<Longrightarrow> hd (show_nat n) \<noteq> 48"
proof -
  consider "n < 10" | "10 \<le> n" "n < 100" | "100 \<le> n" by linarith
  then have "length (show_nat n) \<le> 3 \<and> (1 < length (show_nat n) \<longrightarrow> hd (show_nat n) \<noteq> 48)"
  proof cases
    case 2
    then have "n div 10 < 10" "n div 10 \<noteq> 0" by auto
    with 2 show ?thesis by (simp add: show_nat_step [of n] show_nat_small)
  next
    case 3
    then have "10 \<le> n div 10" "n div 10 div 10 < 10" "n div 10 div 10 \<noteq> 0" using assms by auto
    with 3 show ?thesis by (simp add: show_nat_step [of n] show_nat_step [of "n div 10"] show_nat_small)
  qed (simp add: show_nat_small)
  then show "length (show_nat n) \<le> 3" "1 < length (show_nat n) \<Longrightarrow> hd (show_nat n) \<noteq> 48" by blast+
qed

text \<open>A text that does not go on with a digit.\<close>

definition stops :: "nat \<Rightarrow> rstr \<Rightarrow> bool" where
  "stops radix s \<longleftrightarrow> (case s of [] \<Rightarrow> True | c # _ \<Rightarrow> to_digit radix c = None)"

lemma read_digits_decimal:
  "parse_digits 10 mx acc ds = Some n \<Longrightarrow> stops 10 rest
   \<Longrightarrow> read_digits 10 mx k acc (ds @ rest) = Some (k + length ds, n, rest)"
proof (induction ds arbitrary: k acc)
  case Nil
  then show ?case by (cases rest) (auto simp: stops_def)
next
  case (Cons c ds)
  then have c: "48 \<le> c" "c < 58" "acc * 10 + (c - 48) \<le> mx" "parse_digits 10 mx (acc * 10 + (c - 48)) ds = Some n"
    by (simp_all split: if_splits)
  from c(1,2) have "c - 48 < 10" by linarith
  with c(1,2) have "to_digit 10 c = Some (c - 48)" by (simp add: to_digit_def Let_def)
  with Cons.IH [OF c(4) Cons.prems(2), of "Suc k"] c(3) show ?case by simp
qed

lemma read_number_show:
  assumes "n \<le> mx" and "stops 10 rest" and "case md of Some k \<Rightarrow> length (show_nat n) \<le> k | None \<Rightarrow> True"
    and "az \<or> (1 < length (show_nat n) \<longrightarrow> hd (show_nat n) \<noteq> 48)"
  shows "read_number 10 md az mx (show_nat n @ rest) = Some (n, rest)"
  using read_digits_decimal [OF parse_digits_show_nat [OF assms(1)] assms(2), of 0] assms(3,4)
  by (auto simp: read_number_def hd_append split: option.splits)

lemma read_octet_show:
  assumes "stops 10 rest"
  shows "read_octet i ((if 0 < i then [46] else []) @ show_nat (unat (b :: u8)) @ rest) = Some (b, rest)"
proof -
  have "unat b < 256" using unsigned_less [where ?'a = nat, of b] by simp
  then have "read_number 10 (Some 3) False 255 (show_nat (unat b) @ rest) = Some (unat b, rest)"
    using read_number_show [of "unat b" 255 rest "Some 3" False] show_nat_byte [of "unat b"] assms by simp
  then show ?thesis by (simp add: read_octet_def read_separator_def read_given_char_def)
qed

lemma read_ipv4_show:
  assumes "stops 10 rest"
  shows "read_ipv4_addr (show_ipv4 a b c d @ rest) = Some ((a, b, c, d), rest)"
proof -
  have dot: "stops 10 (46 # s)" for s by (simp add: stops_def to_digit_def)
  show ?thesis
    using read_octet_show [OF dot, of 0 a] read_octet_show [OF dot, of 1 b] read_octet_show [OF dot, of 2 c]
      read_octet_show [OF assms, of 3 d]
    by (simp add: read_ipv4_addr_def show_ipv4_def)
qed

lemma read_port_show: "read_port (58 # show_nat (unat (p :: u16))) = Some (p, [])"
proof -
  have "unat p \<le> 65535" using unsigned_less [where ?'a = nat, of p] by simp
  then show ?thesis
    using read_number_show [of "unat p" 65535 "[]" None True] by (simp add: read_port_def read_given_char_def stops_def)
qed

lemma read_scope_show: "read_scope_id (37 # show_nat (unat (w :: u32)) @ 93 # s) = Some (w, 93 # s)"
proof -
  have "unat w \<le> 2 ^ 32 - 1" using unsigned_less [where ?'a = nat, of w] by simp
  then show ?thesis
    using read_number_show [of "unat w" "2 ^ 32 - 1" "93 # s" None True]
    by (simp add: read_scope_id_def read_given_char_def stops_def to_digit_def)
qed

lemma parse_show_v4: "parse_sock_addr (show_sock_addr (V4 a b c d p)) = Some (V4 a b c d p)"
  using read_ipv4_show [of "58 # show_nat (unat p)" a b c d]
  by (simp add: parse_sock_addr_def read_socket_addr_v4_def read_port_show stops_def to_digit_def)

lemmas read_simps = read_separator_def read_given_char_def read_octet_def read_number_def to_digit_def

lemma read_loopback:
  assumes "c = 37 \<or> c = 93"
  shows "read_ipv6_addr (58 # 58 # 49 # c # s) = Some ([0, 0, 0, 0, 0, 0, 0, 1], c # s)"
proof -
  have none: "read_groups (Suc n) 0 (58 # s) = ([], False, 58 # s)" for n s
    by (simp add: read_ipv4_addr_def read_simps)
  have stop: "read_groups (Suc n) (Suc 0) (c # s) = ([], False, c # s)" for n
    using assms by (auto simp: read_ipv4_addr_def read_simps)
  have one: "to_digit 10 c = None" "to_digit 16 c = None" "to_digit 10 49 = Some 1" "to_digit 16 49 = Some 1" "c \<noteq> 46"
    using assms by (auto simp: to_digit_def)
  have "read_groups (Suc (Suc n)) 0 (49 # c # s) = ([1], False, c # s)" for n
    using one stop [of n] by (simp add: read_ipv4_addr_def read_octet_def read_separator_def read_given_char_def read_number_def)
  note groups = this [of 5] none [of 7]
  have "Suc (Suc 5) = 7" "Suc 7 = 8" "replicate 7 (0 :: u16) = [0, 0, 0, 0, 0, 0, 0]" by (simp_all add: numeral_eq_Suc)
  with groups show ?thesis by (simp add: read_ipv6_addr_def read_given_char_def del: read_groups.simps)
qed

lemma show_loopback: "show_ipv6 [0, 0, 0, 0, 0, 0, 0, 1] = lit ''::1''"
  by (simp add: show_ipv6_def show_hex.simps)

lemma parse_show_loopback:
  "parse_sock_addr (show_sock_addr (V6 [0, 0, 0, 0, 0, 0, 0, 1] scope port)) = Some (V6 [0, 0, 0, 0, 0, 0, 0, 1] scope port)"
proof -
  let ?s = "show_sock_addr (V6 [0, 0, 0, 0, 0, 0, 0, 1] scope port)"
  have "read_socket_addr_v4 ?s = None" by (simp add: read_socket_addr_v4_def read_ipv4_addr_def read_simps)
  moreover have "read_socket_addr_v6 ?s = Some (V6 [0, 0, 0, 0, 0, 0, 0, 1] scope port, [])"
    by (cases "scope = 0")
       (simp_all add: read_socket_addr_v6_def show_loopback read_given_char_def read_loopback read_scope_show read_port_show
         read_scope_id_def [of "93 # s" for s])
  ultimately show ?thesis by (simp add: parse_sock_addr_def)
qed

text \<open>So every loopback address is read back from its text.\<close>

lemma parse_show_is_loopback: "is_loopback addr \<Longrightarrow> parse_sock_addr (show_sock_addr addr) = Some addr"
  by (cases addr) (simp_all only: is_loopback.simps parse_show_v4 parse_show_loopback)

end
