(* ===== verification/Transport.thy ===== *)
theory Transport
  imports Security Usb_Protocol Socket_Addr
begin

text \<open>
  \<open>daemon/transport.rs\<close> on unix: endpoints, their textual form, connecting, the unified stream,
  and what accepting a client tells about it. Socket addresses are read and printed as in
  \<open>Socket_Addr\<close>. The sockets themselves belong to the operating system.
\<close>

section \<open>Endpoints\<close>

datatype endpoint = Unix rstr | NamedPipe rstr | Tcp_Addr sock_addr

definition is_control :: "nat \<Rightarrow> bool" where
  "is_control c \<longleftrightarrow> c < 32 \<or> (127 \<le> c \<and> c < 160)"

definition parse_pipe :: "rstr \<Rightarrow> (rstr, endpoint) res" where
  "parse_pipe name =
     (if name = [] \<or> 256 < str_len name \<or> (47 \<in> set name \<or> 92 \<in> set name)
         \<or> contains_str name (lit ''..'') \<or> list_ex is_control name
      then Err (lit ''invalid pipe name: '' @ [39] @ name @ [39])
      else Ok (NamedPipe name))"

definition parse_tcp :: "rstr \<Rightarrow> (rstr, endpoint) res" where
  "parse_tcp addr =
     (case parse_sock_addr addr of
        None \<Rightarrow> Err (lit ''invalid tcp endpoint '' @ [39] @ addr @ [39] @ lit '': invalid socket address syntax'')
      | Some a \<Rightarrow>
          if \<not> is_loopback a
          then Err (lit ''TCP endpoint must be loopback (the IPC protocol is unauthenticated)'')
          else Ok (Tcp_Addr a))"

definition parse_endpoint :: "rstr \<Rightarrow> (rstr, endpoint) res" where
  "parse_endpoint input =
     (case strip_prefix (lit ''unix:'') input of
        Some rest \<Rightarrow> Ok (Unix rest)
      | None \<Rightarrow>
          (case strip_prefix (lit ''pipe:'') input of
             Some rest \<Rightarrow> parse_pipe rest
           | None \<Rightarrow>
               (case strip_prefix (lit ''tcp:'') input of
                  Some rest \<Rightarrow> parse_tcp rest
                | None \<Rightarrow> Ok (Unix input))))"

fun display_string :: "endpoint \<Rightarrow> rstr" where
  "display_string (Unix p) = lit ''unix:'' @ p"
| "display_string (NamedPipe n) = lit ''pipe:'' @ n"
| "display_string (Tcp_Addr a) = lit ''tcp:'' @ show_sock_addr a"

section \<open>Accepting\<close>

text \<open>
  A client as the kernel reports it: the credentials of a unix peer, or the address of a TCP
  peer. The result is the identity handed to the access check.
\<close>

datatype incoming = UnixPeer "(int \<times> u32 \<times> u32) option" | TcpPeer sock_addr

fun accept_peer :: "incoming \<Rightarrow> (io_error, peer_identity) res" where
  "accept_peer (UnixPeer cred) = Ok (peer_identity_of_unix cred)"
| "accept_peer (TcpPeer addr) =
     (if \<not> is_loopback addr then Err (Io PermissionDenied (lit ''non-loopback'')) else Ok anonymous)"

section \<open>Streams\<close>

text \<open>
  \<open>Endpoint::connect\<close> on unix: the outcomes of the two \<open>connect\<close> calls are arguments, and
  \<open>set_nodelay\<close> is best effort.
\<close>

fun connect_endpoint ::
  "(rstr \<Rightarrow> (io_error, 's) res) \<Rightarrow> (sock_addr \<Rightarrow> (io_error, 's) res) \<Rightarrow> endpoint \<Rightarrow> (io_error, 's) res" where
  "connect_endpoint connect_unix connect_tcp (Unix path) = connect_unix path"
| "connect_endpoint connect_unix connect_tcp (Tcp_Addr addr) = connect_tcp addr"
| "connect_endpoint connect_unix connect_tcp (NamedPipe name) =
     Err (Io Unsupported (lit ''named pipes are windows-only''))"

text \<open>
  The unified stream and its \<open>AsyncRead\<close> and \<open>AsyncWrite\<close> implementations. What the socket
  types do is an argument: an outcome and the socket afterwards. A read has room for a number
  of bytes; a write reports how many bytes it took.
\<close>

datatype ('u, 't, 'p) transport_stream = UnixStream 'u | TcpStream 't | PipeStream 'p

datatype 'a poll = Ready 'a | Pending

record 's stream_io =
  sio_read :: "'s \<Rightarrow> usize \<Rightarrow> (io_error, bytes) res poll \<times> 's"
  sio_write :: "'s \<Rightarrow> bytes \<Rightarrow> (io_error, usize) res poll \<times> 's"
  sio_flush :: "'s \<Rightarrow> (io_error, unit) res poll \<times> 's"
  sio_shutdown :: "'s \<Rightarrow> (io_error, unit) res poll \<times> 's"

fun on_stream :: "('u \<Rightarrow> 'r \<times> 'u) \<Rightarrow> ('t \<Rightarrow> 'r \<times> 't) \<Rightarrow> ('p \<Rightarrow> 'r \<times> 'p) \<Rightarrow> ('u, 't, 'p) transport_stream
    \<Rightarrow> 'r \<times> ('u, 't, 'p) transport_stream" where
  "on_stream fu ft fp (UnixStream s) = map_prod id UnixStream (fu s)"
| "on_stream fu ft fp (TcpStream s) = map_prod id TcpStream (ft s)"
| "on_stream fu ft fp (PipeStream s) = map_prod id PipeStream (fp s)"

definition poll_read where
  "poll_read u t p stream room =
     on_stream (\<lambda>s. sio_read u s room) (\<lambda>s. sio_read t s room) (\<lambda>s. sio_read p s room) stream"

definition poll_write where
  "poll_write u t p stream data =
     on_stream (\<lambda>s. sio_write u s data) (\<lambda>s. sio_write t s data) (\<lambda>s. sio_write p s data) stream"

definition poll_flush where
  "poll_flush u t p stream = on_stream (sio_flush u) (sio_flush t) (sio_flush p) stream"

definition poll_shutdown where
  "poll_shutdown u t p stream = on_stream (sio_shutdown u) (sio_shutdown t) (sio_shutdown p) stream"

section \<open>Lemmas\<close>

lemma strip_prefix_append [simp]: "strip_prefix p (p @ s) = Some s"
  by (simp add: strip_prefix_def)

lemma strip_prefix_other [simp]:
  "strip_prefix (lit ''unix:'') (lit ''pipe:'' @ s) = None"
  "strip_prefix (lit ''unix:'') (lit ''tcp:'' @ s) = None"
  "strip_prefix (lit ''pipe:'') (lit ''tcp:'' @ s) = None"
  by (simp_all add: strip_prefix_def)

section \<open>Operations on a stream\<close>

datatype stream_op = ReadOp usize | WriteOp bytes | FlushOp | ShutdownOp

datatype stream_outcome =
    ReadDone "(io_error, bytes) res poll" | WriteDone "(io_error, usize) res poll" | OpDone "(io_error, unit) res poll"

fun socket_op :: "'s stream_io \<Rightarrow> 's \<Rightarrow> stream_op \<Rightarrow> stream_outcome \<times> 's" where
  "socket_op io s (ReadOp room) = map_prod ReadDone id (sio_read io s room)"
| "socket_op io s (WriteOp data) = map_prod WriteDone id (sio_write io s data)"
| "socket_op io s FlushOp = map_prod OpDone id (sio_flush io s)"
| "socket_op io s ShutdownOp = map_prod OpDone id (sio_shutdown io s)"

fun unified_op where
  "unified_op u t p stream (ReadOp room) = map_prod ReadDone id (poll_read u t p stream room)"
| "unified_op u t p stream (WriteOp data) = map_prod WriteDone id (poll_write u t p stream data)"
| "unified_op u t p stream FlushOp = map_prod OpDone id (poll_flush u t p stream)"
| "unified_op u t p stream ShutdownOp = map_prod OpDone id (poll_shutdown u t p stream)"

fun run_ops :: "('s \<Rightarrow> stream_op \<Rightarrow> stream_outcome \<times> 's) \<Rightarrow> 's \<Rightarrow> stream_op list \<Rightarrow> stream_outcome list \<times> 's" where
  "run_ops step s [] = ([], s)"
| "run_ops step s (x # xs) = (let (r, s1) = step s x; (rs, s2) = run_ops step s1 xs in (r # rs, s2))"

text \<open>The unified stream is transparent: any sequence of operations on it has the outcomes it has
  on the socket inside, and the kind of socket never changes.\<close>

lemma unified_op_transparent:
  "unified_op u t p (UnixStream a) x = map_prod id UnixStream (socket_op u a x)"
  "unified_op u t p (TcpStream b) x = map_prod id TcpStream (socket_op t b x)"
  "unified_op u t p (PipeStream c) x = map_prod id PipeStream (socket_op p c x)"
  by (cases x; simp add: poll_read_def poll_write_def poll_flush_def poll_shutdown_def prod.map_comp comp_def)+

lemma run_ops_map:
  assumes "\<And>s x. step' (f s) x = map_prod id f (step s x)"
  shows "run_ops step' (f s) xs = map_prod id f (run_ops step s xs)"
  by (induction xs arbitrary: s) (auto simp: assms Let_def split: prod.splits)

theorem unified_stream_transparent:
  "run_ops (unified_op u t p) (UnixStream a) xs = map_prod id UnixStream (run_ops (socket_op u) a xs)"
  "run_ops (unified_op u t p) (TcpStream b) xs = map_prod id TcpStream (run_ops (socket_op t) b xs)"
  "run_ops (unified_op u t p) (PipeStream c) xs = map_prod id PipeStream (run_ops (socket_op p) c xs)"
  by (rule run_ops_map, rule unified_op_transparent)+

section \<open>Properties\<close>

lemma parse_endpoint_cases:
  assumes "parse_endpoint input = Ok e"
  shows "case e of Unix p \<Rightarrow> True | NamedPipe n \<Rightarrow> parse_pipe n = Ok (NamedPipe n) | Tcp_Addr a \<Rightarrow> is_loopback a"
  using assms by (auto simp: parse_endpoint_def parse_tcp_def parse_pipe_def split: option.splits if_splits)

text \<open>C28: The textual form of an endpoint is faithful. Whatever text an endpoint was read from, printing
  it gives a text that is read as the same endpoint: unix paths, pipe names, and loopback
  addresses of both families with their port and scope.\<close>

theorem endpoint_roundtrip:
  assumes "parse_endpoint input = Ok e"
  shows "parse_endpoint (display_string e) = Ok e"
proof (cases e)
  case (NamedPipe n)
  with parse_endpoint_cases [OF assms] show ?thesis by (simp add: parse_endpoint_def del: lit_Cons)
next
  case (Tcp_Addr addr)
  with parse_endpoint_cases [OF assms] have "is_loopback addr" by simp
  with Tcp_Addr parse_show_is_loopback [OF this] show ?thesis
    by (simp add: parse_endpoint_def parse_tcp_def del: lit_Cons show_sock_addr.simps is_loopback.simps)
qed (simp add: parse_endpoint_def del: lit_Cons)

theorem endpoint_roundtrip_witness:
  "parse_endpoint (lit ''tcp:[::1]:80'') = Ok (Tcp_Addr (V6 [0, 0, 0, 0, 0, 0, 0, 1] 0 80))
   \<and> parse_endpoint (display_string (Tcp_Addr (V6 [0, 0, 0, 0, 0, 0, 0, 1] 0 80))) = Ok (Tcp_Addr (V6 [0, 0, 0, 0, 0, 0, 0, 1] 0 80))"
proof -
  have "lit ''[::1]:80'' = show_sock_addr (V6 [0, 0, 0, 0, 0, 0, 0, 1] 0 80)"
    by (simp add: show_loopback show_nat.simps)
  then have "parse_sock_addr (lit ''[::1]:80'') = Some (V6 [0, 0, 0, 0, 0, 0, 0, 1] 0 80)"
    by (simp only: parse_show_loopback)
  then have "parse_endpoint (lit ''tcp:[::1]:80'') = Ok (Tcp_Addr (V6 [0, 0, 0, 0, 0, 0, 0, 1] 0 80))"
    by (simp add: parse_endpoint_def strip_prefix_def parse_tcp_def)
  from this endpoint_roundtrip [OF this] show ?thesis ..
qed

text \<open>Nothing but loopback is reachable over TCP: an endpoint
  that parses to a TCP address is a loopback address, and a TCP client is accepted only from a
  loopback address, and then without any identity.\<close>

theorem tcp_is_loopback_only:
  "(\<forall>a. parse_endpoint input = Ok (Tcp_Addr a) \<longrightarrow> is_loopback a)
   \<and> (\<forall>a peer. accept_peer (TcpPeer a) = Ok peer \<longrightarrow> is_loopback a \<and> peer = anonymous)"
  by (auto simp: parse_endpoint_def parse_tcp_def parse_pipe_def split: option.splits if_splits)

theorem tcp_is_loopback_only_witness:
  "is_loopback (V4 127 0 0 1 27015)
   \<and> parse_endpoint (lit ''tcp:127.0.0.1:27015'') = Ok (Tcp_Addr (V4 127 0 0 1 27015))"
proof -
  have "lit ''127.0.0.1:27015'' = show_sock_addr (V4 127 0 0 1 27015)" by (simp add: show_ipv4_def show_nat.simps)
  then have "parse_sock_addr (lit ''127.0.0.1:27015'') = Some (V4 127 0 0 1 27015)" by (simp only: parse_show_v4)
  then have p: "parse_endpoint (lit ''tcp:127.0.0.1:27015'') = Ok (Tcp_Addr (V4 127 0 0 1 27015))"
    by (simp add: parse_endpoint_def strip_prefix_def parse_tcp_def)
  with tcp_is_loopback_only [of "lit ''tcp:127.0.0.1:27015''"] show ?thesis by blast
qed

end
