(* ===== verification/Daemon_Config.thy ===== *)
theory Daemon_Config
  imports Transport
begin

unbundle bit_operations_syntax

text \<open>
  \<open>config.rs\<close>: the configuration of the daemon, built from defaults, an optional file and the
  command line. Reading the file belongs to the operating system and its TOML syntax to a
  crate: both are arguments. Paths are strings, durations are milliseconds; log messages are
  not modelled. The defaults are those of the unix platform.
\<close>

section \<open>Data\<close>

datatype backend = Usb | Relay

datatype log_format = Text | Json

fun backend_display :: "backend \<Rightarrow> rstr" where
  "backend_display Usb = lit ''usb''"
| "backend_display Relay = lit ''relay''"

fun log_format_display :: "log_format \<Rightarrow> rstr" where
  "log_format_display Text = lit ''text''"
| "log_format_display Json = lit ''json''"

record daemon_args =
  a_config_path :: "rstr option"
  a_endpoint :: "rstr option"
  a_socket_path :: "rstr option"
  a_socket_mode :: "rstr option"
  a_socket_group :: "rstr option"
  a_pipe_security :: "rstr option"
  a_lockdown_dir :: "rstr option"
  a_no_require_pair_record :: bool
  a_scan_interval_ms :: "nat option"
  a_usb_timeout_ms :: "nat option"
  a_connect_timeout_ms :: "nat option"
  a_max_clients :: "usize option"
  a_read_workers :: "usize option"
  a_allow_uids :: "u32 list"
  a_allow_sids :: "rstr list"
  a_backend :: backend
  a_upstream :: "rstr option"
  a_log_format :: log_format

record config_file =
  f_endpoint :: "rstr option"
  f_socket_path :: "rstr option"
  f_socket_mode :: "rstr option"
  f_socket_group :: "rstr option"
  f_pipe_security :: "rstr option"
  f_lockdown_dir :: "rstr option"
  f_require_pair_record :: "bool option"
  f_scan_interval_ms :: "nat option"
  f_usb_timeout_ms :: "nat option"
  f_connect_timeout_ms :: "nat option"
  f_max_clients :: "usize option"
  f_read_workers :: "usize option"
  f_allowed_uids :: "u32 list option"
  f_allowed_sids :: "rstr list option"
  f_backend :: "backend option"
  f_upstream :: "rstr option"
  f_log_format :: "log_format option"

definition config_file_default :: config_file where
  "config_file_default = \<lparr>f_endpoint = None, f_socket_path = None, f_socket_mode = None,
     f_socket_group = None, f_pipe_security = None, f_lockdown_dir = None,
     f_require_pair_record = None, f_scan_interval_ms = None, f_usb_timeout_ms = None,
     f_connect_timeout_ms = None, f_max_clients = None, f_read_workers = None,
     f_allowed_uids = None, f_allowed_sids = None, f_backend = None, f_upstream = None,
     f_log_format = None\<rparr>"

record daemon_config =
  cfg_endpoint :: endpoint
  cfg_endpoint_raw :: "rstr option"
  cfg_socket_path :: rstr
  cfg_socket_mode :: u32
  cfg_socket_group :: "rstr option"
  cfg_pipe_security :: rstr
  cfg_lockdown_dir :: rstr
  cfg_require_pair_record :: bool
  cfg_scan_interval :: nat
  cfg_usb_timeout :: nat
  cfg_connect_timeout :: nat
  cfg_max_clients :: usize
  cfg_broadcast_capacity :: usize
  cfg_read_workers :: usize
  cfg_max_reassembly_bytes :: usize
  cfg_max_packet_bytes :: usize
  cfg_max_conn_buffer :: usize
  cfg_client_read_buf :: usize
  cfg_max_data_channel :: usize
  cfg_connect_channel :: usize
  cfg_allowed_uids :: "u32 list"
  cfg_allowed_sids :: "rstr list"
  cfg_backend :: backend
  cfg_upstream :: endpoint
  cfg_upstream_raw :: "rstr option"
  cfg_log_format :: log_format

definition default_endpoint :: rstr where
  "default_endpoint = lit ''/var/run/usbmuxd''"

definition default_lockdown_dir :: rstr where
  [simp]: "default_lockdown_dir = lit ''/var/lib/lockdown''"

definition default_log_dir :: rstr where
  "default_log_dir = lit ''/var/log''"

text \<open>Descriptors of pipes exist on Windows only.\<close>

definition default_pipe_security :: rstr where
  [simp]: "default_pipe_security = []"

text \<open>The built-in defaults; the socket mode is 0o666.\<close>

definition DEFAULT_SCAN_INTERVAL_MS :: nat where [simp]: "DEFAULT_SCAN_INTERVAL_MS = 2000"

definition DEFAULT_USB_TIMEOUT_MS :: nat where [simp]: "DEFAULT_USB_TIMEOUT_MS = 5000"

definition DEFAULT_CONNECT_TIMEOUT_MS :: nat where [simp]: "DEFAULT_CONNECT_TIMEOUT_MS = 5000"

definition DEFAULT_MAX_CLIENTS :: usize where [simp]: "DEFAULT_MAX_CLIENTS = 256"

definition DEFAULT_BROADCAST_CAPACITY :: usize where [simp]: "DEFAULT_BROADCAST_CAPACITY = 256"

definition DEFAULT_READ_WORKERS :: usize where [simp]: "DEFAULT_READ_WORKERS = 3"

definition DEFAULT_MAX_REASSEMBLY_BYTES :: usize where [simp]: "DEFAULT_MAX_REASSEMBLY_BYTES = 1024 * 1024"

definition DEFAULT_MAX_PACKET_BYTES :: usize where [simp]: "DEFAULT_MAX_PACKET_BYTES = 16 * 1024 * 1024"

definition DEFAULT_MAX_CONN_BUFFER :: usize where [simp]: "DEFAULT_MAX_CONN_BUFFER = 1024 * 1024"

definition DEFAULT_CLIENT_READ_BUF :: usize where [simp]: "DEFAULT_CLIENT_READ_BUF = 16384"

definition DEFAULT_MAX_DATA_CHANNEL :: usize where [simp]: "DEFAULT_MAX_DATA_CHANNEL = 128"

definition DEFAULT_CONNECT_CHANNEL :: usize where [simp]: "DEFAULT_CONNECT_CHANNEL = 16"

definition DEFAULT_SOCKET_MODE :: u32 where [simp]: "DEFAULT_SOCKET_MODE = 438"

definition config_default :: daemon_config where
  "config_default = \<lparr>cfg_endpoint = Unix default_endpoint, cfg_endpoint_raw = None,
     cfg_socket_path = default_endpoint, cfg_socket_mode = DEFAULT_SOCKET_MODE, cfg_socket_group = None,
     cfg_pipe_security = default_pipe_security, cfg_lockdown_dir = default_lockdown_dir, cfg_require_pair_record = True,
     cfg_scan_interval = DEFAULT_SCAN_INTERVAL_MS, cfg_usb_timeout = DEFAULT_USB_TIMEOUT_MS, cfg_connect_timeout = DEFAULT_CONNECT_TIMEOUT_MS,
     cfg_max_clients = DEFAULT_MAX_CLIENTS, cfg_broadcast_capacity = DEFAULT_BROADCAST_CAPACITY, cfg_read_workers = DEFAULT_READ_WORKERS,
     cfg_max_reassembly_bytes = DEFAULT_MAX_REASSEMBLY_BYTES, cfg_max_packet_bytes = DEFAULT_MAX_PACKET_BYTES,
     cfg_max_conn_buffer = DEFAULT_MAX_CONN_BUFFER, cfg_client_read_buf = DEFAULT_CLIENT_READ_BUF, cfg_max_data_channel = DEFAULT_MAX_DATA_CHANNEL,
     cfg_connect_channel = DEFAULT_CONNECT_CHANNEL, cfg_allowed_uids = [], cfg_allowed_sids = [], cfg_backend = Usb,
     cfg_upstream = Tcp_Addr (V4 127 0 0 1 27015), cfg_upstream_raw = None, cfg_log_format = Text\<rparr>"

definition MAX_CONFIG_FILE_SIZE :: usize where
  "MAX_CONFIG_FILE_SIZE = 1024 * 1024"

section \<open>Octal modes\<close>

text \<open>\<open>trim_start_matches\<close> with a non-empty string pattern.\<close>

function trim_start_str :: "rstr \<Rightarrow> rstr \<Rightarrow> rstr" where
  "trim_start_str p s =
     (if p \<noteq> [] \<and> take (length p) s = p then trim_start_str p (drop (length p) s) else s)"
  by pat_completeness auto
termination
proof (relation "measure (\<lambda>(p, s). length s)")
  fix p s :: rstr
  assume "p \<noteq> [] \<and> take (length p) s = p"
  then have "s \<noteq> []" "p \<noteq> []" by auto
  then show "((p, drop (length p) s), (p, s)) \<in> measure (\<lambda>(p, s). length s)"
    by (cases p) auto
qed simp

declare trim_start_str.simps [simp del]

definition parse_octal :: "rstr \<Rightarrow> (rstr, u32) res" where
  "parse_octal s =
     (let t = trim_start_str (lit ''0'') (trim_start_str (lit ''0o'') (trim s)) in
      case parse_uint 8 (2 ^ 32 - 1) t of
        Some n \<Rightarrow> Ok (word_of_nat n)
      | None \<Rightarrow> Err (lit ''invalid octal value '' @ [39] @ t @ [39]))"

text \<open>\<open>{:o}\<close> formatting.\<close>

fun show_oct :: "nat \<Rightarrow> rstr" where
  "show_oct n = (if n < 8 then [48 + n] else show_oct (n div 8) @ [48 + n mod 8])"

declare show_oct.simps [simp del]

section \<open>Merging\<close>

text \<open>\<open>if let Some(v) = new { self.field = v }\<close>\<close>

fun override :: "'a \<Rightarrow> 'a option \<Rightarrow> 'a" where
  "override old None = old"
| "override old (Some v) = v"

definition merge_mode :: "u32 \<Rightarrow> rstr option \<Rightarrow> u32" where
  "merge_mode old m = (case m of
     None \<Rightarrow> old
   | Some s \<Rightarrow> (case parse_octal s of Ok mode \<Rightarrow> mode | _ \<Rightarrow> old))"

definition merge_raw :: "rstr option \<Rightarrow> rstr option \<Rightarrow> rstr option \<Rightarrow> rstr option" where
  "merge_raw old e p =
     (case p of Some path \<Rightarrow> Some (lit ''unix:'' @ path)
      | None \<Rightarrow> (case e of Some v \<Rightarrow> Some v | None \<Rightarrow> old))"

definition merge_file :: "daemon_config \<Rightarrow> config_file \<Rightarrow> daemon_config" where
  "merge_file cfg file = cfg\<lparr>
     cfg_endpoint_raw := merge_raw (cfg_endpoint_raw cfg) (f_endpoint file) (f_socket_path file),
     cfg_socket_path := override (cfg_socket_path cfg) (f_socket_path file),
     cfg_socket_mode := merge_mode (cfg_socket_mode cfg) (f_socket_mode file),
     cfg_socket_group := (case f_socket_group file of Some g \<Rightarrow> Some g | None \<Rightarrow> cfg_socket_group cfg),
     cfg_pipe_security := override (cfg_pipe_security cfg) (f_pipe_security file),
     cfg_lockdown_dir := override (cfg_lockdown_dir cfg) (f_lockdown_dir file),
     cfg_require_pair_record := override (cfg_require_pair_record cfg) (f_require_pair_record file),
     cfg_scan_interval := override (cfg_scan_interval cfg) (f_scan_interval_ms file),
     cfg_usb_timeout := override (cfg_usb_timeout cfg) (f_usb_timeout_ms file),
     cfg_connect_timeout := override (cfg_connect_timeout cfg) (f_connect_timeout_ms file),
     cfg_max_clients := override (cfg_max_clients cfg) (f_max_clients file),
     cfg_read_workers := override (cfg_read_workers cfg) (f_read_workers file),
     cfg_allowed_uids := override (cfg_allowed_uids cfg) (f_allowed_uids file),
     cfg_allowed_sids := override (cfg_allowed_sids cfg) (f_allowed_sids file),
     cfg_backend := override (cfg_backend cfg) (f_backend file),
     cfg_upstream_raw := (case f_upstream file of Some u \<Rightarrow> Some u | None \<Rightarrow> cfg_upstream_raw cfg),
     cfg_log_format := override (cfg_log_format cfg) (f_log_format file)\<rparr>"

definition merge_args :: "daemon_config \<Rightarrow> daemon_args \<Rightarrow> daemon_config" where
  "merge_args cfg args = cfg\<lparr>
     cfg_endpoint_raw := merge_raw (cfg_endpoint_raw cfg) (a_endpoint args) (a_socket_path args),
     cfg_socket_path := override (cfg_socket_path cfg) (a_socket_path args),
     cfg_socket_mode := merge_mode (cfg_socket_mode cfg) (a_socket_mode args),
     cfg_socket_group := (case a_socket_group args of Some g \<Rightarrow> Some g | None \<Rightarrow> cfg_socket_group cfg),
     cfg_pipe_security := override (cfg_pipe_security cfg) (a_pipe_security args),
     cfg_lockdown_dir := override (cfg_lockdown_dir cfg) (a_lockdown_dir args),
     cfg_require_pair_record := (if a_no_require_pair_record args then False else cfg_require_pair_record cfg),
     cfg_scan_interval := override (cfg_scan_interval cfg) (a_scan_interval_ms args),
     cfg_usb_timeout := override (cfg_usb_timeout cfg) (a_usb_timeout_ms args),
     cfg_connect_timeout := override (cfg_connect_timeout cfg) (a_connect_timeout_ms args),
     cfg_max_clients := override (cfg_max_clients cfg) (a_max_clients args),
     cfg_read_workers := override (cfg_read_workers cfg) (a_read_workers args),
     cfg_allowed_uids := (if a_allow_uids args \<noteq> [] then a_allow_uids args else cfg_allowed_uids cfg),
     cfg_allowed_sids := (if a_allow_sids args \<noteq> [] then a_allow_sids args else cfg_allowed_sids cfg),
     cfg_backend := a_backend args,
     cfg_upstream_raw := (case a_upstream args of Some u \<Rightarrow> Some u | None \<Rightarrow> cfg_upstream_raw cfg),
     cfg_log_format := a_log_format args\<rparr>"

definition finalize_endpoint ::
  "daemon_config \<Rightarrow> (rstr, daemon_config) res" where
  "finalize_endpoint cfg =
     res_bind
       (case cfg_endpoint_raw cfg of
          None \<Rightarrow> Ok cfg
        | Some raw \<Rightarrow>
            res_bind (parse_endpoint raw) (\<lambda>e.
            Ok (case e of
                  Unix p \<Rightarrow> cfg\<lparr>cfg_endpoint := e, cfg_socket_path := p\<rparr>
                | _ \<Rightarrow> cfg\<lparr>cfg_endpoint := e\<rparr>)))
       (\<lambda>cfg1.
         case cfg_upstream_raw cfg1 of
           None \<Rightarrow> Ok cfg1
         | Some raw \<Rightarrow>
             res_bind (parse_endpoint raw) (\<lambda>u. Ok (cfg1\<lparr>cfg_upstream := u\<rparr>)))"

text \<open>
  \<open>read_file\<close> is the content of a path or the text of the error, \<open>from_toml\<close> the TOML parser,
  \<open>default_exists\<close> whether the platform's default file exists.
\<close>

definition default_config_path :: rstr where
  "default_config_path = lit ''/etc/meridian-relay.toml''"

definition from_sources ::
  "(rstr \<Rightarrow> (rstr, rstr) res) \<Rightarrow> (rstr \<Rightarrow> (rstr, config_file) res) \<Rightarrow> bool
   \<Rightarrow> rstr option \<Rightarrow> daemon_args \<Rightarrow> (rstr, daemon_config) res" where
  "from_sources read_file from_toml default_exists config_path args =
     (let path = (case config_path of
                    Some p \<Rightarrow> Some p
                  | None \<Rightarrow> if default_exists then Some default_config_path else None) in
      res_bind
        (case path of
           None \<Rightarrow> Ok config_default
         | Some p \<Rightarrow>
             (case read_file p of
                Err e \<Rightarrow> Err (lit ''failed to read config file '' @ p @ lit '': '' @ e)
              | Panic \<Rightarrow> Panic
              | Ok content \<Rightarrow>
                  if MAX_CONFIG_FILE_SIZE < str_len content
                  then Err (lit ''config file too large: '' @ show_nat (str_len content) @ lit '' bytes (max ''
                         @ show_nat MAX_CONFIG_FILE_SIZE @ lit '')'')
                  else
                    (case from_toml content of
                       Err e \<Rightarrow> Err (lit ''failed to parse config file: '' @ e)
                     | Panic \<Rightarrow> Panic
                     | Ok file \<Rightarrow> Ok (merge_file config_default file))))
        (\<lambda>cfg. finalize_endpoint (merge_args cfg args)))"

section \<open>Validation\<close>

definition validate :: "daemon_config \<Rightarrow> (rstr, unit) res" where
  "validate cfg =
     (if cfg_max_clients cfg = 0 then Err (lit ''max_clients must be > 0'')
      else if cfg_read_workers cfg = 0 then Err (lit ''read_workers must be > 0'')
      else if cfg_scan_interval cfg = 0 then Err (lit ''scan_interval must be > 0'')
      else if cfg_usb_timeout cfg = 0 then Err (lit ''usb_timeout must be > 0'')
      else if cfg_connect_timeout cfg = 0 then Err (lit ''connect_timeout must be > 0'')
      else if cfg_max_packet_bytes cfg < 1024 then Err (lit ''max_packet_bytes must be >= 1024'')
      else if cfg_max_conn_buffer cfg = 0 then Err (lit ''max_conn_buffer must be > 0'')
      else if 511 < cfg_socket_mode cfg then Err (lit ''invalid socket mode: '' @ show_oct (unat (cfg_socket_mode cfg)))
      else Ok ())"

definition cfg_resolve_group_gid :: "rstr option \<Rightarrow> daemon_config \<Rightarrow> u32 option" where
  "cfg_resolve_group_gid etc_group cfg =
     (case cfg_socket_group cfg of
        None \<Rightarrow> None
      | Some group_name \<Rightarrow>
          (case etc_group of
             Some content \<Rightarrow> group_gid_of_lines group_name (str_lines content)
           | None \<Rightarrow> None))"

section \<open>Lemmas\<close>

lemma show_oct_digits: "c \<in> set (show_oct n) \<Longrightarrow> 48 \<le> c \<and> c \<le> 55"
proof (induction n rule: show_oct.induct)
  case (1 n)
  show ?case
  proof (cases "n < 8")
    case True
    with "1.prems" show ?thesis by (simp add: show_oct.simps [of n])
  next
    case False
    with 1 have "c \<in> set (show_oct (n div 8)) \<or> c = 48 + n mod 8"
      by (auto simp: show_oct.simps [of n])
    then show ?thesis
    proof
      assume "c = 48 + n mod 8"
      then show ?thesis using mod_less_divisor [of 8 n] by linarith
    qed (use 1 False in blast)
  qed
qed

lemma show_oct_not_Nil [simp]: "show_oct n \<noteq> []"
  by (simp add: show_oct.simps [of n])

lemma show_oct_hd: "0 < n \<Longrightarrow> hd (show_oct n) \<noteq> 48"
proof (induction n rule: show_oct.induct)
  case (1 n)
  then show ?case by (cases "n < 8") (auto simp: show_oct.simps [of n])
qed

lemma parse_digits_show_oct: "n \<le> mx \<Longrightarrow> parse_digits 8 mx 0 (show_oct n) = Some n"
proof (induction n rule: show_oct.induct)
  case (1 n)
  have "n mod 8 < 8" by simp
  with 1 show ?case
    by (cases "n < 8") (auto simp: show_oct.simps [of n] parse_digits_append)
qed

lemma trim_start_str_stop: "take (length p) s \<noteq> p \<Longrightarrow> trim_start_str p s = s"
  by (simp add: trim_start_str.simps)

lemma trim_start_zeros: "trim_start_str (lit ''0'') (replicate k 48 @ s) = trim_start_str (lit ''0'') s"
  by (induction k) (simp_all add: trim_start_str.simps [of _ "48 # _"])

lemma trim_start_0o:
  assumes "s \<noteq> []" and "hd s \<noteq> 48" and "hd s \<noteq> 111"
  shows "trim_start_str (lit ''0o'') (replicate k 48 @ s) = replicate k 48 @ s"
proof (rule trim_start_str_stop)
  obtain c t where s: "s = c # t" using assms(1) by (cases s) auto
  show "take (length (lit ''0o'')) (replicate k 48 @ s) \<noteq> lit ''0o''"
  proof (cases k)
    case 0
    with assms(2) s show ?thesis by simp
  next
    case (Suc j)
    with assms(3) s show ?thesis by (cases j) auto
  qed
qed

text \<open>Resolving the endpoints changes three fields only, each endpoint to a parsed one.\<close>

definition parsed_or :: "endpoint \<Rightarrow> endpoint \<Rightarrow> bool" where
  "parsed_or old e \<longleftrightarrow> e = old \<or> (\<exists>raw. parse_endpoint raw = Ok e)"

lemma finalize_resolves:
  assumes "finalize_endpoint cfg = Ok cfg'"
  shows "\<exists>e p u. cfg' = cfg\<lparr>cfg_endpoint := e, cfg_socket_path := p, cfg_upstream := u\<rparr>
     \<and> (case cfg_endpoint_raw cfg of
          None \<Rightarrow> e = cfg_endpoint cfg \<and> p = cfg_socket_path cfg
        | Some raw \<Rightarrow> parse_endpoint raw = Ok e \<and> p = (case e of Unix q \<Rightarrow> q | _ \<Rightarrow> cfg_socket_path cfg))
     \<and> (case cfg_upstream_raw cfg of None \<Rightarrow> u = cfg_upstream cfg | Some raw \<Rightarrow> parse_endpoint raw = Ok u)"
proof -
  obtain e p where one: "(case cfg_endpoint_raw cfg of
          None \<Rightarrow> Ok cfg
        | Some raw \<Rightarrow>
            res_bind (parse_endpoint raw) (\<lambda>e.
            Ok (case e of
                  Unix p \<Rightarrow> cfg\<lparr>cfg_endpoint := e, cfg_socket_path := p\<rparr>
                | _ \<Rightarrow> cfg\<lparr>cfg_endpoint := e\<rparr>))) = Ok (cfg\<lparr>cfg_endpoint := e, cfg_socket_path := p\<rparr>)"
    and ep: "case cfg_endpoint_raw cfg of
          None \<Rightarrow> e = cfg_endpoint cfg \<and> p = cfg_socket_path cfg
        | Some raw \<Rightarrow> parse_endpoint raw = Ok e \<and> p = (case e of Unix q \<Rightarrow> q | _ \<Rightarrow> cfg_socket_path cfg)"
    using assms by (fastforce simp: finalize_endpoint_def res_bind_eq_Ok split: option.splits endpoint.splits)
  have "\<exists>u. cfg' = cfg\<lparr>cfg_endpoint := e, cfg_socket_path := p, cfg_upstream := u\<rparr>
      \<and> (case cfg_upstream_raw cfg of None \<Rightarrow> u = cfg_upstream cfg | Some raw \<Rightarrow> parse_endpoint raw = Ok u)"
  proof (cases "cfg_upstream_raw cfg")
    case None
    with assms have "cfg' = cfg\<lparr>cfg_endpoint := e, cfg_socket_path := p\<rparr>"
      unfolding finalize_endpoint_def one by simp
    with None show ?thesis by (cases cfg) simp
  next
    case (Some raw)
    with assms show ?thesis unfolding finalize_endpoint_def one by (auto simp: res_bind_eq_Ok)
  qed
  with ep show ?thesis by blast
qed

lemma finalize_fields:
  assumes "finalize_endpoint cfg = Ok cfg'"
  shows "\<exists>e p u. cfg' = cfg\<lparr>cfg_endpoint := e, cfg_socket_path := p, cfg_upstream := u\<rparr>
       \<and> parsed_or (cfg_endpoint cfg) e \<and> parsed_or (cfg_upstream cfg) u"
proof -
  obtain e p u where cfg': "cfg' = cfg\<lparr>cfg_endpoint := e, cfg_socket_path := p, cfg_upstream := u\<rparr>"
    and ep: "case cfg_endpoint_raw cfg of
          None \<Rightarrow> e = cfg_endpoint cfg \<and> p = cfg_socket_path cfg
        | Some raw \<Rightarrow> parse_endpoint raw = Ok e \<and> p = (case e of Unix q \<Rightarrow> q | _ \<Rightarrow> cfg_socket_path cfg)"
    and up: "case cfg_upstream_raw cfg of None \<Rightarrow> u = cfg_upstream cfg | Some raw \<Rightarrow> parse_endpoint raw = Ok u"
    using finalize_resolves [OF assms] by blast
  have "parsed_or (cfg_endpoint cfg) e" using ep by (auto simp: parsed_or_def split: option.splits)
  moreover have "parsed_or (cfg_upstream cfg) u" using up by (auto simp: parsed_or_def split: option.splits)
  ultimately show ?thesis using cfg' by blast
qed

text \<open>A command line without options, for the witnesses.\<close>

definition example_args :: daemon_args where
  "example_args = \<lparr>a_config_path = None, a_endpoint = None, a_socket_path = None, a_socket_mode = None,
     a_socket_group = None, a_pipe_security = None, a_lockdown_dir = None, a_no_require_pair_record = False,
     a_scan_interval_ms = None, a_usb_timeout_ms = None, a_connect_timeout_ms = None, a_max_clients = None,
     a_read_workers = None, a_allow_uids = [], a_allow_sids = [], a_backend = Usb, a_upstream = None,
     a_log_format = Text\<rparr>"

section \<open>Properties\<close>

text \<open>The first value given, or else the default.\<close>

fun first_given :: "'a option list \<Rightarrow> 'a option" where
  "first_given [] = None"
| "first_given (Some x # xs) = Some x"
| "first_given (None # xs) = first_given xs"

definition given_or :: "'a \<Rightarrow> 'a option list \<Rightarrow> 'a" where
  "given_or d xs = (case first_given xs of Some x \<Rightarrow> x | None \<Rightarrow> d)"

definition valid_mode :: "rstr option \<Rightarrow> u32 option" where
  "valid_mode m = (case m of None \<Rightarrow> None | Some s \<Rightarrow> (case parse_octal s of Ok mode \<Rightarrow> Some mode | _ \<Rightarrow> None))"

text \<open>What names the endpoint: a socket path stands before an endpoint of the same source.\<close>

definition named_endpoint :: "daemon_args \<Rightarrow> config_file \<Rightarrow> rstr option" where
  "named_endpoint args file = first_given
     [map_option (\<lambda>p. lit ''unix:'' @ p) (a_socket_path args), a_endpoint args,
      map_option (\<lambda>p. lit ''unix:'' @ p) (f_socket_path file), f_endpoint file]"

lemma given_or_simps [simp]:
  "given_or d [a, b] = override (override d b) a"
  "first_given [a, b] = (case a of Some x \<Rightarrow> Some x | None \<Rightarrow> b)"
  by (cases a; cases b; simp add: given_or_def)+

lemma merge_mode_valid: "merge_mode (merge_mode d b) a = given_or d [valid_mode a, valid_mode b]"
  by (auto simp: merge_mode_def valid_mode_def split: option.splits res.splits)

lemma merge_raw_named:
  "merge_raw (merge_raw None (f_endpoint file) (f_socket_path file)) (a_endpoint args) (a_socket_path args) = named_endpoint args file"
  by (auto simp: merge_raw_def named_endpoint_def split: option.splits)

lemma given_or_one: "given_or d [x] = override d x"
  by (cases x) (simp_all add: given_or_def)

text \<open>The settings that need no parsing.\<close>

lemma merged_settings:
  assumes cfg: "cfg = (merge_args (merge_file config_default file) args)\<lparr>cfg_endpoint := e, cfg_socket_path := p, cfg_upstream := u\<rparr>"
  shows "cfg_socket_group cfg = first_given [a_socket_group args, f_socket_group file]"
    "cfg_max_clients cfg = given_or 256 [a_max_clients args, f_max_clients file]"
    "cfg_read_workers cfg = given_or 3 [a_read_workers args, f_read_workers file]"
    "cfg_scan_interval cfg = given_or 2000 [a_scan_interval_ms args, f_scan_interval_ms file]"
    "cfg_usb_timeout cfg = given_or 5000 [a_usb_timeout_ms args, f_usb_timeout_ms file]"
    "cfg_connect_timeout cfg = given_or 5000 [a_connect_timeout_ms args, f_connect_timeout_ms file]"
    "cfg_lockdown_dir cfg = given_or (lit ''/var/lib/lockdown'') [a_lockdown_dir args, f_lockdown_dir file]"
    "cfg_pipe_security cfg = given_or default_pipe_security [a_pipe_security args, f_pipe_security file]"
    "cfg_socket_mode cfg = given_or 438 [valid_mode (a_socket_mode args), valid_mode (f_socket_mode file)]"
    "cfg_require_pair_record cfg = (\<not> a_no_require_pair_record args \<and> given_or True [f_require_pair_record file])"
    "cfg_allowed_uids cfg = (if a_allow_uids args \<noteq> [] then a_allow_uids args else given_or [] [f_allowed_uids file])"
    "cfg_allowed_sids cfg = (if a_allow_sids args \<noteq> [] then a_allow_sids args else given_or [] [f_allowed_sids file])"
    "cfg_backend cfg = a_backend args" "cfg_log_format cfg = a_log_format args"
    "cfg_broadcast_capacity cfg = cfg_broadcast_capacity config_default"
    "cfg_max_reassembly_bytes cfg = cfg_max_reassembly_bytes config_default"
    "cfg_max_packet_bytes cfg = cfg_max_packet_bytes config_default"
    "cfg_max_conn_buffer cfg = cfg_max_conn_buffer config_default"
    "cfg_client_read_buf cfg = cfg_client_read_buf config_default"
    "cfg_max_data_channel cfg = cfg_max_data_channel config_default"
    "cfg_connect_channel cfg = cfg_connect_channel config_default"
  unfolding cfg given_or_one
  by (cases "a_socket_group args"; cases "f_socket_group file"; simp add: merge_args_def merge_file_def config_default_def)
    (simp_all add: merge_args_def merge_file_def config_default_def merge_mode_valid)

text \<open>C32: Where a setting comes from. If the configuration is built from a file and the command
  line, each of the following is the value of the command line if given there, else the one of
  the file, else the default: limits, intervals, directories, socket group and pipe security, the
  upstream, and the socket mode, for which a text that is no octal number counts as not given.
  The endpoint is named by the command line's socket path or endpoint, else by the file's, else
  the default, and is what that name parses to; the socket path is the path of a Unix endpoint so
  named, else the path given. An allowlist on the command line replaces the one of the file; the
  pair record requirement can be switched off on the command line but not on; the back end and
  the log format are always those of the command line, whatever the file says; all other
  settings keep their defaults.\<close>

theorem config_precedence:
  assumes "from_sources read_file from_toml dflt (Some path) args = Ok cfg"
    and "read_file path = Ok content" and "from_toml content = Ok file"
  shows "cfg_max_clients cfg = given_or 256 [a_max_clients args, f_max_clients file]
    \<and> cfg_read_workers cfg = given_or 3 [a_read_workers args, f_read_workers file]
    \<and> cfg_scan_interval cfg = given_or 2000 [a_scan_interval_ms args, f_scan_interval_ms file]
    \<and> cfg_usb_timeout cfg = given_or 5000 [a_usb_timeout_ms args, f_usb_timeout_ms file]
    \<and> cfg_connect_timeout cfg = given_or 5000 [a_connect_timeout_ms args, f_connect_timeout_ms file]
    \<and> cfg_lockdown_dir cfg = given_or (lit ''/var/lib/lockdown'') [a_lockdown_dir args, f_lockdown_dir file]
    \<and> cfg_socket_group cfg = first_given [a_socket_group args, f_socket_group file]
    \<and> cfg_pipe_security cfg = given_or default_pipe_security [a_pipe_security args, f_pipe_security file]
    \<and> cfg_socket_mode cfg = given_or 438 [valid_mode (a_socket_mode args), valid_mode (f_socket_mode file)]
    \<and> (case named_endpoint args file of
         None \<Rightarrow> cfg_endpoint cfg = Unix (lit ''/var/run/usbmuxd'')
       | Some name \<Rightarrow> parse_endpoint name = Ok (cfg_endpoint cfg))
    \<and> cfg_socket_path cfg = (case (named_endpoint args file, cfg_endpoint cfg) of
         (Some _, Unix p) \<Rightarrow> p | _ \<Rightarrow> given_or (lit ''/var/run/usbmuxd'') [a_socket_path args, f_socket_path file])
    \<and> (case first_given [a_upstream args, f_upstream file] of
         None \<Rightarrow> cfg_upstream cfg = Tcp_Addr (V4 127 0 0 1 27015)
       | Some name \<Rightarrow> parse_endpoint name = Ok (cfg_upstream cfg))
    \<and> cfg_require_pair_record cfg = (\<not> a_no_require_pair_record args \<and> given_or True [f_require_pair_record file])
    \<and> cfg_allowed_uids cfg = (if a_allow_uids args \<noteq> [] then a_allow_uids args else given_or [] [f_allowed_uids file])
    \<and> cfg_allowed_sids cfg = (if a_allow_sids args \<noteq> [] then a_allow_sids args else given_or [] [f_allowed_sids file])
    \<and> cfg_backend cfg = a_backend args \<and> cfg_log_format cfg = a_log_format args
    \<and> cfg_broadcast_capacity cfg = cfg_broadcast_capacity config_default
    \<and> cfg_max_reassembly_bytes cfg = cfg_max_reassembly_bytes config_default
    \<and> cfg_max_packet_bytes cfg = cfg_max_packet_bytes config_default
    \<and> cfg_max_conn_buffer cfg = cfg_max_conn_buffer config_default
    \<and> cfg_client_read_buf cfg = cfg_client_read_buf config_default
    \<and> cfg_max_data_channel cfg = cfg_max_data_channel config_default
    \<and> cfg_connect_channel cfg = cfg_connect_channel config_default"
proof -
  let ?m = "merge_args (merge_file config_default file) args"
  have "finalize_endpoint ?m = Ok cfg"
    using assms by (auto simp: from_sources_def Let_def split: if_splits)
  from finalize_resolves [OF this] obtain e p u where
    cfg: "cfg = ?m\<lparr>cfg_endpoint := e, cfg_socket_path := p, cfg_upstream := u\<rparr>"
    and ep: "case cfg_endpoint_raw ?m of
          None \<Rightarrow> e = cfg_endpoint ?m \<and> p = cfg_socket_path ?m
        | Some raw \<Rightarrow> parse_endpoint raw = Ok e \<and> p = (case e of Unix q \<Rightarrow> q | _ \<Rightarrow> cfg_socket_path ?m)"
    and up: "case cfg_upstream_raw ?m of None \<Rightarrow> u = cfg_upstream ?m | Some raw \<Rightarrow> parse_endpoint raw = Ok u"
    by blast
  have raw: "cfg_endpoint_raw ?m = named_endpoint args file"
    "cfg_upstream_raw ?m = first_given [a_upstream args, f_upstream file]"
    using merge_raw_named [of "file" "args"]
    by (simp add: merge_args_def merge_file_def config_default_def)
      (cases "a_upstream args"; cases "f_upstream file"; simp add: merge_args_def merge_file_def config_default_def)
  have keep: "cfg_endpoint ?m = Unix default_endpoint" "cfg_upstream ?m = Tcp_Addr (V4 127 0 0 1 27015)"
    "cfg_socket_path ?m = given_or default_endpoint [a_socket_path args, f_socket_path file]"
    by (simp_all add: merge_args_def merge_file_def config_default_def)
  have fields: "cfg_endpoint cfg = e" "cfg_socket_path cfg = p" "cfg_upstream cfg = u" by (simp_all add: cfg)
  have "case named_endpoint args file of
         None \<Rightarrow> cfg_endpoint cfg = Unix (lit ''/var/run/usbmuxd'') | Some name \<Rightarrow> parse_endpoint name = Ok (cfg_endpoint cfg)"
    "cfg_socket_path cfg = (case (named_endpoint args file, cfg_endpoint cfg) of
         (Some _, Unix p) \<Rightarrow> p | _ \<Rightarrow> given_or (lit ''/var/run/usbmuxd'') [a_socket_path args, f_socket_path file])"
    using ep unfolding raw keep fields default_endpoint_def by (auto split: option.splits endpoint.splits)
  moreover have "case first_given [a_upstream args, f_upstream file] of
         None \<Rightarrow> cfg_upstream cfg = Tcp_Addr (V4 127 0 0 1 27015) | Some name \<Rightarrow> parse_endpoint name = Ok (cfg_upstream cfg)"
    using up unfolding raw keep fields .
  moreover note merged_settings [OF cfg]
  ultimately show ?thesis by (intro conjI) blast+
qed

theorem config_precedence_witness:
  "\<exists>cfg. from_sources (\<lambda>_. Ok []) (\<lambda>_. Ok (config_file_default\<lparr>f_backend := Some Relay, f_max_clients := Some 9,
        f_endpoint := Some (lit ''unix:/tmp/a'')\<rparr>)) False (Some (lit ''a'')) example_args = Ok cfg
     \<and> cfg_max_clients cfg = 9 \<and> cfg_backend cfg = Usb \<and> cfg_endpoint cfg = Unix (lit ''/tmp/a'') \<and> cfg_socket_path cfg = lit ''/tmp/a''"
proof -
  let ?file = "config_file_default\<lparr>f_backend := Some Relay, f_max_clients := Some 9, f_endpoint := Some (lit ''unix:/tmp/a'')\<rparr>"
  have parse: "parse_endpoint (lit ''unix:/tmp/a'') = Ok (Unix (lit ''/tmp/a''))"
    by (simp add: parse_endpoint_def strip_prefix_def)
  obtain cfg where cfg: "from_sources (\<lambda>_. Ok []) (\<lambda>_. Ok ?file) False (Some (lit ''a'')) example_args = Ok cfg"
    using parse by (simp add: from_sources_def MAX_CONFIG_FILE_SIZE_def str_len_def finalize_endpoint_def merge_args_def merge_file_def
        config_default_def config_file_default_def example_args_def merge_raw_def)
  have name: "named_endpoint example_args ?file = Some (lit ''unix:/tmp/a'')"
    by (simp add: named_endpoint_def example_args_def config_file_default_def)
  show ?thesis
    using config_precedence [OF cfg refl refl] cfg parse unfolding name by (auto simp: example_args_def)
qed

text \<open>C33: A configuration the daemon runs with meets what its components assume: it is built from
  the sources and validated, so the reassembly limit admits a header, the caps and channel sizes
  are positive, the socket mode is a permission mode, and a TCP endpoint or upstream is a
  loopback address.\<close>

theorem validated_config_meets_assumptions:
  assumes "from_sources read_file from_toml dflt path args = Ok cfg" and "validate cfg = Ok ()"
  shows "7 \<le> cfg_max_reassembly_bytes cfg \<and> 0 < cfg_max_conn_buffer cfg \<and> 1024 \<le> cfg_max_packet_bytes cfg
    \<and> 0 < cfg_max_clients cfg \<and> 0 < cfg_connect_channel cfg \<and> 0 < cfg_max_data_channel cfg
    \<and> 0 < cfg_client_read_buf cfg \<and> 0 < cfg_broadcast_capacity cfg \<and> unat (cfg_socket_mode cfg) \<le> 511
    \<and> (\<forall>a. cfg_endpoint cfg = Tcp_Addr a \<longrightarrow> is_loopback a) \<and> (\<forall>a. cfg_upstream cfg = Tcp_Addr a \<longrightarrow> is_loopback a)"
proof -
  obtain base where base: "base = config_default \<or> (\<exists>file. base = merge_file config_default file)"
    and fin: "finalize_endpoint (merge_args base args) = Ok cfg"
    using assms(1) by (auto simp: from_sources_def Let_def res_bind_eq_Ok split: option.splits res.splits if_splits)
  from finalize_fields [OF fin] obtain e p u where
    cfg: "cfg = (merge_args base args)\<lparr>cfg_endpoint := e, cfg_socket_path := p, cfg_upstream := u\<rparr>"
    and eu: "parsed_or (cfg_endpoint (merge_args base args)) e"
      "parsed_or (cfg_upstream (merge_args base args)) u" by blast
  have loop: "is_loopback a" if "parse_endpoint raw = Ok (Tcp_Addr a)" for raw a
    using that by (auto simp: parse_endpoint_def parse_tcp_def parse_pipe_def split: option.splits if_splits)
  from base have fields: "cfg_max_reassembly_bytes cfg = 1024 * 1024" "cfg_connect_channel cfg = 16"
    "cfg_max_data_channel cfg = 128" "cfg_client_read_buf cfg = 16384" "cfg_broadcast_capacity cfg = 256"
    "cfg_endpoint (merge_args base args) = Unix default_endpoint"
    "cfg_upstream (merge_args base args) = Tcp_Addr (V4 127 0 0 1 27015)"
    unfolding cfg by (auto simp: merge_args_def merge_file_def config_default_def)
  have "is_loopback a" if "e = Tcp_Addr a \<or> u = Tcp_Addr a" for a
    using that eu loop unfolding parsed_or_def fields by auto
  then have "(\<forall>a. cfg_endpoint cfg = Tcp_Addr a \<longrightarrow> is_loopback a)" "(\<forall>a. cfg_upstream cfg = Tcp_Addr a \<longrightarrow> is_loopback a)"
    unfolding cfg by auto
  then show ?thesis
    using assms(2) fields(1-5) by (auto simp: validate_def word_less_nat_alt not_less split: if_splits)
qed

theorem validated_config_meets_assumptions_witness:
  "\<exists>cfg. from_sources (\<lambda>_. Err []) (\<lambda>_. Err []) False None example_args = Ok cfg
     \<and> validate cfg = Ok () \<and> 7 \<le> cfg_max_reassembly_bytes cfg"
proof -
  have cfg: "from_sources (\<lambda>_. Err []) (\<lambda>_. Err []) False None example_args = Ok config_default"
    by (simp add: from_sources_def finalize_endpoint_def merge_args_def config_default_def example_args_def
        merge_raw_def merge_mode_def)
  moreover have "validate config_default = Ok ()"
    by (simp add: validate_def config_default_def word_less_nat_alt)
  ultimately show ?thesis using validated_config_meets_assumptions [OF cfg] by blast
qed

text \<open>The octal parser reads back every positive mode written in octal, with or without
  leading zeros, but refuses every spelling of zero.\<close>

theorem parse_octal_roundtrip:
  assumes "0 < n" and "n < 2 ^ 32"
  shows "parse_octal (replicate k 48 @ show_oct n) = Ok (word_of_nat n)
    \<and> parse_octal (lit ''0o'' @ show_oct n) = Ok (word_of_nat n)
    \<and> \<not> is_Ok (parse_octal (replicate k 48))"
proof -
  let ?s = "show_oct n"
  have hd: "hd ?s \<noteq> 48" "hd ?s \<noteq> 111" "hd ?s \<noteq> 43"
    using show_oct_hd [OF assms(1)] show_oct_digits [of "hd ?s" n] by auto
  have ws: "trim (t @ ?s) = t @ ?s" if "\<forall>c \<in> set t. \<not> is_whitespace c" for t
    by (rule trim_id) (use that show_oct_digits [of _ n] in \<open>fastforce simp: is_whitespace_def\<close>)
  have stop: "trim_start_str (lit ''0'') ?s = ?s" "trim_start_str (lit ''0o'') ?s = ?s"
    using hd by (auto intro!: trim_start_str_stop simp: take_Suc neq_Nil_conv)
  have num: "parse_uint 8 (2 ^ 32 - 1) ?s = Some n"
    using parse_digits_show_oct [of n "2 ^ 32 - 1"] assms(2) hd(3)
    by (cases ?s) (auto simp: parse_uint_def)
  have zeros: "trim (replicate k 48 @ ?s) = replicate k 48 @ ?s"
    by (rule ws) (auto simp: is_whitespace_def)
  have one: "parse_octal (replicate k 48 @ ?s) = Ok (word_of_nat n)"
    using hd num stop(1) by (simp add: parse_octal_def zeros trim_start_0o trim_start_zeros del: lit_Cons)
  have "trim (lit ''0o'' @ ?s) = lit ''0o'' @ ?s" by (rule ws) (auto simp: is_whitespace_def)
  moreover have "trim_start_str (lit ''0o'') (lit ''0o'' @ ?s) = ?s"
    by (subst trim_start_str.simps) (simp add: stop(2) [simplified])
  ultimately have two: "parse_octal (lit ''0o'' @ ?s) = Ok (word_of_nat n)"
    using num stop(1) by (simp add: parse_octal_def del: lit_Cons)
  have "trim (replicate k 48) = replicate k 48" by (rule trim_id) (auto simp: is_whitespace_def)
  moreover have "trim_start_str (lit ''0o'') (replicate k 48) = replicate k 48"
  proof (rule trim_start_str_stop)
    have "(111 :: nat) \<notin> set (take (length (lit ''0o'')) (replicate k 48))" by (auto dest: in_set_takeD)
    moreover have "111 \<in> set (lit ''0o'')" by simp
    ultimately show "take (length (lit ''0o'')) (replicate k 48) \<noteq> lit ''0o''" by metis
  qed
  moreover have "trim_start_str (lit ''0'') (replicate k 48) = []"
    using trim_start_zeros [of k "[]"] by (simp add: trim_start_str.simps)
  ultimately have "\<not> is_Ok (parse_octal (replicate k 48))"
    by (simp add: parse_octal_def parse_uint_def del: lit_Cons)
  with one two show ?thesis by blast
qed

theorem parse_octal_roundtrip_witness:
  "parse_octal (lit ''0660'') = Ok 432"
  using parse_octal_roundtrip [of 432 1] by (simp add: show_oct.simps)

end
