(* ===== verification/Client_Handler.thy ===== *)
theory Client_Handler
  imports Client_Proxy Pair_Records Daemon_Config
begin

unbundle bit_operations_syntax

text \<open>
  The client side of the daemon, from \<open>daemon/connection.rs\<close>: the access check, the command loop
  and every command. A command sees the scanner, the device manager and the lockdown directory,
  and the outcome of everything it asks of others comes with it (\<open>client_io\<close>): whether its
  writes succeed, the answer to a connection request and what the other tasks do until it
  arrives, the rounds and events of a proxied session, the events of a subscription, the system
  calls on the directory, time and randomness.

  The theorems: a peer outside the allowlist gets nothing, every request of a session is
  answered once and in order with its own tag, the lockdown port is closed without a pair
  record, and a pair record saved by one client is what the next one reads.
\<close>

section \<open>State and environment\<close>

record client_env =
  ce_scanner :: device_scanner
  ce_manager :: device_manager
  ce_lockdown :: lockdown_dir

datatype recv_event = Change device_change | Lagged nat | ChannelClosed

record client_io =
  io_write :: "raw_packet \<Rightarrow> rstr option"
  io_iter :: usb_iter
  io_rescan :: "device_scanner \<Rightarrow> device_scanner"
  io_tasks :: "device_manager \<Rightarrow> device_manager"
  io_connect_resp :: "(rstr, u16) res option"
  io_recv_error :: rstr
  io_proxy :: proxy_io
  io_rounds :: "(devices \<Rightarrow> devices) list"
  io_proxy_events :: "proxy_event list"
  io_final :: "devices \<Rightarrow> devices"
  io_meanwhile :: "(u32 \<rightharpoonup> managed_device) \<Rightarrow> (u32 \<rightharpoonup> managed_device)"
  io_events :: "recv_event list"
  io_entries :: dir_iter
  io_mkdir :: "(io_error, unit) res"
  io_short :: "nat option"
  io_nanos :: u64
  io_random :: u64
  io_now :: nat
  io_json :: "stats_snapshot \<Rightarrow> rstr"

definition with_metrics :: "(metrics \<Rightarrow> metrics) \<Rightarrow> client_env \<Rightarrow> client_env" where
  "with_metrics f env = env\<lparr>ce_manager := (ce_manager env)\<lparr>dm_metrics := f (dm_metrics (ce_manager env))\<rparr>\<rparr>"

text \<open>What a command does with the session: the next command is read, the session ends, or the
  command is still running when its listed events are used up.\<close>

datatype action = Continue | Done "(rstr, unit) res" | Running

text \<open>What a session puts out: packets to the client, and the two directions of a proxied
  connection.\<close>

datatype client_out = Reply raw_packet | Proxied u32 u16 proxy_out

type_synonym reply = "action \<times> client_env \<times> client_out list"

text \<open>\<open>resp.write_to(stream).await.map_err(..)?\<close> and \<open>let _ = resp.write_to(stream).await\<close>\<close>

definition respond :: "client_io \<Rightarrow> client_env \<Rightarrow> raw_packet \<Rightarrow> reply" where
  "respond io env resp = (case io_write io resp of
     None \<Rightarrow> (Continue, env, [Reply resp])
   | Some e \<Rightarrow> (Done (Err (lit ''write failed: '' @ e)), env, []))"

definition respond_ignoring :: "client_io \<Rightarrow> client_env \<Rightarrow> raw_packet \<Rightarrow> reply" where
  "respond_ignoring io env resp = (Continue, env, (case io_write io resp of None \<Rightarrow> [Reply resp] | Some e \<Rightarrow> []))"

section \<open>Access control\<close>

definition peer_is_allowed :: "peer_identity \<Rightarrow> daemon_config \<Rightarrow> bool" where
  "peer_is_allowed peer config =
     (if cfg_allowed_uids config \<noteq> [] then
        (case pi_credentials peer of
           Some creds \<Rightarrow> List.member (cfg_allowed_uids config) (pc_uid creds)
         | None \<Rightarrow> False)
      else if cfg_allowed_sids config \<noteq> [] then
        (case pi_sid peer of
           Some sid \<Rightarrow> list_ex (\<lambda>s. s = sid) (cfg_allowed_sids config)
         | None \<Rightarrow> False)
      else True)"

section \<open>Commands\<close>

definition LOCKDOWN_PORT :: u16 where "LOCKDOWN_PORT = 62078"

definition MAX_PAIR_RECORD_BYTES :: usize where "MAX_PAIR_RECORD_BYTES = 4 * 1024 * 1024"

definition swap16 :: "u16 \<Rightarrow> u16" where
  "swap16 w = push_bit 8 w OR drop_bit 8 w"

text \<open>\<open>i.as_unsigned().unwrap_or(0) as u32\<close>, and the port in network byte order (the host is
  little-endian).\<close>

definition get_device_id :: "raw_packet \<Rightarrow> u32" where
  "get_device_id p = (case dict_get (rp_plist p) (lit ''DeviceID'') of
     Some (PInteger i) \<Rightarrow> if 0 \<le> i then word_of_int i else 0 | _ \<Rightarrow> 0)"

definition get_port :: "raw_packet \<Rightarrow> u16" where
  "get_port p = (case dict_get (rp_plist p) (lit ''PortNumber'') of
     Some (PInteger i) \<Rightarrow> swap16 (if 0 \<le> i then word_of_int i else 0) | _ \<Rightarrow> 0)"

definition cmd_list_devices :: "client_io \<Rightarrow> client_env \<Rightarrow> raw_packet \<Rightarrow> reply" where
  "cmd_list_devices io env p =
     (let env1 = with_metrics (\<lambda>m. m\<lparr>list_devices_total := list_devices_total m + 1\<rparr>) env;
          devices = get_devices (io_iter io) (ce_scanner env1)
      in respond io env1 (make_device_list_response (rp_tag p) devices))"

text \<open>The subscription: events until a write fails or the channel closes.\<close>

definition event_packet :: "device_change \<Rightarrow> raw_packet" where
  "event_packet c = (case c of
     Attached dev \<Rightarrow> make_attached_event 0 dev | Detached i \<Rightarrow> make_detached_event 0 i)"

fun listen_loop :: "client_io \<Rightarrow> recv_event list \<Rightarrow> bool \<times> client_out list" where
  "listen_loop io [] = (False, [])"
| "listen_loop io (Change c # evs) =
     (case io_write io (event_packet c) of
        Some e \<Rightarrow> (True, [])
      | None \<Rightarrow> (let (ended, out) = listen_loop io evs in (ended, Reply (event_packet c) # out)))"
| "listen_loop io (Lagged n # evs) = listen_loop io evs"
| "listen_loop io (ChannelClosed # evs) = (True, [])"

text \<open>The guard counts the subscription while the loop runs; the end of the listed events stands
  for a subscription that is still running.\<close>

definition cmd_listen :: "client_io \<Rightarrow> client_env \<Rightarrow> raw_packet \<Rightarrow> reply" where
  "cmd_listen io env p =
     (case respond io env (make_result_response (rp_tag p) 0) of
        (Continue, env1, out) \<Rightarrow>
          (let env2 = with_metrics listen_guard_new env1;
               (ended, evs) = listen_loop io (io_events io)
           in if ended then (Done (Ok ()), with_metrics listen_guard_drop env2, out @ evs)
              else (Running, env2, out @ evs))
      | stop \<Rightarrow> stop)"

definition cmd_proxy :: "client_io \<Rightarrow> client_env \<Rightarrow> raw_packet \<Rightarrow> u32 \<Rightarrow> u16 \<Rightarrow> reply" where
  "cmd_proxy io env p i sport =
     (case respond io env (make_result_response (rp_tag p) 0) of
        (Continue, env1, out) \<Rightarrow>
          (if dm_devices (ce_manager env1) i = None then (Done (Err (lit ''device not found for proxy'')), env1, out)
           else
             let dm1 = increment_refcount (ce_manager env1) i;
                 env2 = with_metrics (\<lambda>m. m\<lparr>proxies_started := proxies_started m + 1\<rparr>) (env1\<lparr>ce_manager := dm1\<rparr>);
                 dm2 = ce_manager env2;
                 (r, devs, m, px) = proxy_connection (io_proxy io) (io_final io) i sport (dm_conn_mgr dm2)
                                      (dm_metrics dm2) (io_rounds io) (io_proxy_events io);
                 dm3 = dm2\<lparr>dm_devices := io_meanwhile io (dm_devices dm2), dm_conn_mgr := devs, dm_metrics := m\<rparr>
             in (case r of
                   None \<Rightarrow> (Running, env2\<lparr>ce_manager := dm3\<rparr>, out @ [Proxied i sport px])
                 | Some Panic \<Rightarrow> (Done Panic, env2\<lparr>ce_manager := dm3\<rparr>, out @ [Proxied i sport px])
                 | Some _ \<Rightarrow>
                     (Done (Ok ()),
                      with_metrics (\<lambda>m. m\<lparr>proxies_ended := proxies_ended m + 1\<rparr>)
                        (env2\<lparr>ce_manager := decrement_refcount dm3 i\<rparr>),
                      out @ [Proxied i sport px])))
      | stop \<Rightarrow> stop)"

text \<open>
  The scanner is looked at twice, under a lock that is released in between: \<open>io_rescan\<close> is what the
  scan task does meanwhile. The second look is only for the pair record check, and a device that is
  gone by then is not checked.
\<close>

definition cmd_connect :: "client_io \<Rightarrow> daemon_config \<Rightarrow> client_env \<Rightarrow> raw_packet \<Rightarrow> reply" where
  "cmd_connect io config env0 p =
     (let env = with_metrics (\<lambda>m. m\<lparr>connects_total := connects_total m + 1\<rparr>) env0;
          i = get_device_id p; port = get_port p;
          env1 = env\<lparr>ce_scanner := io_rescan io (ce_scanner env)\<rparr>;
          attempt = (case dm_connect (cfg_connect_channel config) (io_tasks io) (io_recv_error io) (io_connect_resp io)
                               (ce_manager env1) i port (rp_tag p) of
             (Ok sport, dm) \<Rightarrow> cmd_proxy io (env1\<lparr>ce_manager := dm\<rparr>) p i sport
           | (Panic, dm) \<Rightarrow> (Done Panic, env1\<lparr>ce_manager := dm\<rparr>, [])
           | (Err e, dm) \<Rightarrow> respond io (with_metrics count_connect_failure (env1\<lparr>ce_manager := dm\<rparr>))
                (make_result_response (rp_tag p) CONNECTION_REFUSED)) in
      if i = 0 then respond io env (make_result_response (rp_tag p) BAD_DEVICE)
      else if port = 0 then respond io env (make_result_response (rp_tag p) BAD_COMMAND)
      else if get_device_by_id (ce_scanner env) i = None
      then respond io env (make_result_response (rp_tag p) BAD_DEVICE)
      else if port = LOCKDOWN_PORT \<and> cfg_require_pair_record config then
        (case map_option u_udid (get_device_by_id (ce_scanner env1) i) of
           Some udid \<Rightarrow>
             (case has_pair_record (io_entries io) (ce_lockdown env1) udid of
                Ok True \<Rightarrow> attempt
              | Panic \<Rightarrow> (Done Panic, env1, [])
              | _ \<Rightarrow> respond io env1 (make_result_response (rp_tag p) PAIR_RECORD_REQUIRED))
         | None \<Rightarrow> attempt)
      else attempt)"

definition cmd_read_buid :: "client_io \<Rightarrow> client_env \<Rightarrow> raw_packet \<Rightarrow> reply" where
  "cmd_read_buid io env p =
     (let (buid, ld) = get_or_create_buid (io_mkdir io) (io_short io) (io_nanos io) (io_random io) (ce_lockdown env)
      in respond io (env\<lparr>ce_lockdown := ld\<rparr>)
           (raw_packet_new (dict_insert (lit ''BUID'') (PString buid) []) XML_PLIST_VERSION PLIST_MESSAGE_TYPE (rp_tag p)))"

abbreviation bad_command :: "client_io \<Rightarrow> client_env \<Rightarrow> raw_packet \<Rightarrow> reply" where
  "bad_command io env p \<equiv> respond_ignoring io env (make_result_response (rp_tag p) BAD_COMMAND)"

definition cmd_read_pair_record :: "client_io \<Rightarrow> client_env \<Rightarrow> raw_packet \<Rightarrow> reply" where
  "cmd_read_pair_record io env p =
     (case dict_get (rp_plist p) (lit ''PairRecordID'') of
        Some (PString u) \<Rightarrow>
          if \<not> is_Ok (validate_udid u) then bad_command io env p
          else (case read_pair_record (io_entries io) (ce_lockdown env) u of
              Ok data \<Rightarrow>
                respond io (with_metrics (\<lambda>m. m\<lparr>pair_reads := pair_reads m + 1\<rparr>) env)
                  (raw_packet_new (dict_insert (lit ''PairRecordData'') (PData data) [])
                     XML_PLIST_VERSION PLIST_MESSAGE_TYPE (rp_tag p))
            | Panic \<Rightarrow> (Done Panic, env, [])
            | Err e \<Rightarrow> respond_ignoring io env (make_result_response (rp_tag p) BAD_DEVICE))
      | _ \<Rightarrow> bad_command io env p)"

definition cmd_save_pair_record :: "client_io \<Rightarrow> client_env \<Rightarrow> raw_packet \<Rightarrow> reply" where
  "cmd_save_pair_record io env p =
     (case dict_get (rp_plist p) (lit ''PairRecordID'') of
        Some (PString u) \<Rightarrow>
          (case dict_get (rp_plist p) (lit ''PairRecordData'') of
             Some (PData data) \<Rightarrow>
               if MAX_PAIR_RECORD_BYTES < length data then bad_command io env p
               else if \<not> is_Ok (validate_udid u) then bad_command io env p
               else (case save_pair_record (io_mkdir io) (io_short io) (ce_lockdown env) u data of
                   (Ok _, ld) \<Rightarrow>
                     respond io (with_metrics (\<lambda>m. m\<lparr>pair_writes := pair_writes m + 1\<rparr>) (env\<lparr>ce_lockdown := ld\<rparr>))
                       (make_result_response (rp_tag p) RESULT_OK)
                 | (Panic, ld) \<Rightarrow> (Done Panic, env\<lparr>ce_lockdown := ld\<rparr>, [])
                 | (Err e, ld) \<Rightarrow> bad_command io (env\<lparr>ce_lockdown := ld\<rparr>) p)
           | _ \<Rightarrow> bad_command io env p)
      | _ \<Rightarrow> bad_command io env p)"

definition cmd_delete_pair_record :: "client_io \<Rightarrow> client_env \<Rightarrow> raw_packet \<Rightarrow> reply" where
  "cmd_delete_pair_record io env p =
     (case dict_get (rp_plist p) (lit ''PairRecordID'') of
        Some (PString u) \<Rightarrow>
          if \<not> is_Ok (validate_udid u) then bad_command io env p
          else (case delete_pair_record (ce_lockdown env) u of
              (Ok _, ld) \<Rightarrow>
                respond io (with_metrics (\<lambda>m. m\<lparr>pair_deletes := pair_deletes m + 1\<rparr>) (env\<lparr>ce_lockdown := ld\<rparr>))
                  (make_result_response (rp_tag p) RESULT_OK)
            | (Panic, ld) \<Rightarrow> (Done Panic, env\<lparr>ce_lockdown := ld\<rparr>, [])
            | (Err e, ld) \<Rightarrow> bad_command io (env\<lparr>ce_lockdown := ld\<rparr>) p)
      | _ \<Rightarrow> bad_command io env p)"

definition cmd_stats :: "client_io \<Rightarrow> client_env \<Rightarrow> raw_packet \<Rightarrow> reply" where
  "cmd_stats io env p =
     respond io env (make_stats_response (rp_tag p) (io_json io (snapshot (dm_metrics (ce_manager env)) (io_now io))))"

definition handle_command :: "client_io \<Rightarrow> daemon_config \<Rightarrow> client_env \<Rightarrow> raw_packet \<Rightarrow> reply" where
  "handle_command io config env0 p =
     (let env = with_metrics (\<lambda>m. m\<lparr>commands_total := commands_total m + 1\<rparr>) env0 in
      case dict_get (rp_plist p) (lit ''MessageType'') of
        Some (PString t) \<Rightarrow>
          if t = lit ''ListDevices'' then cmd_list_devices io env p
          else if t = lit ''Listen'' then cmd_listen io env p
          else if t = lit ''Connect'' then cmd_connect io config env p
          else if t = lit ''ReadBUID'' then cmd_read_buid io env p
          else if t = lit ''ReadPairRecord'' then cmd_read_pair_record io env p
          else if t = lit ''SavePairRecord'' then cmd_save_pair_record io env p
          else if t = lit ''DeletePairRecord'' then cmd_delete_pair_record io env p
          else if t = lit ''MeridianStats'' then cmd_stats io env p
          else respond io env (make_result_response (rp_tag p) BAD_COMMAND)
      | _ \<Rightarrow> respond io env (make_result_response (rp_tag p) BAD_COMMAND))"

text \<open>
  The loop over the client's stream: one \<open>client_io\<close> per command, and \<open>None\<close> when the listed
  commands end before the session does. \<open>from_binary\<close> and \<open>from_xml\<close> are the property list
  readers. A proxied session takes over the stream: its reads are among its events.
\<close>

fun handle_client_inner ::
  "plist_reader \<Rightarrow> plist_reader \<Rightarrow> daemon_config \<Rightarrow> client_env \<Rightarrow> client_io list \<Rightarrow> bytes
   \<Rightarrow> (rstr, unit) res option \<times> client_env \<times> client_out list" where
  "handle_client_inner from_binary from_xml config env [] stream = (None, env, [])"
| "handle_client_inner from_binary from_xml config env (io # ios) stream =
     (case read_packet from_binary from_xml (cfg_max_packet_bytes config) stream of
        Ok (p, stream1) \<Rightarrow>
          (case handle_command io config env p of
             (Done r, env1, out) \<Rightarrow> (Some r, env1, out)
           | (Running, env1, out) \<Rightarrow> (None, env1, out)
           | (Continue, env1, out) \<Rightarrow>
               (let (r, env2, out2) = handle_client_inner from_binary from_xml config env1 ios stream1
                in (r, env2, out @ out2)))
      | Err (Io kind msg) \<Rightarrow>
          (Some (Err (if kind = UnexpectedEof then lit ''client disconnected''
                      else lit ''failed to read packet: '' @ msg)), env, [])
      | Panic \<Rightarrow> (Some Panic, env, []))"

text \<open>A panic unwinds past the decrement of \<open>clients_active\<close>.\<close>

definition handle_client ::
  "plist_reader \<Rightarrow> plist_reader \<Rightarrow> daemon_config \<Rightarrow> peer_identity \<Rightarrow> client_env \<Rightarrow> client_io list \<Rightarrow> bytes
   \<Rightarrow> client_env \<times> client_out list" where
  "handle_client from_binary from_xml config peer env ios stream =
     (let env1 = with_metrics (\<lambda>m. m\<lparr>clients_accepted := clients_accepted m + 1,
                                   clients_active := clients_active m + 1\<rparr>) env in
      if \<not> peer_is_allowed peer config then
        (with_metrics (\<lambda>m. m\<lparr>clients_rejected := clients_rejected m + 1,
                             clients_active := clients_active m - 1\<rparr>) env1, [])
      else
        let (r, env2, out) = handle_client_inner from_binary from_xml config env1 ios stream
        in (case r of
              Some (Ok _) \<Rightarrow> (with_metrics (\<lambda>m. m\<lparr>clients_active := clients_active m - 1\<rparr>) env2, out)
            | Some (Err e) \<Rightarrow> (with_metrics (\<lambda>m. m\<lparr>clients_active := clients_active m - 1\<rparr>) env2, out)
            | _ \<Rightarrow> (env2, out)))"

section \<open>Lemmas\<close>

text \<open>An environment in which the client reads everything it is sent.\<close>

definition healthy :: "client_io \<Rightarrow> bool" where
  "healthy io \<longleftrightarrow> io_write io = (\<lambda>_. None) \<and> io_mkdir io \<noteq> Panic"

abbreviation env_metrics :: "client_env \<Rightarrow> metrics" where
  "env_metrics env \<equiv> dm_metrics (ce_manager env)"

lemma with_metrics_simps [simp]:
  "ce_scanner (with_metrics f env) = ce_scanner env"
  "ce_lockdown (with_metrics f env) = ce_lockdown env"
  "dm_devices (ce_manager (with_metrics f env)) = dm_devices (ce_manager env)"
  "dm_conn_mgr (ce_manager (with_metrics f env)) = dm_conn_mgr (ce_manager env)"
  "env_metrics (with_metrics f env) = f (env_metrics env)"
  by (simp_all add: with_metrics_def)

lemma respond_healthy [simp]:
  "healthy io \<Longrightarrow> respond io env r = (Continue, env, [Reply r])"
  "healthy io \<Longrightarrow> respond_ignoring io env r = (Continue, env, [Reply r])"
  by (simp_all add: healthy_def respond_def respond_ignoring_def)

lemma response_tags [simp]:
  "rp_tag (make_result_response t n) = t" "rp_tag (make_device_list_response t ds) = t"
  "rp_tag (make_stats_response t j) = t" "rp_tag (raw_packet_new d v m t) = t"
  by (simp_all add: make_result_response_def make_device_list_response_def make_stats_response_def raw_packet_new_def)

lemma is_Ok_unit: "is_Ok (r :: ('e, unit) res) \<longleftrightarrow> r = Ok ()"
  by (cases r) auto

lemma fs_no_panic: "fs_read ld name \<noteq> Panic" "fst (fs_remove ld name) \<noteq> Panic"
  "fst (secure_write_secret short ld name data) \<noteq> Panic"
  by (auto simp: fs_read_def fs_remove_def secure_write_secret_def Let_def split: option.splits node.splits)

lemma pair_ops_no_panic:
  assumes "valid_udid u"
  shows "read_pair_record entries ld u \<noteq> Panic" and "fst (delete_pair_record ld u) \<noteq> Panic"
    and "mkdir \<noteq> Panic \<Longrightarrow> fst (save_pair_record mkdir short ld u data) \<noteq> Panic"
  using fs_no_panic
  by (auto simp: read_pair_record_def delete_pair_record_def save_pair_record_def create_dir_all_def
      dashed_valid [OF assms] Let_def split: option.splits res.splits prod.splits)

text \<open>A command that answers once and leaves the session to the next command.\<close>

definition answers :: "client_env \<Rightarrow> raw_packet \<Rightarrow> reply \<Rightarrow> bool" where
  "answers env p rep \<longleftrightarrow> (\<exists>env' r. rep = (Continue, env', [Reply r]) \<and> rp_tag r = rp_tag p
     \<and> ce_scanner env' = ce_scanner env \<and> commands_total (env_metrics env') = commands_total (env_metrics env)
     \<and> clients_active (env_metrics env') = clients_active (env_metrics env))"

lemma answersI: "rp_tag r = rp_tag p \<Longrightarrow> ce_scanner env' = ce_scanner env \<Longrightarrow>
   commands_total (env_metrics env') = commands_total (env_metrics env) \<Longrightarrow>
   clients_active (env_metrics env') = clients_active (env_metrics env) \<Longrightarrow> answers env p (Continue, env', [Reply r])"
  by (simp add: answers_def)

lemma read_answers: "healthy io \<Longrightarrow> answers env p (cmd_read_pair_record io env p)"
  using pair_ops_no_panic(1)
  by (auto simp: cmd_read_pair_record_def is_Ok_unit intro!: answersI split: option.splits plist.splits res.splits)

lemma save_answers: "healthy io \<Longrightarrow> answers env p (cmd_save_pair_record io env p)"
proof -
  assume io: "healthy io"
  have no: "save_pair_record (io_mkdir io) short ld u data \<noteq> (Panic, ld')" if "valid_udid u" for short ld u data ld'
    using pair_ops_no_panic(3) [OF that, of "io_mkdir io" short ld data] io by (auto simp: healthy_def)
  show ?thesis using io no
    by (auto simp: cmd_save_pair_record_def is_Ok_unit intro!: answersI split: option.splits plist.splits res.splits prod.splits)
qed

lemma delete_answers: "healthy io \<Longrightarrow> answers env p (cmd_delete_pair_record io env p)"
proof -
  assume io: "healthy io"
  have no: "delete_pair_record ld u \<noteq> (Panic, ld')" if "valid_udid u" for ld u ld'
    using pair_ops_no_panic(2) [OF that, of ld] by auto
  show ?thesis using io no
    by (auto simp: cmd_delete_pair_record_def is_Ok_unit intro!: answersI split: option.splits plist.splits res.splits prod.splits)
qed

lemma plain_answers:
  "healthy io \<Longrightarrow> answers env p (cmd_list_devices io env p)"
  "healthy io \<Longrightarrow> answers env p (cmd_read_buid io env p)"
  "healthy io \<Longrightarrow> answers env p (cmd_stats io env p)"
  "healthy io \<Longrightarrow> answers env p (respond io env (make_result_response (rp_tag p) n))"
  by (auto simp: cmd_list_devices_def cmd_read_buid_def cmd_stats_def Let_def intro!: answersI split: prod.splits)

lemmas command_answers = plain_answers read_answers save_answers delete_answers

definition message_type :: "raw_packet \<Rightarrow> plist option" where
  "message_type p = dict_get (rp_plist p) (lit ''MessageType'')"

text \<open>The two commands that may keep the stream.\<close>

definition takes_stream :: "raw_packet \<Rightarrow> bool" where
  "takes_stream p \<longleftrightarrow> message_type p = Some (PString (lit ''Listen'')) \<or> message_type p = Some (PString (lit ''Connect''))"

lemma handle_command_answers:
  assumes "healthy io" and "\<not> takes_stream p"
  shows "\<exists>env' r. handle_command io config env p = (Continue, env', [Reply r]) \<and> rp_tag r = rp_tag p
     \<and> ce_scanner env' = ce_scanner env
     \<and> commands_total (env_metrics env') = commands_total (env_metrics env) + 1
     \<and> clients_active (env_metrics env') = clients_active (env_metrics env)"
proof -
  let ?env = "with_metrics (\<lambda>m. m\<lparr>commands_total := commands_total m + 1\<rparr>) env"
  have "answers ?env p (handle_command io config env p)"
    using assms(2) command_answers [OF assms(1), of ?env p]
    by (simp add: handle_command_def Let_def takes_stream_def message_type_def split: option.splits plist.splits)
  then show ?thesis by (auto simp: answers_def)
qed


lemma read_empty_stream: "read_packet from_binary from_xml mx [] = Err (Io UnexpectedEof (lit ''early eof''))"
  by (simp add: read_packet_def read_exact_def)

text \<open>A packet the client writes with \<open>to_xml\<close> and the daemon can read back within its limit.\<close>

definition readable :: "plist_writer \<Rightarrow> plist_reader \<Rightarrow> usize \<Rightarrow> raw_packet \<Rightarrow> bool" where
  "readable to_xml from_xml mx p \<longleftrightarrow> (\<exists>xml. xml_roundtrip to_xml from_xml (rp_plist p) xml
     \<and> length xml + 16 < 2 ^ 32 \<and> length xml \<le> mx)"

lemma read_readable:
  assumes "readable to_xml from_xml mx p"
  shows "\<exists>size. read_packet from_binary from_xml mx (packet_bytes to_xml p @ rest) = Ok (p\<lparr>rp_size := size\<rparr>, rest)"
proof -
  obtain xml where xml: "xml_roundtrip to_xml from_xml (rp_plist p) xml" "length xml + 16 < 2 ^ 32" "length xml \<le> mx"
    using assms by (auto simp: readable_def)
  from read_write_packet [OF xml, of from_binary rest] show ?thesis by (auto simp: packet_bytes_def)
qed

lemma takes_stream_size [simp]: "takes_stream (p\<lparr>rp_size := n\<rparr>) = takes_stream p"
  by (simp add: takes_stream_def message_type_def)

lemma session_inner:
  assumes "\<forall>p \<in> set ps. readable to_xml from_xml (cfg_max_packet_bytes config) p \<and> \<not> takes_stream p"
    and "\<forall>io \<in> set ios. healthy io" and "length ios = Suc (length ps)"
  shows "\<exists>env' rs. handle_client_inner from_binary from_xml config env ios (concat (map (packet_bytes to_xml) ps))
       = (Some (Err (lit ''client disconnected'')), env', map Reply rs)
     \<and> map rp_tag rs = map rp_tag ps \<and> ce_scanner env' = ce_scanner env
     \<and> commands_total (env_metrics env') = commands_total (env_metrics env) + of_nat (length ps)
     \<and> clients_active (env_metrics env') = clients_active (env_metrics env)"
  using assms
proof (induction ps arbitrary: env ios)
  case Nil
  then show ?case by (cases ios) (auto simp: read_empty_stream intro: exI [of _ "[]"])
next
  case (Cons p ps)
  then obtain io ios' where ios: "ios = io # ios'" "healthy io" "\<forall>io \<in> set ios'. healthy io" "length ios' = Suc (length ps)"
    by (cases ios) auto
  obtain size where rd: "read_packet from_binary from_xml (cfg_max_packet_bytes config)
      (packet_bytes to_xml p @ concat (map (packet_bytes to_xml) ps))
      = Ok (p\<lparr>rp_size := size\<rparr>, concat (map (packet_bytes to_xml) ps))"
    using read_readable Cons.prems(1) by fastforce
  obtain env1 r where cmd: "handle_command io config env (p\<lparr>rp_size := size\<rparr>) = (Continue, env1, [Reply r])"
    "rp_tag r = rp_tag p" "ce_scanner env1 = ce_scanner env"
    "commands_total (env_metrics env1) = commands_total (env_metrics env) + 1"
    "clients_active (env_metrics env1) = clients_active (env_metrics env)"
    using handle_command_answers [OF ios(2), of "p\<lparr>rp_size := size\<rparr>" config env] Cons.prems(1) by auto
  obtain env' rs where rest: "handle_client_inner from_binary from_xml config env1 ios' (concat (map (packet_bytes to_xml) ps))
       = (Some (Err (lit ''client disconnected'')), env', map Reply rs)" "map rp_tag rs = map rp_tag ps"
     "ce_scanner env' = ce_scanner env1"
     "commands_total (env_metrics env') = commands_total (env_metrics env1) + of_nat (length ps)"
     "clients_active (env_metrics env') = clients_active (env_metrics env1)"
    using Cons.IH [of ios' env1] Cons.prems(1) ios(3,4) by auto
  show ?case
    by (intro exI [of _ env'] exI [of _ "r # rs"]) (simp add: ios(1) rd cmd rest)
qed

lemma respond_env: "respond io env r = (act, env', out) \<Longrightarrow> env' = env"
  "respond_ignoring io env r = (act, env', out) \<Longrightarrow> env' = env"
  by (auto simp: respond_def respond_ignoring_def split: option.splits)

lemma respond_out: "respond io env r = (act, env', out) \<Longrightarrow> set out \<subseteq> {Reply r}"
  by (auto simp: respond_def split: option.splits)

text \<open>Connection requests and subscriptions leave the lockdown directory alone.\<close>

lemma listen_lockdown: "cmd_listen io env p = (act, env', out) \<Longrightarrow> ce_lockdown env' = ce_lockdown env"
  by (auto simp: cmd_listen_def Let_def dest: respond_env split: prod.splits action.splits if_splits)

lemma proxy_lockdown: "cmd_proxy io env p i sport = (act, env', out) \<Longrightarrow> ce_lockdown env' = ce_lockdown env"
  by (auto simp: cmd_proxy_def Let_def dest!: respond_env
      split: prod.splits action.splits if_splits option.splits res.splits)

lemma connect_lockdown: "cmd_connect io config env p = (act, env', out) \<Longrightarrow> ce_lockdown env' = ce_lockdown env"
  by (auto simp: cmd_connect_def Let_def dest!: respond_env proxy_lockdown
      split: prod.splits if_splits option.splits res.splits bool.splits)

text \<open>Only a save or delete under one of its names changes a stored record.\<close>

definition touches :: "rstr \<Rightarrow> raw_packet \<Rightarrow> bool" where
  "touches u p \<longleftrightarrow>
     (message_type p = Some (PString (lit ''SavePairRecord'')) \<or> message_type p = Some (PString (lit ''DeletePairRecord'')))
     \<and> (\<exists>v. dict_get (rp_plist p) (lit ''PairRecordID'') = Some (PString v) \<and> raw_udid u \<in> udid_aliases v)"

lemma buid_keeps_stored:
  assumes "stored ld u d"
  shows "stored (snd (get_or_create_buid mkdir short nanos rnd ld)) u d"
proof -
  have "stored (snd (secure_write_secret short ld (lit ''buid'') b)) u d" for b
    using secure_write_cases [of short ld "lit ''buid''" b] assms
    by (cases "secure_write_secret short ld (lit ''buid'') b") (auto simp: stored_def plist_name_def)
  then show ?thesis using assms
    by (auto simp: get_or_create_buid_def Let_def stored_def split: res.splits option.splits)
qed

lemma save_keeps_stored:
  assumes "stored (ce_lockdown env) u d" and "valid_udid u"
    and "\<forall>v. dict_get (rp_plist p) (lit ''PairRecordID'') = Some (PString v) \<longrightarrow> raw_udid u \<notin> udid_aliases v"
    and "cmd_save_pair_record io env p = (act, env', out)"
  shows "stored (ce_lockdown env') u d"
proof -
  have keep: "stored ld' u d" if "valid_udid v" "raw_udid u \<notin> udid_aliases v"
      "save_pair_record mkdir short (ce_lockdown env) v b = (r, ld')" for v mkdir short b r ld'
    using records.save_other [OF that(1) assms(2) that(2) assms(1), of "(mkdir, short)" b] that(3)
    by (simp add: save_with_def)
  show ?thesis using assms
    by (auto simp: cmd_save_pair_record_def is_Ok_unit dest!: respond_env dest: keep
        split: option.splits plist.splits if_splits prod.splits res.splits)
qed

lemma delete_keeps_stored:
  assumes "stored (ce_lockdown env) u d" and "valid_udid u"
    and "\<forall>v. dict_get (rp_plist p) (lit ''PairRecordID'') = Some (PString v) \<longrightarrow> raw_udid u \<notin> udid_aliases v"
    and "cmd_delete_pair_record io env p = (act, env', out)"
  shows "stored (ce_lockdown env') u d"
proof -
  have keep: "stored ld' u d" if "valid_udid v" "raw_udid u \<notin> udid_aliases v"
      "delete_pair_record (ce_lockdown env) v = (r, ld')" for v r ld'
    using records.delete_other [OF that(1) assms(2) that(2) assms(1)] that(3) by simp
  show ?thesis using assms
    by (auto simp: cmd_delete_pair_record_def is_Ok_unit dest!: respond_env dest: keep
        split: option.splits plist.splits if_splits prod.splits res.splits)
qed

lemma plain_keeps_lockdown:
  "cmd_list_devices io env p = (act, env', out) \<Longrightarrow> ce_lockdown env' = ce_lockdown env"
  "cmd_stats io env p = (act, env', out) \<Longrightarrow> ce_lockdown env' = ce_lockdown env"
  "cmd_read_pair_record io env p = (act, env', out) \<Longrightarrow> ce_lockdown env' = ce_lockdown env"
  by (auto simp: cmd_list_devices_def cmd_stats_def cmd_read_pair_record_def Let_def dest!: respond_env
      split: option.splits plist.splits if_splits res.splits)

lemma read_buid_keeps_stored:
  "cmd_read_buid io env p = (act, env', out) \<Longrightarrow> stored (ce_lockdown env) u d \<Longrightarrow> stored (ce_lockdown env') u d"
  using buid_keeps_stored [of "ce_lockdown env" u d "io_mkdir io" "io_short io" "io_nanos io" "io_random io"]
  by (auto simp: cmd_read_buid_def dest!: respond_env split: prod.splits)

lemma command_keeps_stored:
  assumes "stored (ce_lockdown env) u d" and "valid_udid u" and "\<not> touches u p"
    and "handle_command io config env p = (act, env', out)"
  shows "stored (ce_lockdown env') u d"
proof -
  let ?env = "with_metrics (\<lambda>m. m\<lparr>commands_total := commands_total m + 1\<rparr>) env"
  have st: "stored (ce_lockdown ?env) u d" using assms(1) by simp
  note cmds = plain_keeps_lockdown listen_lockdown connect_lockdown respond_env
  consider (save) "message_type p = Some (PString (lit ''SavePairRecord''))"
    | (delete) "message_type p = Some (PString (lit ''DeletePairRecord''))"
    | (other) "message_type p \<noteq> Some (PString (lit ''SavePairRecord''))"
        "message_type p \<noteq> Some (PString (lit ''DeletePairRecord''))" by blast
  then show ?thesis
  proof cases
    case save
    then have "cmd_save_pair_record io ?env p = (act, env', out)"
      using assms(4) by (simp add: handle_command_def message_type_def)
    then show ?thesis using save_keeps_stored [OF st assms(2)] save assms(3) by (auto simp: touches_def)
  next
    case delete
    then have "cmd_delete_pair_record io ?env p = (act, env', out)"
      using assms(4) by (simp add: handle_command_def message_type_def)
    then show ?thesis using delete_keeps_stored [OF st assms(2)] delete assms(3) by (auto simp: touches_def)
  next
    case other
    then show ?thesis
      using assms(4) st
      by (auto simp: handle_command_def message_type_def Let_def dest: cmds read_buid_keeps_stored
          split: option.splits plist.splits if_splits)
  qed
qed

text \<open>Commands of any clients, one after the other.\<close>

fun run_commands :: "daemon_config \<Rightarrow> client_env \<Rightarrow> (client_io \<times> raw_packet) list \<Rightarrow> client_env" where
  "run_commands config env [] = env"
| "run_commands config env ((io, p) # cs) = run_commands config (fst (snd (handle_command io config env p))) cs"

lemma run_keeps_stored:
  "stored (ce_lockdown env) u d \<Longrightarrow> valid_udid u \<Longrightarrow> \<forall>(io, p) \<in> set cs. \<not> touches u p \<Longrightarrow>
   stored (ce_lockdown (run_commands config env cs)) u d"
proof (induction cs arbitrary: env)
  case (Cons c cs)
  obtain io p where c: "c = (io, p)" by fastforce
  obtain act env' out where h: "handle_command io config env p = (act, env', out)" by (metis prod_cases3)
  with command_keeps_stored [OF Cons.prems(1,2) _ h] Cons c show ?case by auto
qed simp

lemma result_inject [simp]: "make_result_response t a = make_result_response t b \<longleftrightarrow> a = b"
  by (simp add: make_result_response_def raw_packet_new_def word_uint_eq_iff)

text \<open>The reply to a read of a pair record.\<close>

definition record_reply :: "u32 \<Rightarrow> bytes \<Rightarrow> raw_packet" where
  "record_reply tag data = raw_packet_new (dict_insert (lit ''PairRecordData'') (PData data) [])
     XML_PLIST_VERSION PLIST_MESSAGE_TYPE tag"

lemma save_ok_stores:
  assumes "message_type p = Some (PString (lit ''SavePairRecord''))"
    and "dict_get (rp_plist p) (lit ''PairRecordID'') = Some (PString u)"
    and "dict_get (rp_plist p) (lit ''PairRecordData'') = Some (PData data)"
    and "handle_command io config env p = (Continue, env1, [Reply (make_result_response (rp_tag p) RESULT_OK)])"
  shows "valid_udid u \<and> stored (ce_lockdown env1) u data \<and> length data \<le> MAX_PAIR_RECORD_BYTES"
proof -
  let ?env = "with_metrics (\<lambda>m. m\<lparr>commands_total := commands_total m + 1\<rparr>) env"
  have run: "cmd_save_pair_record io ?env p = (Continue, env1, [Reply (make_result_response (rp_tag p) RESULT_OK)])"
    using assms(1,4) by (simp add: handle_command_def message_type_def)
  have bad: "bad_command io e p \<noteq> (Continue, e', [Reply (make_result_response (rp_tag p) RESULT_OK)])" for e e'
    by (simp add: respond_ignoring_def result_defs split: option.splits)
  have len: "length data \<le> MAX_PAIR_RECORD_BYTES" and valid: "valid_udid u"
    using run bad assms(2,3) by (auto simp: cmd_save_pair_record_def is_Ok_unit split: if_splits)
  obtain r ld where sv: "save_pair_record (io_mkdir io) (io_short io) (ce_lockdown env) u data = (r, ld)" by fastforce
  with run bad assms(2,3) len valid have "r = Ok ()" "ce_lockdown env1 = ld"
    by (auto simp: cmd_save_pair_record_def dest!: respond_env split: res.splits)
  moreover from this sv have "save_with (io_mkdir io, io_short io) (ce_lockdown env) u data = (Ok (), ld)"
    by (simp add: save_with_def)
  then have "stored ld u data" by (rule records.save_holds [OF valid])
  ultimately show ?thesis using len valid by simp
qed

section \<open>Properties\<close>

text \<open>C9: Every request of a session is answered exactly once, in order and with its own tag. When
  an admitted client sends any sequence of requests that leave the stream to the daemon (all but
  Listen and Connect; commands that are unknown or lack a key or have a value of the wrong type
  included) and then closes, the daemon's output is
  one packet per request with the tags of the requests; it counts the commands and the client
  no longer counts as active.\<close>

theorem requests_answered_in_order:
  assumes "peer_is_allowed peer config"
    and "\<forall>p \<in> set ps. readable to_xml from_xml (cfg_max_packet_bytes config) p \<and> \<not> takes_stream p"
    and "\<forall>io \<in> set ios. healthy io" and "length ios = Suc (length ps)"
  shows "\<exists>env' rs. handle_client from_binary from_xml config peer env ios (concat (map (packet_bytes to_xml) ps))
       = (env', map Reply rs)
     \<and> map rp_tag rs = map rp_tag ps \<and> ce_scanner env' = ce_scanner env
     \<and> commands_total (env_metrics env') = commands_total (env_metrics env) + of_nat (length ps)
     \<and> clients_active (env_metrics env') = clients_active (env_metrics env)"
proof -
  let ?env = "with_metrics (\<lambda>m. m\<lparr>clients_accepted := clients_accepted m + 1, clients_active := clients_active m + 1\<rparr>) env"
  obtain env' rs where inner: "handle_client_inner from_binary from_xml config ?env ios (concat (map (packet_bytes to_xml) ps))
       = (Some (Err (lit ''client disconnected'')), env', map Reply rs)" "map rp_tag rs = map rp_tag ps"
     "ce_scanner env' = ce_scanner env"
     "commands_total (env_metrics env') = commands_total (env_metrics env) + of_nat (length ps)"
     "clients_active (env_metrics env') = clients_active (env_metrics env) + 1"
    using session_inner [OF assms(2-4), of from_binary ?env] by auto
  then show ?thesis
    using assms(1)
    by (intro exI [of _ "with_metrics (\<lambda>m. m\<lparr>clients_active := clients_active m - 1\<rparr>) env'"] exI [of _ rs])
       (simp add: handle_client_def)
qed

text \<open>A daemon with no devices, an empty lockdown directory and default settings, for examples.\<close>

definition example_env :: client_env where
  "example_env = \<lparr>ce_scanner = scanner_new, ce_manager = dm_new (metrics_new 0),
     ce_lockdown = \<lparr>ld_exists = False, ld_files = Map.empty\<rparr>\<rparr>"

definition example_io :: client_io where
  "example_io = \<lparr>io_write = (\<lambda>_. None), io_iter = (\<lambda>m. sorted_list_of_set (dom m)), io_rescan = id, io_tasks = id,
     io_connect_resp = None, io_recv_error = [], io_proxy = \<lparr>px_channel_open = \<lambda>_. None, px_write = \<lambda>_. None\<rparr>,
     io_rounds = [], io_proxy_events = [], io_final = id, io_meanwhile = id, io_events = [],
     io_entries = (\<lambda>_. []), io_mkdir = Ok (), io_short = None, io_nanos = 1, io_random = 2, io_now = 0,
     io_json = (\<lambda>_. [])\<rparr>"

lemma healthy_example: "healthy example_io"
  by (simp add: healthy_def example_io_def)

lemma anonymous_allowed: "peer_is_allowed anonymous config_default"
  by (simp add: peer_is_allowed_def config_default_def)

theorem requests_answered_in_order_witness:
  "\<exists>env' rs. handle_client (\<lambda>_. Panic) (\<lambda>_. Ok (rp_plist (make_stats_command 0))) config_default anonymous example_env
       [example_io, example_io, example_io]
       (concat (map (packet_bytes (\<lambda>_. Ok [60])) [make_stats_command 4, make_stats_command 9])) = (env', map Reply rs)
     \<and> map rp_tag rs = [4, 9]"
proof -
  have "\<forall>p \<in> set [make_stats_command 4, make_stats_command 9].
      readable (\<lambda>_. Ok [60]) (\<lambda>_. Ok (rp_plist (make_stats_command 0))) (cfg_max_packet_bytes config_default) p
      \<and> \<not> takes_stream p"
    by (simp add: readable_def xml_roundtrip_def takes_stream_def message_type_def make_stats_command_def
        raw_packet_new_def config_default_def)
  moreover have "\<forall>io \<in> set [example_io, example_io, example_io]. healthy io" by (simp add: healthy_example)
  ultimately obtain env' rs where "handle_client (\<lambda>_. Panic) (\<lambda>_. Ok (rp_plist (make_stats_command 0))) config_default
      anonymous example_env [example_io, example_io, example_io]
      (concat (map (packet_bytes (\<lambda>_. Ok [60])) [make_stats_command 4, make_stats_command 9])) = (env', map Reply rs)"
    "map rp_tag rs = map rp_tag [make_stats_command 4, make_stats_command 9]"
    using requests_answered_in_order [OF anonymous_allowed, of "[make_stats_command 4, make_stats_command 9]"
        "\<lambda>_. Ok [60]" "\<lambda>_. Ok (rp_plist (make_stats_command 0))" "[example_io, example_io, example_io]"
        "\<lambda>_. Panic" example_env]
    by fastforce
  moreover have "rp_tag (make_stats_command t) = t" for t by (simp add: make_stats_command_def)
  ultimately show ?thesis by (intro exI conjI) (assumption, simp)
qed

text \<open>C11: Access control fails closed. When a list of allowed users is configured and the peer is
  not on it or has no identity, or there is only a list of allowed security identifiers and the
  peer's is missing or not on it, the daemon reads nothing of what the client sends: no output,
  no change to devices, connections or the lockdown directory, and of the counters only the
  accepted and the rejected clients move.\<close>

theorem access_control_fails_closed:
  assumes "cfg_allowed_uids config \<noteq> [] \<and> (\<forall>c. pi_credentials peer = Some c \<longrightarrow> pc_uid c \<notin> set (cfg_allowed_uids config))
     \<or> cfg_allowed_uids config = [] \<and> cfg_allowed_sids config \<noteq> []
       \<and> (\<forall>s. pi_sid peer = Some s \<longrightarrow> s \<notin> set (cfg_allowed_sids config))"
  shows "handle_client from_binary from_xml config peer env ios stream =
     (with_metrics (\<lambda>m. m\<lparr>clients_accepted := clients_accepted m + 1, clients_rejected := clients_rejected m + 1\<rparr>) env, [])"
proof -
  have "\<not> peer_is_allowed peer config"
    using assms by (auto simp: peer_is_allowed_def list_ex_iff split: option.splits)
  then show ?thesis by (simp add: handle_client_def with_metrics_def)
qed

theorem access_control_fails_closed_witness:
  "handle_client (\<lambda>_. Panic) (\<lambda>_. Panic) (config_default\<lparr>cfg_allowed_uids := [501]\<rparr>) anonymous example_env [example_io] [1, 2, 3] =
     (with_metrics (\<lambda>m. m\<lparr>clients_accepted := clients_accepted m + 1, clients_rejected := clients_rejected m + 1\<rparr>) example_env, [])"
  by (rule access_control_fails_closed) (simp add: anonymous_def)

text \<open>C10: A pair record accepted from one client is what every later client reads: once SavePairRecord
  was answered with success, then whatever commands clients issue meanwhile, saves and deletes
  of other devices and the creation of the host identifier included, ReadPairRecord for that
  identifier is answered with exactly the bytes saved.\<close>

theorem accepted_record_is_served:
  assumes "message_type p = Some (PString (lit ''SavePairRecord''))"
    and "dict_get (rp_plist p) (lit ''PairRecordID'') = Some (PString u)"
    and "dict_get (rp_plist p) (lit ''PairRecordData'') = Some (PData data)"
    and "handle_command io config env p = (Continue, env1, [Reply (make_result_response (rp_tag p) RESULT_OK)])"
    and "\<forall>(io, c) \<in> set cs. \<not> touches u c"
    and "message_type q = Some (PString (lit ''ReadPairRecord''))"
    and "dict_get (rp_plist q) (lit ''PairRecordID'') = Some (PString u)"
    and "healthy io'"
  shows "\<exists>env2. handle_command io' config (run_commands config env1 cs) q
     = (Continue, env2, [Reply (record_reply (rp_tag q) data)])"
proof -
  have valid: "valid_udid u" and "stored (ce_lockdown env1) u data"
    using save_ok_stores [OF assms(1-4)] by auto
  then have "stored (ce_lockdown (run_commands config env1 cs)) u data"
    using run_keeps_stored assms(5) by blast
  from read_stored(1) [OF valid this]
  show ?thesis using assms(6-8) valid
    by (simp add: handle_command_def message_type_def cmd_read_pair_record_def record_reply_def is_Ok_unit)
qed

definition pair_packet :: "rstr \<Rightarrow> bytes \<Rightarrow> raw_packet" where
  "pair_packet type data = raw_packet_new [(lit ''MessageType'', PString type), (lit ''PairRecordID'', PString (lit ''AB'')),
     (lit ''PairRecordData'', PData data)] XML_PLIST_VERSION PLIST_MESSAGE_TYPE 5"

theorem accepted_record_is_served_witness:
  "\<exists>env1 env2. handle_command example_io config_default example_env (pair_packet (lit ''SavePairRecord'') [1, 2])
       = (Continue, env1, [Reply (make_result_response 5 RESULT_OK)])
     \<and> handle_command example_io config_default
         (run_commands config_default env1 [(example_io, make_stats_command 3)]) (pair_packet (lit ''ReadPairRecord'') [])
       = (Continue, env2, [Reply (record_reply 5 [1, 2])])"
proof -
  let ?p = "pair_packet (lit ''SavePairRecord'') [1, 2]"
  have "valid_udid (lit ''AB'')"
    by (simp add: validate_udid_iff udid_char_def trim_def trim_end_nul_def trim_end_while_def is_whitespace_def Let_def)
  moreover have "raw_udid (lit ''AB'') = lit ''AB''"
    by (simp add: raw_udid_def trim_def trim_end_nul_def trim_end_while_def is_whitespace_def)
  ultimately obtain env1 where "handle_command example_io config_default example_env ?p
       = (Continue, env1, [Reply (make_result_response (rp_tag ?p) RESULT_OK)])"
    using sanitize_valid [of "lit ''AB''"] respond_healthy [OF healthy_example]
    by (auto simp: handle_command_def pair_packet_def raw_packet_new_def cmd_save_pair_record_def is_Ok_unit
        MAX_PAIR_RECORD_BYTES_def save_pair_record_def example_io_def example_env_def create_dir_all_def
        secure_write_secret_def plist_name_def with_metrics_def)
  moreover have "rp_tag ?p = 5" by (simp add: pair_packet_def)
  ultimately show ?thesis
    using accepted_record_is_served [of ?p "lit ''AB''" "[1, 2]" example_io config_default example_env env1
        "[(example_io, make_stats_command 3)]" "pair_packet (lit ''ReadPairRecord'') []" example_io] healthy_example
    by (auto simp: message_type_def touches_def pair_packet_def make_stats_command_def raw_packet_new_def)
qed

text \<open>C12: Without a pair record the lockdown port stays closed to a client whose device is there. When
  records are required and the device is unknown at the first look, or known at the look that
  precedes the check and without a record, a Connect to port 62078 changes no managed device, no
  connection and no file, whatever the device manager would answer, and the only packet the client
  can get is an error result with its tag.\<close>

theorem lockdown_port_gated:
  assumes "message_type p = Some (PString (lit ''Connect''))" and "get_port p = LOCKDOWN_PORT"
    and "cfg_require_pair_record config"
    and "get_device_by_id (ce_scanner env) (get_device_id p) = None
       \<or> (\<exists>dev. get_device_by_id (io_rescan io (ce_scanner env)) (get_device_id p) = Some dev
            \<and> has_pair_record (io_entries io) (ce_lockdown env) (u_udid dev) \<noteq> Ok True)"
    and "handle_command io config env p = (act, env', out)"
  shows "dm_devices (ce_manager env') = dm_devices (ce_manager env)
    \<and> dm_conn_mgr (ce_manager env') = dm_conn_mgr (ce_manager env) \<and> ce_lockdown env' = ce_lockdown env
    \<and> set out \<subseteq> Reply ` make_result_response (rp_tag p) ` {BAD_DEVICE, PAIR_RECORD_REQUIRED}"
proof -
  let ?env = "with_metrics (\<lambda>m. m\<lparr>connects_total := connects_total m + 1\<rparr>)
     (with_metrics (\<lambda>m. m\<lparr>commands_total := commands_total m + 1\<rparr>) env)"
  let ?envs = "{?env, ?env\<lparr>ce_scanner := io_rescan io (ce_scanner env)\<rparr>}"
  have "cmd_connect io config (with_metrics (\<lambda>m. m\<lparr>commands_total := commands_total m + 1\<rparr>) env) p = (act, env', out)"
    using assms(1,5) by (simp add: handle_command_def message_type_def)
  then have "(\<exists>e \<in> ?envs. \<exists>n \<in> {BAD_DEVICE, PAIR_RECORD_REQUIRED}.
        respond io e (make_result_response (rp_tag p) n) = (act, env', out)) \<or> (env' \<in> ?envs \<and> out = [])"
    using assms(2-4) by (auto simp: cmd_connect_def LOCKDOWN_PORT_def Let_def split: if_splits option.splits res.splits bool.splits)
  then show ?thesis
  proof
    assume "\<exists>e \<in> ?envs. \<exists>n \<in> {BAD_DEVICE, PAIR_RECORD_REQUIRED}. respond io e (make_result_response (rp_tag p) n) = (act, env', out)"
    then obtain e n where "e \<in> ?envs" and "n \<in> {BAD_DEVICE, PAIR_RECORD_REQUIRED}"
      and "respond io e (make_result_response (rp_tag p) n) = (act, env', out)" by blast
    then show ?thesis using respond_env(1) respond_out by fastforce
  qed auto
qed

text \<open>A device the scanner knows and for which the lockdown directory holds no record, for the witness.\<close>

definition connect_packet :: raw_packet where
  "connect_packet = raw_packet_new [(lit ''MessageType'', PString (lit ''Connect'')), (lit ''DeviceID'', PInteger 1),
     (lit ''PortNumber'', PInteger 32498)] 1 8 7"

definition attached_env :: client_env where
  "attached_env = example_env\<lparr>ce_scanner := example_scanner\<rparr>"

lemma connect_packet_simps:
  "message_type connect_packet = Some (PString (lit ''Connect''))" "get_port connect_packet = LOCKDOWN_PORT"
  "get_device_id connect_packet = 1" "rp_tag connect_packet = 7"
  by (simp_all add: connect_packet_def message_type_def get_port_def get_device_id_def raw_packet_new_def swap16_def LOCKDOWN_PORT_def)

lemma attached_device: "get_device_by_id (ce_scanner attached_env) 1 = Some example_usb"
  by (simp add: attached_env_def get_device_by_id_def example_scanner_def)

theorem lockdown_port_gated_witness:
  "get_device_by_id (ce_scanner attached_env) (get_device_id connect_packet) = Some example_usb
   \<and> get_port connect_packet = LOCKDOWN_PORT
   \<and> (\<exists>act env' out. handle_command example_io (config_default\<lparr>cfg_require_pair_record := True\<rparr>) attached_env connect_packet
        = (act, env', out)
      \<and> dm_conn_mgr (ce_manager env') = dm_conn_mgr (ce_manager attached_env)
      \<and> set out \<subseteq> Reply ` make_result_response 7 ` {BAD_DEVICE, PAIR_RECORD_REQUIRED})"
proof -
  let ?cfg = "config_default\<lparr>cfg_require_pair_record := True\<rparr>"
  obtain act env' out where run: "handle_command example_io ?cfg attached_env connect_packet = (act, env', out)" by (metis prod_cases3)
  have "has_pair_record (io_entries example_io) (ce_lockdown attached_env) (u_udid example_usb) \<noteq> Ok True"
    by (simp add: has_pair_record_def attached_env_def example_env_def example_io_def example_usb_def)
  then have "\<exists>dev. get_device_by_id (io_rescan example_io (ce_scanner attached_env)) (get_device_id connect_packet) = Some dev
       \<and> has_pair_record (io_entries example_io) (ce_lockdown attached_env) (u_udid dev) \<noteq> Ok True"
    using attached_device by (simp add: connect_packet_simps example_io_def)
  with lockdown_port_gated [OF connect_packet_simps(1,2) _ _ run] run attached_device show ?thesis
    by (simp add: connect_packet_simps)
qed

text \<open>
  The check is skipped for a device that vanishes between the two looks: the connection is attempted
  as if no record were required.
\<close>

lemma vanished_device_skips_gate:
  assumes "message_type p = Some (PString (lit ''Connect''))"
    and "get_device_by_id (io_rescan io (ce_scanner env)) (get_device_id p) = None"
  shows "handle_command io config env p = handle_command io (config\<lparr>cfg_require_pair_record := False\<rparr>) env p"
  using assms by (simp add: handle_command_def message_type_def cmd_connect_def Let_def)

end
