(* ===== verification/Device_Client.thy ===== *)
theory Device_Client
  imports Client_Handler
begin

text \<open>
  The client commands that talk to a running daemon: the device list (\<open>device/detect.rs\<close>), the
  event watcher with its reconnection loop (\<open>device/monitor.rs\<close>) and the device type of
  \<open>device/mod.rs\<close>. A connection to a daemon is a function from the bytes the client writes to
  the stream it can then read; connecting to an endpoint is an argument. The environment
  variable \<open>USBMUXD_SOCKET_ADDRESS\<close> is an argument as well.

  The theorems compose the client with the daemon's handler: the list command shows the
  scanner's devices, and the watcher prints the changes the daemon broadcasts, in order; the
  watcher never ends by itself and waits with the documented back-off.
\<close>

section \<open>Devices\<close>

datatype connection_type = ConnUsb | ConnNetwork

fun connection_type_display :: "connection_type \<Rightarrow> rstr" where
  "connection_type_display ConnUsb = lit ''USB''"
| "connection_type_display ConnNetwork = lit ''Network''"

record device =
  dv_udid :: rstr
  dv_device_id :: u32
  dv_name :: "rstr option"
  dv_model :: "rstr option"
  dv_ios_version :: "rstr option"
  dv_build_version :: "rstr option"
  dv_connection_type :: connection_type

definition format_device_udid :: "rstr \<Rightarrow> ('e, rstr) res" where
  "format_device_udid raw = dashed_udid (raw_udid raw)"

definition from_usb_device :: "usb_device \<Rightarrow> ('e, device) res" where
  "from_usb_device dev = res_bind (format_device_udid (u_udid dev)) (\<lambda>udid.
     Ok \<lparr>dv_udid = udid, dv_device_id = u_device_id dev, dv_name = None, dv_model = None,
         dv_ios_version = None, dv_build_version = None, dv_connection_type = ConnUsb\<rparr>)"

datatype device_event = DevConnected device | DevDisconnected rstr u32

definition or_str :: "string \<Rightarrow> rstr option \<Rightarrow> rstr" where
  "or_str d s = (case s of Some x \<Rightarrow> x | None \<Rightarrow> lit d)"

fun device_event_display :: "device_event \<Rightarrow> rstr" where
  "device_event_display (DevConnected dev) =
     lit ''+ CONNECTED  '' @ or_str ''Unknown'' (dv_name dev) @ lit '' ('' @ dv_udid dev @ lit '') [''
     @ or_str ''?'' (dv_model dev) @ lit ''] iOS '' @ or_str ''?'' (dv_ios_version dev)"
| "device_event_display (DevDisconnected udid device_id) = lit ''- DISCONNECTED  '' @ udid"

section \<open>Reading property lists\<close>

fun as_string :: "plist \<Rightarrow> rstr option" where
  "as_string (PString s) = Some s" | "as_string _ = None"

fun as_unsigned_integer :: "plist \<Rightarrow> nat option" where
  "as_unsigned_integer (PInteger i) = (if 0 \<le> i then Some (nat i) else None)" | "as_unsigned_integer _ = None"

fun as_array :: "plist \<Rightarrow> plist list option" where
  "as_array (PArray xs) = Some xs" | "as_array _ = None"

fun as_dictionary :: "plist \<Rightarrow> dictionary option" where
  "as_dictionary (PDictionary d) = Some d" | "as_dictionary _ = None"

definition get_string :: "dictionary \<Rightarrow> string \<Rightarrow> rstr option" where
  "get_string d k = Option.bind (dict_get d (lit k)) as_string"

definition get_unsigned :: "dictionary \<Rightarrow> string \<Rightarrow> nat option" where
  "get_unsigned d k = Option.bind (dict_get d (lit k)) as_unsigned_integer"

text \<open>\<open>unwrap_or(0) as u32\<close>\<close>

definition get_u32 :: "dictionary \<Rightarrow> string \<Rightarrow> u32" where
  "get_u32 d k = (case get_unsigned d k of Some n \<Rightarrow> word_of_nat n | None \<Rightarrow> 0)"

section \<open>A request to the daemon\<close>

type_synonym peer = "bytes \<Rightarrow> (io_error, bytes) res"
type_synonym connector = "endpoint \<Rightarrow> (io_error, peer) res"

definition simple_request :: "string \<Rightarrow> raw_packet" where
  "simple_request message =
     raw_packet_new
       (dict_insert (lit ''kLibUSBMuxVersion'') (PInteger 0)
         (dict_insert (lit ''ProgName'') (PString (lit ''meridian-relay''))
           (dict_insert (lit ''MessageType'') (PString (lit message))
             (dict_insert (lit ''ClientVersion'') (PInteger 1) []))))
       XML_PLIST_VERSION PLIST_MESSAGE_TYPE 1"

definition socket_address :: "rstr option \<Rightarrow> rstr \<Rightarrow> rstr" where
  "socket_address env_var endpoint_str = (case env_var of Some s \<Rightarrow> s | None \<Rightarrow> endpoint_str)"

text \<open>Parsing the endpoint, connecting and writing the request; the result is the reply stream.\<close>

definition open_request ::
  "plist_writer \<Rightarrow> connector \<Rightarrow> rstr \<Rightarrow> raw_packet \<Rightarrow> (rstr, bytes) res" where
  "open_request to_xml connect endpoint_str request =
     res_bind (parse_endpoint endpoint_str) (\<lambda>ep.
     res_bind (map_err err_text (connect ep)) (\<lambda>peer.
     res_bind (map_err err_text (write_to to_xml request)) (\<lambda>bs.
     map_err err_text (peer bs))))"

text \<open>The status check of both commands.\<close>

definition bad_status :: "dictionary \<Rightarrow> nat option" where
  "bad_status d = (case get_unsigned d ''Result'' of Some n \<Rightarrow> if n \<noteq> 0 then Some n else None | None \<Rightarrow> None)"

section \<open>The device list\<close>

definition MAX_RESPONSE_BYTES :: usize where "MAX_RESPONSE_BYTES = 16 * 1024 * 1024"

definition device_of_props :: "dictionary \<Rightarrow> device" where
  "device_of_props props =
     \<lparr>dv_udid = (case get_string props ''SerialNumber'' of Some s \<Rightarrow> s | None \<Rightarrow> []),
      dv_device_id = get_u32 props ''DeviceID'', dv_name = None, dv_model = get_string props ''ProductType'',
      dv_ios_version = None, dv_build_version = None,
      dv_connection_type = (if get_string props ''ConnectionType'' = Some (lit ''USB'') then ConnUsb else ConnNetwork)\<rparr>"

fun parse_device_entries :: "plist list \<Rightarrow> device list" where
  "parse_device_entries [] = []"
| "parse_device_entries (entry # entries) =
     (case as_dictionary entry of
        None \<Rightarrow> parse_device_entries entries
      | Some d \<Rightarrow>
          (case dict_get d (lit ''Properties'') of
             Some (PDictionary props) \<Rightarrow> device_of_props props # parse_device_entries entries
           | _ \<Rightarrow> parse_device_entries entries))"

definition parse_device_list :: "dictionary \<Rightarrow> (rstr, device list) res" where
  "parse_device_list d =
     (case bad_status d of
        Some status \<Rightarrow> Err (lit ''list devices failed with status '' @ show_nat status)
      | None \<Rightarrow>
          (case Option.bind (dict_get d (lit ''DeviceList'')) as_array of
             None \<Rightarrow> Err (lit ''DeviceList missing or not an array'')
           | Some entries \<Rightarrow> Ok (parse_device_entries entries)))"

definition list_devices_from ::
  "plist_writer \<Rightarrow> plist_reader \<Rightarrow> plist_reader \<Rightarrow> connector \<Rightarrow> rstr option \<Rightarrow> rstr
   \<Rightarrow> (rstr, device list) res" where
  "list_devices_from to_xml from_binary from_xml connect env_var endpoint_str =
     res_bind (open_request to_xml connect (socket_address env_var endpoint_str) (simple_request ''ListDevices''))
       (\<lambda>stream.
     res_bind (map_err err_text (read_packet from_binary from_xml MAX_RESPONSE_BYTES stream)) (\<lambda>(response, rest).
     parse_device_list (rp_plist response)))"

definition list_devices ::
  "plist_writer \<Rightarrow> plist_reader \<Rightarrow> plist_reader \<Rightarrow> connector \<Rightarrow> rstr option \<Rightarrow> (rstr, device list) res" where
  "list_devices to_xml from_binary from_xml connect env_var =
     list_devices_from to_xml from_binary from_xml connect env_var default_endpoint"

section \<open>Watching\<close>

definition MAX_EVENT_BYTES :: usize where "MAX_EVENT_BYTES = 16 * 1024 * 1024"

definition attached_line :: "rstr \<Rightarrow> u32 \<Rightarrow> rstr" where
  "attached_line udid i = lit ''+ ATTACHED   '' @ udid @ lit '' (device_id='' @ show_nat (unat i) @ lit '')''"

definition detached_line :: "rstr \<Rightarrow> u32 \<Rightarrow> rstr" where
  "detached_line udid i = lit ''- DETACHED   '' @ udid @ lit '' (device_id='' @ show_nat (unat i) @ lit '')''"

text \<open>What one event packet prints.\<close>

definition event_lines :: "rstr option \<Rightarrow> dictionary \<Rightarrow> rstr list" where
  "event_lines udid_filter d =
     (case get_string d ''MessageType'' of
        Some t \<Rightarrow>
          if t = lit ''Attached'' then
            (case Option.bind (dict_get d (lit ''Properties'')) as_dictionary of
               None \<Rightarrow> []
             | Some props \<Rightarrow>
                 (let udid = (case get_string props ''SerialNumber'' of Some s \<Rightarrow> s | None \<Rightarrow> []) in
                  if udid_filter = None \<or> udid_filter = Some udid
                  then [attached_line udid (get_u32 props ''DeviceID'')] else []))
          else if t = lit ''Detached'' then
            (let udid = (case get_string d ''SerialNumber'' of Some s \<Rightarrow> s | None \<Rightarrow> []) in
             if udid_filter = None \<or> udid = [] \<or> udid_filter = Some udid
             then [detached_line udid (get_u32 d ''DeviceID'')] else [])
          else []
      | None \<Rightarrow> [])"

lemma read_packet_shorter:
  "read_packet from_binary from_xml mx stream = Ok (p, rest) \<Longrightarrow> length rest < length stream"
  by (auto simp: read_packet_def read_exact_def res_bind_eq_Ok Let_def split: if_splits)

function listen_events ::
  "plist_reader \<Rightarrow> plist_reader \<Rightarrow> rstr option \<Rightarrow> bytes \<Rightarrow> (rstr, unit) res \<times> rstr list" where
  "listen_events from_binary from_xml udid_filter stream =
     (case read_packet from_binary from_xml MAX_EVENT_BYTES stream of
        Ok (p, rest) \<Rightarrow>
          (case bad_status (rp_plist p) of
             Some status \<Rightarrow> (Err (lit ''listen failed with status '' @ show_nat status), [])
           | None \<Rightarrow>
               (let (r, lines) = listen_events from_binary from_xml udid_filter rest
                in (r, event_lines udid_filter (rp_plist p) @ lines)))
      | Err e \<Rightarrow> (Err (lit ''failed to read event packet: '' @ err_text e), [])
      | Panic \<Rightarrow> (Panic, []))"
  by pat_completeness auto
termination
  by (relation "measure (\<lambda>(from_binary, from_xml, udid_filter, stream). length stream)") (auto dest: read_packet_shorter)

declare listen_events.simps [simp del]

definition try_connect_and_listen ::
  "plist_writer \<Rightarrow> plist_reader \<Rightarrow> plist_reader \<Rightarrow> connector \<Rightarrow> rstr \<Rightarrow> rstr option
   \<Rightarrow> (rstr, unit) res \<times> rstr list" where
  "try_connect_and_listen to_xml from_binary from_xml connect endpoint_str udid_filter =
     (case open_request to_xml connect endpoint_str (simple_request ''Listen'') of
        Ok stream \<Rightarrow> listen_events from_binary from_xml udid_filter stream
      | Err e \<Rightarrow> (Err e, [])
      | Panic \<Rightarrow> (Panic, []))"

text \<open>The reconnection loop: one connector per attempt, \<open>None\<close> when the listed attempts are used
  up. The second component lists the waits in milliseconds.\<close>

definition INITIAL_BACKOFF :: nat where "INITIAL_BACKOFF = 100"

definition MAX_BACKOFF :: nat where "MAX_BACKOFF = 5000"

fun watch_loop ::
  "(connector \<Rightarrow> (rstr, unit) res \<times> rstr list) \<Rightarrow> nat \<Rightarrow> connector list \<Rightarrow> (rstr, unit) res option \<times> nat list \<times> rstr list" where
  "watch_loop attempt backoff [] = (None, [], [])"
| "watch_loop attempt backoff (connect # connects) =
     (case attempt connect of
        (Ok _, lines) \<Rightarrow> (Some (Ok ()), [], lines)
      | (Panic, lines) \<Rightarrow> (Some Panic, [], lines)
      | (Err e, lines) \<Rightarrow>
          (let (r, waits, more) = watch_loop attempt (min (backoff * 2) MAX_BACKOFF) connects
           in (r, backoff # waits, lines @ more)))"

definition watch_devices_from ::
  "plist_writer \<Rightarrow> plist_reader \<Rightarrow> plist_reader \<Rightarrow> connector list \<Rightarrow> rstr option \<Rightarrow> rstr
   \<Rightarrow> rstr option \<Rightarrow> (rstr, unit) res option \<times> nat list \<times> rstr list" where
  "watch_devices_from to_xml from_binary from_xml connects env_var socket_path udid_filter =
     watch_loop (\<lambda>connect. try_connect_and_listen to_xml from_binary from_xml connect
                    (socket_address env_var socket_path) udid_filter) INITIAL_BACKOFF connects"

definition watch_devices ::
  "plist_writer \<Rightarrow> plist_reader \<Rightarrow> plist_reader \<Rightarrow> connector list \<Rightarrow> rstr option
   \<Rightarrow> (rstr, unit) res option \<times> nat list \<times> rstr list" where
  "watch_devices to_xml from_binary from_xml connects env_var =
     watch_devices_from to_xml from_binary from_xml connects env_var default_endpoint None"

section \<open>The daemon as the peer\<close>

text \<open>The bytes a daemon sends back: those of its packets, and the data of a proxied connection.\<close>

fun out_bytes :: "plist_writer \<Rightarrow> client_out \<Rightarrow> bytes" where
  "out_bytes to_xml (Reply r) = packet_bytes to_xml r"
| "out_bytes to_xml (Proxied i sport px) = po_to_client px"

definition daemon_peer ::
  "plist_writer \<Rightarrow> plist_reader \<Rightarrow> plist_reader \<Rightarrow> daemon_config \<Rightarrow> peer_identity \<Rightarrow> client_env \<Rightarrow> client_io list \<Rightarrow> peer" where
  "daemon_peer to_xml from_binary from_xml config ident env ios = (\<lambda>request.
     Ok (concat (map (out_bytes to_xml) (snd (handle_client from_binary from_xml config ident env ios request)))))"

lemma open_request_daemon:
  assumes "parse_endpoint addr = Ok ep"
    and "connect ep = Ok (daemon_peer to_xml from_binary from_xml config ident env ios)"
    and "readable to_xml from_xml mx p"
  shows "open_request to_xml connect addr p = Ok (concat (map (out_bytes to_xml)
     (snd (handle_client from_binary from_xml config ident env ios (packet_bytes to_xml p)))))"
proof -
  obtain bs where "write_to to_xml p = Ok bs"
    using assms(3) by (auto simp: readable_def xml_roundtrip_def write_to_def)
  then show ?thesis using assms(1,2) by (simp add: open_request_def daemon_peer_def packet_bytes_def)
qed

text \<open>The first command of an admitted client.\<close>

lemma first_command:
  assumes "peer_is_allowed ident config" and "readable to_xml from_xml (cfg_max_packet_bytes config) p"
    and "\<And>size. handle_command io config (with_metrics (\<lambda>m. m\<lparr>clients_accepted := clients_accepted m + 1,
           clients_active := clients_active m + 1\<rparr>) env) (p\<lparr>rp_size := size\<rparr>) = (act, env1, out)"
  shows "snd (handle_client from_binary from_xml config ident env (io # ios) (packet_bytes to_xml p))
     = out @ (if act = Continue then snd (snd (handle_client_inner from_binary from_xml config env1 ios [])) else [])"
proof -
  obtain size where rd: "read_packet from_binary from_xml (cfg_max_packet_bytes config) (packet_bytes to_xml p)
      = Ok (p\<lparr>rp_size := size\<rparr>, [])"
    using read_readable [OF assms(2), of from_binary "[]"] by auto
  show ?thesis using assms(1) rd assms(3) [of size]
    by (cases act) (auto simp: handle_client_def split: prod.splits option.splits res.splits)
qed

lemma inner_empty_stream: "snd (snd (handle_client_inner from_binary from_xml config env ios [])) = []"
  by (cases ios) (simp_all add: read_empty_stream)

lemma list_command:
  assumes "healthy io"
  shows "\<exists>env1. \<forall>n. handle_command io config env (simple_request ''ListDevices''\<lparr>rp_size := n\<rparr>)
     = (Continue, env1, [Reply (make_device_list_response 1 (get_devices (io_iter io) (ce_scanner env)))])"
  using assms
  by (simp add: handle_command_def simple_request_def raw_packet_new_def cmd_list_devices_def)

lemma device_props_get:
  "get_string (device_props dev) ''SerialNumber'' = Some (u_udid dev)"
  "get_string (device_props dev) ''ProductType'' = None"
  "get_string (device_props dev) ''ConnectionType'' = Some (lit ''USB'')"
  "get_u32 (device_props dev) ''DeviceID'' = u_device_id dev"
  by (simp_all add: device_props_def get_string_def get_u32_def get_unsigned_def unat_eq_nat_uint [symmetric])

text \<open>A device as the list command shows it.\<close>

definition seen_device :: "usb_device \<Rightarrow> device" where
  "seen_device dev = \<lparr>dv_udid = u_udid dev, dv_device_id = u_device_id dev, dv_name = None, dv_model = None,
     dv_ios_version = None, dv_build_version = None, dv_connection_type = ConnUsb\<rparr>"

lemma parse_listed_devices: "parse_device_list (rp_plist (make_device_list_response t devs)) = Ok (map seen_device devs)"
proof -
  have "parse_device_entries (map (\<lambda>dev. PDictionary (dict_insert (lit ''Properties'') (PDictionary (device_props dev)) [])) devs)
      = map seen_device devs"
    by (induction devs) (simp_all add: device_of_props_def seen_device_def device_props_get)
  then show ?thesis
    by (simp add: parse_device_list_def make_device_list_response_def raw_packet_new_def bad_status_def get_unsigned_def)
qed

text \<open>The packets of an event stream, printed.\<close>

lemma listen_stream:
  assumes "\<forall>p \<in> set ps. readable to_xml from_xml MAX_EVENT_BYTES p \<and> bad_status (rp_plist p) = None"
  shows "listen_events from_binary from_xml filt (concat (map (packet_bytes to_xml) ps))
     = (Err (lit ''failed to read event packet: early eof''), concat (map (\<lambda>p. event_lines filt (rp_plist p)) ps))"
  using assms
proof (induction ps)
  case Nil
  then show ?case by (simp add: listen_events.simps [of _ _ _ "[]"] read_empty_stream)
next
  case (Cons p ps)
  obtain n where rd: "read_packet from_binary from_xml MAX_EVENT_BYTES (packet_bytes to_xml p @ concat (map (packet_bytes to_xml) ps))
      = Ok (p\<lparr>rp_size := n\<rparr>, concat (map (packet_bytes to_xml) ps))"
    using read_readable Cons.prems by fastforce
  show ?case
    using Cons by (subst listen_events.simps) (simp add: rd)
qed

fun changes_of :: "recv_event list \<Rightarrow> device_change list" where
  "changes_of [] = []"
| "changes_of (Change c # evs) = c # changes_of evs"
| "changes_of (Lagged n # evs) = changes_of evs"
| "changes_of (ChannelClosed # evs) = []"

lemma listen_loop_healthy: "healthy io \<Longrightarrow> snd (listen_loop io evs) = map (\<lambda>c. Reply (event_packet c)) (changes_of evs)"
  by (induction io evs rule: listen_loop.induct) (auto simp: healthy_def split: prod.splits)

lemma listen_command:
  assumes "healthy io"
  shows "\<exists>act env1. act \<noteq> Continue \<and> (\<forall>n. handle_command io config env (simple_request ''Listen''\<lparr>rp_size := n\<rparr>)
     = (act, env1, Reply (make_result_response 1 0) # map (\<lambda>c. Reply (event_packet c)) (changes_of (io_events io))))"
proof -
  obtain ended out where "listen_loop io (io_events io) = (ended, out)" by fastforce
  then show ?thesis
    using assms listen_loop_healthy [OF assms, of "io_events io"]
    by (cases ended) (auto simp: handle_command_def simple_request_def raw_packet_new_def cmd_listen_def Let_def)
qed

text \<open>What a change prints: a detached device is not named.\<close>

definition change_lines :: "rstr option \<Rightarrow> device_change \<Rightarrow> rstr list" where
  "change_lines filt c = (case c of
     Attached dev \<Rightarrow> if filt = None \<or> filt = Some (u_udid dev) then [attached_line (u_udid dev) (u_device_id dev)] else []
   | Detached i \<Rightarrow> [detached_line [] i])"

lemma event_packet_lines: "event_lines filt (rp_plist (event_packet c)) = change_lines filt c"
proof (cases c)
  case (Attached dev)
  then have "get_string (rp_plist (event_packet c)) ''MessageType'' = Some (lit ''Attached'')"
    "dict_get (rp_plist (event_packet c)) (lit ''Properties'') = Some (PDictionary (device_props dev))"
    by (simp_all add: event_packet_def make_attached_event_def raw_packet_new_def get_string_def)
  then show ?thesis by (auto simp: event_lines_def device_props_get Let_def change_lines_def Attached)
next
  case (Detached i)
  then show ?thesis
    by (simp add: event_packet_def make_detached_event_def raw_packet_new_def event_lines_def change_lines_def
        get_string_def get_u32_def get_unsigned_def unat_eq_nat_uint [symmetric])
qed

lemma event_packet_status: "bad_status (rp_plist (event_packet c)) = None"
  "bad_status (rp_plist (make_result_response t n)) = None"
  by (cases c) (simp_all add: event_packet_def make_attached_event_def make_detached_event_def make_result_response_def
      raw_packet_new_def bad_status_def get_unsigned_def)

lemma listen_events_never_ok: "fst (listen_events from_binary from_xml filt stream) \<noteq> Ok u"
proof (induction from_binary from_xml filt stream rule: listen_events.induct)
  case (1 from_binary from_xml filt stream)
  show ?case
    by (subst listen_events.simps) (auto split: res.splits option.splits prod.splits dest!: 1 [rotated 2])
qed

lemma try_never_ok: "fst (try_connect_and_listen to_xml from_binary from_xml connect addr filt) \<noteq> Ok u"
  using listen_events_never_ok by (auto simp: try_connect_and_listen_def split: res.splits)

lemma backoff_doubles: "min (min (100 * 2 ^ k) MAX_BACKOFF * 2) MAX_BACKOFF = min (100 * 2 ^ Suc k) MAX_BACKOFF"
  by (simp add: min_def)

lemma watch_loop_waits:
  assumes "\<And>connect u. fst (attempt connect) \<noteq> Ok u"
  shows "watch_loop attempt (min (100 * 2 ^ k) MAX_BACKOFF) connects = (r, waits, lines) \<Longrightarrow>
    r \<noteq> Some (Ok ()) \<and> waits = map (\<lambda>j. min (100 * 2 ^ (k + j)) MAX_BACKOFF) [0..<length waits]
    \<and> (r = None \<longrightarrow> length waits = length connects)"
proof (induction connects arbitrary: k r waits lines)
  case (Cons connect connects)
  obtain res ls where a: "attempt connect = (res, ls)" by fastforce
  show ?case
  proof (cases res)
    case (Err e)
    obtain r2 waits2 lines2 where rec: "watch_loop attempt (min (100 * 2 ^ Suc k) MAX_BACKOFF) connects = (r2, waits2, lines2)"
      by (metis prod_cases3)
    have "r = r2" and waits: "waits = min (100 * 2 ^ k) MAX_BACKOFF # waits2"
      using Cons.prems a Err rec by (auto simp: backoff_doubles [of k, simplified] Let_def)
    moreover have "waits2 = map (\<lambda>j. min (100 * 2 ^ (Suc k + j)) MAX_BACKOFF) [0..<length waits2]"
      using Cons.IH [OF rec] by blast
    then have "waits = map (\<lambda>j. min (100 * 2 ^ (k + j)) MAX_BACKOFF) [0..<length waits]"
      unfolding waits by (subst upt_conv_Cons) (simp_all add: map_Suc_upt [symmetric] comp_def del: upt_Suc)
    ultimately show ?thesis using Cons.IH [OF rec] by auto
  next
    case (Ok u)
    with a assms [of connect u] show ?thesis by simp
  qed (use Cons.prems a in auto)
qed simp

section \<open>Properties\<close>

text \<open>C15: The device list a client obtains is what the scanner knows. When the client reaches a daemon
  that admits it, the request travels through the packet format and the daemon's command loop and
  the answer back, and the list \<open>list_devices_from\<close> returns to the commands that print it holds
  exactly the scanner's devices, in its order, each with its identifier and its device number, as a
  USB device, and with nothing known yet of its name, model and version.\<close>

theorem list_devices_end_to_end:
  assumes "parse_endpoint (socket_address env_var endpoint_str) = Ok ep"
    and "connect ep = Ok (daemon_peer to_xml from_binary from_xml config ident env (io # ios))"
    and "peer_is_allowed ident config" and "healthy io"
    and "readable to_xml from_xml (cfg_max_packet_bytes config) (simple_request ''ListDevices'')"
    and "readable to_xml from_xml MAX_RESPONSE_BYTES
           (make_device_list_response 1 (get_devices (io_iter io) (ce_scanner env)))"
  shows "list_devices_from to_xml from_binary from_xml connect env_var endpoint_str
     = Ok (map seen_device (get_devices (io_iter io) (ce_scanner env)))"
proof -
  let ?env = "with_metrics (\<lambda>m. m\<lparr>clients_accepted := clients_accepted m + 1, clients_active := clients_active m + 1\<rparr>) env"
  let ?reply = "make_device_list_response 1 (get_devices (io_iter io) (ce_scanner env))"
  obtain env1 where "\<And>n. handle_command io config ?env (simple_request ''ListDevices''\<lparr>rp_size := n\<rparr>)
      = (Continue, env1, [Reply ?reply])"
    using list_command [OF assms(4), of config ?env] by auto
  from first_command [OF assms(3,5) this]
  have "open_request to_xml connect (socket_address env_var endpoint_str) (simple_request ''ListDevices'')
      = Ok (packet_bytes to_xml ?reply)"
    using open_request_daemon [where connect = connect, OF assms(1,2,5)] by (simp add: inner_empty_stream)
  then show ?thesis
    using read_readable [OF assms(6), of from_binary "[]"]
    by (auto simp: list_devices_from_def parse_listed_devices)
qed

definition example_readers :: "plist_reader" where
  "example_readers bs = (if bs = [60] then Ok (rp_plist (simple_request ''ListDevices''))
     else Ok (rp_plist (make_device_list_response 1 [example_usb])))"

definition example_writer :: plist_writer where
  "example_writer d = (if d = rp_plist (simple_request ''ListDevices'') then Ok [60] else Ok [62])"

theorem list_devices_end_to_end_witness:
  "list_devices_from example_writer (\<lambda>_. Panic) example_readers
     (\<lambda>_. Ok (daemon_peer example_writer (\<lambda>_. Panic) example_readers config_default anonymous attached_env [example_io]))
     None (lit ''/tmp/mux'') = Ok [seen_device example_usb]
   \<and> dv_udid (seen_device example_usb) = lit ''AB'' \<and> dv_device_id (seen_device example_usb) = 1"
proof -
  have devs: "get_devices (io_iter example_io) (ce_scanner attached_env) = [example_usb]"
    using example_devices by (simp add: example_io_def attached_env_def)
  have ne: "rp_plist (make_device_list_response 1 [example_usb]) \<noteq> rp_plist (simple_request ''ListDevices'')"
    by (simp add: make_device_list_response_def simple_request_def raw_packet_new_def)
  have "parse_endpoint (socket_address None (lit ''/tmp/mux'')) = Ok (Unix (lit ''/tmp/mux''))"
    by (simp add: socket_address_def parse_endpoint_def strip_prefix_def)
  moreover have "readable example_writer example_readers (cfg_max_packet_bytes config_default) (simple_request ''ListDevices'')"
    by (simp add: readable_def xml_roundtrip_def example_writer_def example_readers_def config_default_def)
  moreover have "readable example_writer example_readers MAX_RESPONSE_BYTES
      (make_device_list_response 1 (get_devices (io_iter example_io) (ce_scanner attached_env)))"
    using ne by (simp add: devs readable_def xml_roundtrip_def example_writer_def example_readers_def MAX_RESPONSE_BYTES_def)
  ultimately have "list_devices_from example_writer (\<lambda>_. Panic) example_readers
     (\<lambda>_. Ok (daemon_peer example_writer (\<lambda>_. Panic) example_readers config_default anonymous attached_env [example_io]))
     None (lit ''/tmp/mux'') = Ok (map seen_device (get_devices (io_iter example_io) (ce_scanner attached_env)))"
    by (intro list_devices_end_to_end [OF _ refl anonymous_allowed healthy_example])
  then show ?thesis by (simp add: devs seen_device_def example_usb_def)
qed

text \<open>C25: The watcher prints the changes the daemon broadcasts, one line each and in order: every
  attachment that passes the filter with its identifier and number, and every detachment. The
  filter does not apply to detachments, since the daemon's event does not name the device.\<close>

theorem watch_prints_changes:
  assumes "parse_endpoint addr = Ok ep"
    and "connect ep = Ok (daemon_peer to_xml from_binary from_xml config ident env (io # ios))"
    and "peer_is_allowed ident config" and "healthy io"
    and "readable to_xml from_xml (cfg_max_packet_bytes config) (simple_request ''Listen'')"
    and "readable to_xml from_xml MAX_EVENT_BYTES (make_result_response 1 0)"
    and "\<forall>c \<in> set (changes_of (io_events io)). readable to_xml from_xml MAX_EVENT_BYTES (event_packet c)"
  shows "snd (try_connect_and_listen to_xml from_binary from_xml connect addr filt)
     = concat (map (change_lines filt) (changes_of (io_events io)))"
proof -
  let ?env = "with_metrics (\<lambda>m. m\<lparr>clients_accepted := clients_accepted m + 1, clients_active := clients_active m + 1\<rparr>) env"
  let ?ps = "make_result_response 1 0 # map event_packet (changes_of (io_events io))"
  obtain act env1 where act: "act \<noteq> Continue"
    and cmd: "\<And>n. handle_command io config ?env (simple_request ''Listen''\<lparr>rp_size := n\<rparr>) = (act, env1, map Reply ?ps)"
    using listen_command [OF assms(4), of config ?env] by (auto simp: comp_def)
  have "snd (handle_client from_binary from_xml config ident env (io # ios) (packet_bytes to_xml (simple_request ''Listen'')))
      = map Reply ?ps"
    using first_command [OF assms(3,5) cmd] act by simp
  then have "open_request to_xml connect addr (simple_request ''Listen'') = Ok (concat (map (packet_bytes to_xml) ?ps))"
    using open_request_daemon [where connect = connect, OF assms(1,2,5)] by (simp add: comp_def)
  moreover have "\<forall>p \<in> set ?ps. readable to_xml from_xml MAX_EVENT_BYTES p \<and> bad_status (rp_plist p) = None"
    using assms(6,7) event_packet_status by auto
  from listen_stream [OF this]
  have "listen_events from_binary from_xml filt (concat (map (packet_bytes to_xml) ?ps))
      = (Err (lit ''failed to read event packet: early eof''), concat (map (\<lambda>p. event_lines filt (rp_plist p)) ?ps))" .
  moreover have "event_lines filt (rp_plist (make_result_response 1 0)) = []"
    by (simp add: event_lines_def make_result_response_def raw_packet_new_def get_string_def)
  ultimately show ?thesis by (simp add: try_connect_and_listen_def event_packet_lines comp_def)
qed

definition listen_readers :: plist_reader where
  "listen_readers bs = (if bs = [60] then Ok (rp_plist (simple_request ''Listen''))
     else if bs = [61] then Ok (rp_plist (make_result_response 1 0)) else Ok (rp_plist (event_packet (Detached 3))))"

definition listen_writer :: plist_writer where
  "listen_writer d = (if d = rp_plist (simple_request ''Listen'') then Ok [60]
     else if d = rp_plist (make_result_response 1 0) then Ok [61] else Ok [62])"

theorem watch_prints_changes_witness:
  "snd (try_connect_and_listen listen_writer (\<lambda>_. Panic) listen_readers
     (\<lambda>_. Ok (daemon_peer listen_writer (\<lambda>_. Panic) listen_readers config_default anonymous example_env
        [example_io\<lparr>io_events := [Lagged 2, Change (Detached 3)]\<rparr>])) (lit ''/tmp/mux'') (Some (lit ''AB'')))
   = [detached_line [] 3]"
proof -
  let ?io = "example_io\<lparr>io_events := [Lagged 2, Change (Detached 3)]\<rparr>"
  have io: "healthy ?io" using healthy_example by (simp add: healthy_def)
  have distinct: "rp_plist (make_result_response 1 0) \<noteq> rp_plist (simple_request ''Listen'')"
    "rp_plist (event_packet (Detached 3)) \<noteq> rp_plist (simple_request ''Listen'')"
    "rp_plist (event_packet (Detached 3)) \<noteq> rp_plist (make_result_response 1 0)"
    by (simp_all add: make_result_response_def simple_request_def event_packet_def make_detached_event_def raw_packet_new_def)
  have ep: "parse_endpoint (lit ''/tmp/mux'') = Ok (Unix (lit ''/tmp/mux''))"
    by (simp add: parse_endpoint_def strip_prefix_def)
  have r1: "readable listen_writer listen_readers (cfg_max_packet_bytes config_default) (simple_request ''Listen'')"
    by (simp add: readable_def xml_roundtrip_def listen_writer_def listen_readers_def config_default_def)
  have r2: "readable listen_writer listen_readers MAX_EVENT_BYTES (make_result_response 1 0)"
    using distinct by (simp add: readable_def xml_roundtrip_def listen_writer_def listen_readers_def MAX_EVENT_BYTES_def)
  have r3: "\<forall>c \<in> set (changes_of (io_events ?io)). readable listen_writer listen_readers MAX_EVENT_BYTES (event_packet c)"
    using distinct by (simp add: readable_def xml_roundtrip_def listen_writer_def listen_readers_def MAX_EVENT_BYTES_def)
  show ?thesis
    using watch_prints_changes [OF ep refl anonymous_allowed io r1 r2 r3, where filt = "Some (lit ''AB'')"]
    by (simp add: change_lines_def)
qed

text \<open>The watcher never ends by itself. Whatever the daemons it reaches answer, no attempt ends
  normally, so the loop keeps reconnecting; the wait before the k-th reconnection is the
  smaller of 100 ms doubled k times and 5 s, and there is one per failed attempt.\<close>

theorem watch_never_ends:
  "case watch_devices_from to_xml from_binary from_xml connects env_var socket_path filt of
     (r, waits, lines) \<Rightarrow> r \<noteq> Some (Ok ())
       \<and> waits = map (\<lambda>k. min (100 * 2 ^ k) 5000) [0..<length waits]
       \<and> (r = None \<longrightarrow> length waits = length connects)"
proof -
  obtain r waits lines where run:
    "watch_devices_from to_xml from_binary from_xml connects env_var socket_path filt = (r, waits, lines)"
    by (metis prod_cases3)
  have "min (100 * 2 ^ 0) MAX_BACKOFF = INITIAL_BACKOFF" by (simp add: MAX_BACKOFF_def INITIAL_BACKOFF_def)
  with run watch_loop_waits [of "\<lambda>connect. try_connect_and_listen to_xml from_binary from_xml connect
                    (socket_address env_var socket_path) filt" 0, OF try_never_ok]
  show ?thesis by (simp add: watch_devices_from_def MAX_BACKOFF_def)
qed

theorem watch_never_ends_witness:
  "fst (snd (watch_devices_from (\<lambda>_. Panic) (\<lambda>_. Panic) (\<lambda>_. Panic)
      (replicate 8 (\<lambda>_. Err (Io NotFound []))) None (lit ''/x'') None)) = [100, 200, 400, 800, 1600, 3200, 5000, 5000]"
proof -
  let ?run = "watch_devices_from (\<lambda>_. Panic) (\<lambda>_. Panic) (\<lambda>_. Panic)
      (replicate 8 (\<lambda>_. Err (Io NotFound []))) None (lit ''/x'') None"
  have att: "try_connect_and_listen (\<lambda>_. Panic) (\<lambda>_. Panic) (\<lambda>_. Panic) (\<lambda>_. Err (Io NotFound []))
      (socket_address None (lit ''/x'')) None = (Err [], [])"
    by (simp add: try_connect_and_listen_def open_request_def socket_address_def parse_endpoint_def strip_prefix_def)
  have none: "fst (watch_loop f b (replicate n c)) = None" if "f c = (Err [], [])" for f b n c
    using that by (induction n arbitrary: b) (simp_all add: case_prod_beta Let_def)
  have "fst ?run = None" unfolding watch_devices_from_def by (rule none) (rule att)
  then obtain waits lines where run: "?run = (None, waits, lines)" by (metis prod_cases3 fst_conv)
  with watch_never_ends [where to_xml = "\<lambda>_. Panic" and from_binary = "\<lambda>_. Panic"
      and from_xml = "\<lambda>_. Panic" and connects = "replicate 8 (\<lambda>_. Err (Io NotFound []))" and env_var = None
      and socket_path = "lit ''/x''" and filt = None]
  have eq: "waits = map (\<lambda>k. min (100 * 2 ^ k) 5000) [0..<length waits]" and len: "length waits = 8"
    by (simp_all only: prod.case length_replicate simp_thms) metis
  have "waits = map (\<lambda>k. min (100 * 2 ^ k) 5000) [0..<8]" using eq unfolding len .
  with run show ?thesis by (simp add: upt_rec)
qed

end
