(* ===== verification/Lockdown_Client.thy ===== *)
theory Lockdown_Client
  imports Device_Client
begin

unbundle bit_operations_syntax

text \<open>
  The lockdown client (\<open>device/lockdown.rs\<close>) and the enrichment of device records
  (\<open>device/info.rs\<close>): length-prefixed property lists over a channel that is plain or TLS, the
  session with its upgrade, the queries, and what they fill in. What the channel delivers is a
  list of reads (a chunk of bytes, a timeout or an error; the end of the list is the end of the
  stream), and every frame written is recorded with the mode of the channel. TLS belongs to
  \<open>rustls\<close>: the handshake is an argument that yields what the encrypted stream delivers.

  The theorems: frames survive any chunking of the stream, with an encrypted session no value
  is asked for in the clear, enrichment only fills gaps, and one place where a late answer is
  taken for that of another key.
\<close>

section \<open>The channel\<close>

datatype chan_read = Chunk bytes | ReadTimeout | ReadError rstr

record channel =
  ch_tls :: bool
  ch_in :: "chan_read list"
  ch_sent :: "(bool \<times> bytes) list"

text \<open>What a TLS handshake asks its certificate verifier: a certificate chain or a signature.\<close>

datatype verify_query = ServerCert bytes "bytes list" | Tls12Signature bytes | Tls13Signature bytes

record lockdown_io =
  li_to_xml :: plist_writer
  li_from_bytes :: "bytes \<Rightarrow> (rstr, plist) res"
  li_from_binary :: plist_reader
  li_from_xml :: plist_reader
  li_write :: "bytes \<Rightarrow> rstr option"
  li_debug :: "plist \<Rightarrow> rstr"
  li_pem_certs :: "bytes \<Rightarrow> (rstr, bytes list) res"
  li_pem_key :: "bytes \<Rightarrow> (rstr, bytes option) res"
  li_provider :: "rstr option"
  li_client_auth :: "bytes list \<Rightarrow> bytes \<Rightarrow> rstr option"
  li_handshake :: "(verify_query \<Rightarrow> bool) \<Rightarrow> bytes list \<Rightarrow> bytes \<Rightarrow> chan_read list \<Rightarrow> (rstr, chan_read list) res"

definition REQUEST_TIMEOUT_SECS :: u64 where "REQUEST_TIMEOUT_SECS = 10"

definition BASIC_KEYS :: "rstr list" where
  "BASIC_KEYS = [lit ''DeviceName'', lit ''ProductType'', lit ''ProductVersion'', lit ''BuildVersion'', lit ''ModelNumber'',
     lit ''SerialNumber'']"

definition MAX_LOCKDOWN_RESPONSE :: usize where "MAX_LOCKDOWN_RESPONSE = 1024 * 1024"

definition write_endpoint :: "lockdown_io \<Rightarrow> bytes \<Rightarrow> channel \<Rightarrow> (rstr, unit) res \<times> channel" where
  "write_endpoint io frame ch = (case li_write io frame of
     None \<Rightarrow> (Ok (), ch\<lparr>ch_sent := ch_sent ch @ [(ch_tls ch, frame)]\<rparr>)
   | Some e \<Rightarrow> (Err e, ch))"

definition plist_frame :: "bytes \<Rightarrow> bytes" where
  "plist_frame body = be32 (word_of_nat (length body)) @ body"

definition write_plist :: "lockdown_io \<Rightarrow> dictionary \<Rightarrow> channel \<Rightarrow> (rstr, unit) res \<times> channel" where
  "write_plist io dict ch = (case li_to_xml io dict of
     Ok body \<Rightarrow> write_endpoint io (plist_frame body) ch
   | Err e \<Rightarrow> (Err e, ch)
   | Panic \<Rightarrow> (Panic, ch))"

text \<open>\<open>read_exact_timeout\<close>: \<open>n\<close> bytes are still missing. A read takes what the chunk at the front
  holds, at most \<open>n\<close> bytes.\<close>

function read_exact_timeout :: "nat \<Rightarrow> bytes \<Rightarrow> chan_read list \<Rightarrow> (rstr, bytes) res \<times> chan_read list" where
  "read_exact_timeout n filled cs =
     (if n = 0 then (Ok filled, cs)
      else case cs of
        [] \<Rightarrow> (Err (lit ''lockdown closed connection mid-frame''), [])
      | ReadTimeout # cs' \<Rightarrow> (Err (lit ''lockdown read timed out''), cs')
      | ReadError e # cs' \<Rightarrow> (Err e, cs')
      | Chunk b # cs' \<Rightarrow>
          if b = [] then (Err (lit ''lockdown closed connection mid-frame''), cs')
          else if length b \<le> n then read_exact_timeout (n - length b) (filled @ b) cs'
          else (Ok (filled @ take n b), Chunk (drop n b) # cs'))"
  by pat_completeness auto
termination
  by (relation "measure (\<lambda>(n, filled, cs). length cs)") auto

declare read_exact_timeout.simps [simp del]

definition read_plist :: "lockdown_io \<Rightarrow> channel \<Rightarrow> (rstr, dictionary) res \<times> channel" where
  "read_plist io ch =
     (case read_exact_timeout 4 [] (ch_in ch) of
        (Err e, cs) \<Rightarrow> (Err e, ch\<lparr>ch_in := cs\<rparr>)
      | (Panic, cs) \<Rightarrow> (Panic, ch\<lparr>ch_in := cs\<rparr>)
      | (Ok len_buf, cs) \<Rightarrow>
          (let total = unat (from_be32 (len_buf ! 0) (len_buf ! 1) (len_buf ! 2) (len_buf ! 3)) in
           if MAX_LOCKDOWN_RESPONSE < total
           then (Err (lit ''lockdown frame too large: '' @ show_nat total), ch\<lparr>ch_in := cs\<rparr>)
           else
             (case read_exact_timeout total [] cs of
                (Err e, cs') \<Rightarrow> (Err e, ch\<lparr>ch_in := cs'\<rparr>)
              | (Panic, cs') \<Rightarrow> (Panic, ch\<lparr>ch_in := cs'\<rparr>)
              | (Ok body, cs') \<Rightarrow>
                  (case li_from_bytes io body of
                     Ok v \<Rightarrow>
                       (case as_dictionary v of
                          Some d \<Rightarrow> (Ok d, ch\<lparr>ch_in := cs'\<rparr>)
                        | None \<Rightarrow> (Err (lit ''lockdown response was not a dictionary''), ch\<lparr>ch_in := cs'\<rparr>))
                   | Err e \<Rightarrow> (Err (lit ''lockdown plist parse failed: '' @ e), ch\<lparr>ch_in := cs'\<rparr>)
                   | Panic \<Rightarrow> (Panic, ch\<lparr>ch_in := cs'\<rparr>)))))"

section \<open>Requests\<close>

text \<open>A request and its reply on the channel.\<close>

definition chan_request :: "lockdown_io \<Rightarrow> dictionary \<Rightarrow> channel \<Rightarrow> (rstr, dictionary) res \<times> channel" where
  "chan_request io req ch = (case write_plist io req ch of
     (Ok _, ch1) \<Rightarrow> read_plist io ch1
   | (Err e, ch1) \<Rightarrow> (Err e, ch1)
   | (Panic, ch1) \<Rightarrow> (Panic, ch1))"

definition get_value_request :: "rstr \<Rightarrow> dictionary" where
  "get_value_request key =
     dict_insert (lit ''Label'') (PString (lit ''meridian-relay''))
       (dict_insert (lit ''Key'') (PString key)
         (dict_insert (lit ''Request'') (PString (lit ''GetValue'')) []))"

definition get_value_raw :: "lockdown_io \<Rightarrow> rstr \<Rightarrow> channel \<Rightarrow> (rstr, rstr option) res \<times> channel" where
  "get_value_raw io key ch = (case chan_request io (get_value_request key) ch of
     (Ok resp, ch1) \<Rightarrow>
       if get_string resp ''Error'' \<noteq> None then (Ok None, ch1)
       else (case dict_get resp (lit ''Value'') of
           Some (PString s) \<Rightarrow> (Ok (Some s), ch1)
         | Some other \<Rightarrow> (Ok (Some (li_debug io other)), ch1)
         | None \<Rightarrow> (Ok None, ch1))
   | (Err e, ch1) \<Rightarrow> (Err e, ch1)
   | (Panic, ch1) \<Rightarrow> (Panic, ch1))"

definition session_request :: "rstr \<Rightarrow> rstr \<Rightarrow> dictionary" where
  "session_request host_id system_buid =
     dict_insert (lit ''SystemBUID'') (PString system_buid)
       (dict_insert (lit ''HostID'') (PString host_id)
         (dict_insert (lit ''ProtocolVersion'') (PString (lit ''2''))
           (dict_insert (lit ''Request'') (PString (lit ''StartSession''))
             (dict_insert (lit ''Label'') (PString (lit ''meridian-relay'')) []))))"

fun as_boolean :: "plist \<Rightarrow> bool option" where
  "as_boolean (PBoolean b) = Some b" | "as_boolean _ = None"

fun as_data :: "plist \<Rightarrow> bytes option" where
  "as_data (PData b) = Some b" | "as_data _ = None"

definition get_data :: "dictionary \<Rightarrow> string \<Rightarrow> bytes option" where
  "get_data d k = Option.bind (dict_get d (lit k)) as_data"

definition start_session :: "lockdown_io \<Rightarrow> dictionary \<Rightarrow> channel \<Rightarrow> (rstr, bool) res \<times> channel" where
  "start_session io pair_record ch =
     (case get_string pair_record ''HostID'' of
        None \<Rightarrow> (Err (lit ''pair record missing HostID''), ch)
      | Some host_id \<Rightarrow>
          (case get_string pair_record ''SystemBUID'' of
             None \<Rightarrow> (Err (lit ''pair record missing SystemBUID''), ch)
           | Some system_buid \<Rightarrow>
               (case chan_request io (session_request host_id system_buid) ch of
                  (Ok resp, ch1) \<Rightarrow>
                    (case get_string resp ''Error'' of
                       Some err \<Rightarrow> (Err (lit ''StartSession failed: '' @ err), ch1)
                     | None \<Rightarrow>
                         (Ok (Option.bind (dict_get resp (lit ''EnableSessionSSL'')) as_boolean = Some True), ch1))
                | (Err e, ch1) \<Rightarrow> (Err e, ch1)
                | (Panic, ch1) \<Rightarrow> (Panic, ch1))))"

text \<open>The verifier of the upgrade accepts everything.\<close>

fun no_verify :: "verify_query \<Rightarrow> bool" where
  "no_verify (ServerCert end_entity intermediates) = True"
| "no_verify (Tls12Signature message) = True"
| "no_verify (Tls13Signature message) = True"

text \<open>The certificates and the key come from the pair record; then the provider, the client
  authentication and the handshake, each of which may fail.\<close>

definition tls_upgrade :: "lockdown_io \<Rightarrow> dictionary \<Rightarrow> channel \<Rightarrow> (rstr, channel) res" where
  "tls_upgrade io pair_record ch =
     (case get_data pair_record ''HostCertificate'' of
        None \<Rightarrow> Err (lit ''pair record has no HostCertificate'')
      | Some cert \<Rightarrow>
          (case get_data pair_record ''HostPrivateKey'' of
             None \<Rightarrow> Err (lit ''pair record has no HostPrivateKey'')
           | Some key \<Rightarrow>
               res_bind (li_pem_certs io cert) (\<lambda>cert_chain.
               res_bind (li_pem_key io key) (\<lambda>parsed.
                 case parsed of
                   None \<Rightarrow> Err (lit ''failed to parse host private key from pair record'')
                 | Some host_key \<Rightarrow>
                     (case li_provider io of
                        Some e \<Rightarrow> Err (lit ''rustls provider init: '' @ e)
                      | None \<Rightarrow>
                          (case li_client_auth io cert_chain host_key of
                             Some e \<Rightarrow> Err e
                           | None \<Rightarrow>
                               res_bind (li_handshake io no_verify cert_chain host_key (ch_in ch)) (\<lambda>cs.
                                 Ok (ch\<lparr>ch_tls := True, ch_in := cs\<rparr>))))))))"

text \<open>The daemon's side: connecting to the lockdown port, whose result is what the stream already
  holds, and fetching the pair record.\<close>

definition lockdown_connect_packet :: "u32 \<Rightarrow> raw_packet" where
  "lockdown_connect_packet device_id =
     raw_packet_new
       (dict_insert (lit ''kLibUSBMuxVersion'') (PInteger 3)
         (dict_insert (lit ''ProgName'') (PString (lit ''meridian-relay''))
           (dict_insert (lit ''PortNumber'') (PInteger (uint (swap16 LOCKDOWN_PORT)))
             (dict_insert (lit ''DeviceID'') (PInteger (uint device_id))
               (dict_insert (lit ''MessageType'') (PString (lit ''Connect''))
                 (dict_insert (lit ''ClientVersion'') (PInteger 7) []))))))
       XML_PLIST_VERSION PLIST_MESSAGE_TYPE 1"

definition mux_exchange :: "lockdown_io \<Rightarrow> usize \<Rightarrow> (io_error, peer) res \<Rightarrow> raw_packet \<Rightarrow> (rstr, raw_packet \<times> bytes) res" where
  "mux_exchange io mx conn pkt =
     map_err err_text (res_bind conn (\<lambda>peer. res_bind (write_packet (li_to_xml io) pkt) (\<lambda>bs.
       res_bind (peer bs) (read_packet (li_from_binary io) (li_from_xml io) mx))))"

definition connect_lockdown :: "lockdown_io \<Rightarrow> (io_error, peer) res \<Rightarrow> u32 \<Rightarrow> (rstr, bytes) res" where
  "connect_lockdown io conn device_id =
     res_bind (mux_exchange io (64 * 1024) conn (lockdown_connect_packet device_id)) (\<lambda>(resp, rest).
       let number = (case get_unsigned (rp_plist resp) ''Number'' of Some n \<Rightarrow> n | None \<Rightarrow> 1) in
       if number \<noteq> 0 then Err (lit ''Connect to lockdown failed: result code '' @ show_nat number) else Ok rest)"

definition read_record_packet :: "rstr \<Rightarrow> raw_packet" where
  "read_record_packet udid =
     raw_packet_new
       (dict_insert (lit ''PairRecordID'') (PString udid)
         (dict_insert (lit ''MessageType'') (PString (lit ''ReadPairRecord'')) []))
       XML_PLIST_VERSION PLIST_MESSAGE_TYPE 2"

definition mux_read_pair_record :: "lockdown_io \<Rightarrow> (io_error, peer) res \<Rightarrow> rstr \<Rightarrow> (rstr, dictionary) res" where
  "mux_read_pair_record io conn udid =
     res_bind (mux_exchange io (16 * 1024 * 1024) conn (read_record_packet udid)) (\<lambda>(resp, rest).
       case get_data (rp_plist resp) ''PairRecordData'' of
         None \<Rightarrow> Err (lit ''pair record absent or unreadable'')
       | Some data \<Rightarrow>
           res_bind (li_from_bytes io data) (\<lambda>v. case as_dictionary v of
             Some d \<Rightarrow> Ok d | None \<Rightarrow> Err (lit ''pair record payload is not a dictionary'')))"

section \<open>Queries\<close>

text \<open>The key loop of both branches: a key whose query fails is passed over.\<close>

fun get_keys :: "lockdown_io \<Rightarrow> rstr list \<Rightarrow> channel \<Rightarrow> (rstr \<times> rstr) list \<times> channel" where
  "get_keys io [] ch = ([], ch)"
| "get_keys io (key # keys) ch =
     (let (r, ch1) = get_value_raw io key ch; (out, ch2) = get_keys io keys ch1
      in case r of Ok (Some v) \<Rightarrow> ((key, v) # out, ch2) | _ \<Rightarrow> (out, ch2))"

definition or_empty :: "rstr \<Rightarrow> (rstr \<times> rstr) list \<Rightarrow> (rstr, (rstr \<times> rstr) list) res" where
  "or_empty msg out = (if out = [] then Err msg else Ok out)"

text \<open>
  \<open>get_value\<close> with its two connections to the daemon and what the device then sends; the second
  component lists the frames written to the device.
\<close>

definition get_value ::
  "lockdown_io \<Rightarrow> (io_error, peer) res \<Rightarrow> (io_error, peer) res \<Rightarrow> chan_read list \<Rightarrow> u32 \<Rightarrow> rstr list \<Rightarrow> rstr
   \<Rightarrow> (rstr, (rstr \<times> rstr) list) res \<times> (bool \<times> bytes) list" where
  "get_value io conn1 conn2 reads device_id keys udid =
     (case connect_lockdown io conn1 device_id of
        Err e \<Rightarrow> (Err e, [])
      | Panic \<Rightarrow> (Panic, [])
      | Ok rest \<Rightarrow>
          (let ch0 = \<lparr>ch_tls = False, ch_in = (if rest = [] then reads else Chunk rest # reads), ch_sent = []\<rparr> in
           case mux_read_pair_record io conn2 udid of
             Panic \<Rightarrow> (Panic, [])
           | Ok pr \<Rightarrow>
               (case start_session io pr ch0 of
                  (Err e, ch1) \<Rightarrow> (Err e, ch_sent ch1)
                | (Panic, ch1) \<Rightarrow> (Panic, ch_sent ch1)
                | (Ok enable_ssl, ch1) \<Rightarrow>
                    (case (if enable_ssl then tls_upgrade io pr ch1 else Ok ch1) of
                       Err e \<Rightarrow> (Err e, ch_sent ch1)
                     | Panic \<Rightarrow> (Panic, ch_sent ch1)
                     | Ok ch2 \<Rightarrow>
                         (let (out, ch3) = get_keys io keys ch2
                          in (or_empty (lit ''started session but lockdown returned no values (device may need to be unlocked/trusted)'') out,
                              ch_sent ch3))))
           | Err e \<Rightarrow>
               (let (out, ch1) = get_keys io keys ch0
                in (or_empty (lit ''no pair record and device refused sessionless queries'') out, ch_sent ch1))))"

section \<open>Enrichment\<close>

definition model_table :: "(rstr \<times> rstr) list" where
  "model_table =
    [(lit ''iPhone13,1'', lit ''iPhone 12 mini''),
     (lit ''iPhone13,2'', lit ''iPhone 12''),
     (lit ''iPhone13,3'', lit ''iPhone 12 Pro''),
     (lit ''iPhone13,4'', lit ''iPhone 12 Pro Max''),
     (lit ''iPhone14,4'', lit ''iPhone 13 mini''),
     (lit ''iPhone14,5'', lit ''iPhone 13''),
     (lit ''iPhone14,2'', lit ''iPhone 13 Pro''),
     (lit ''iPhone14,3'', lit ''iPhone 13 Pro Max''),
     (lit ''iPhone14,7'', lit ''iPhone 14''),
     (lit ''iPhone14,8'', lit ''iPhone 14 Plus''),
     (lit ''iPhone15,2'', lit ''iPhone 14 Pro''),
     (lit ''iPhone15,3'', lit ''iPhone 14 Pro Max''),
     (lit ''iPhone15,4'', lit ''iPhone 15''),
     (lit ''iPhone15,5'', lit ''iPhone 15 Plus''),
     (lit ''iPhone16,1'', lit ''iPhone 15 Pro''),
     (lit ''iPhone16,2'', lit ''iPhone 15 Pro Max''),
     (lit ''iPhone17,1'', lit ''iPhone 16 Pro''),
     (lit ''iPhone17,2'', lit ''iPhone 16 Pro Max''),
     (lit ''iPhone17,3'', lit ''iPhone 16''),
     (lit ''iPhone17,4'', lit ''iPhone 16 Plus''),
     (lit ''iPhone17,5'', lit ''iPhone 16e''),
     (lit ''iPad13,18'', lit ''iPad (10th gen)''),
     (lit ''iPad13,19'', lit ''iPad (10th gen)''),
     (lit ''iPad14,3'', lit ''iPad Pro 11'' @ [34] @ lit '' (4th gen)''),
     (lit ''iPad14,4'', lit ''iPad Pro 11'' @ [34] @ lit '' (4th gen)''),
     (lit ''iPad14,5'', lit ''iPad Pro 12.9'' @ [34] @ lit '' (6th gen)''),
     (lit ''iPad14,6'', lit ''iPad Pro 12.9'' @ [34] @ lit '' (6th gen)''),
     (lit ''iPad14,8'', lit ''iPad Air 11'' @ [34] @ lit '' (M2)''),
     (lit ''iPad14,9'', lit ''iPad Air 11'' @ [34] @ lit '' (M2)''),
     (lit ''iPad14,10'', lit ''iPad Air 13'' @ [34] @ lit '' (M2)''),
     (lit ''iPad14,11'', lit ''iPad Air 13'' @ [34] @ lit '' (M2)''),
     (lit ''iPad15,3'', lit ''iPad Air 11'' @ [34] @ lit '' (M3)''),
     (lit ''iPad15,4'', lit ''iPad Air 11'' @ [34] @ lit '' (M3)''),
     (lit ''iPad15,5'', lit ''iPad Air 13'' @ [34] @ lit '' (M3)''),
     (lit ''iPad15,6'', lit ''iPad Air 13'' @ [34] @ lit '' (M3)''),
     (lit ''iPad15,7'', lit ''iPad mini (A17 Pro)''),
     (lit ''iPad15,8'', lit ''iPad mini (A17 Pro)''),
     (lit ''iPad16,3'', lit ''iPad Pro 11'' @ [34] @ lit '' (M4)''),
     (lit ''iPad16,4'', lit ''iPad Pro 11'' @ [34] @ lit '' (M4)''),
     (lit ''iPad16,5'', lit ''iPad Pro 13'' @ [34] @ lit '' (M4)''),
     (lit ''iPad16,6'', lit ''iPad Pro 13'' @ [34] @ lit '' (M4)''),
     (lit ''iPod9,1'', lit ''iPod touch (7th gen)'')]"

definition model_name :: "rstr \<Rightarrow> rstr option" where
  "model_name identifier = map_of model_table identifier"

definition friendly_model :: "rstr \<Rightarrow> rstr" where
  "friendly_model v = (case model_name v of Some n \<Rightarrow> n | None \<Rightarrow> v)"

fun fill_field :: "device \<times> (rstr \<times> rstr) list \<Rightarrow> rstr \<times> rstr \<Rightarrow> device \<times> (rstr \<times> rstr) list" where
  "fill_field (dev, filled) (k, v) =
     (if k = lit ''DeviceName'' \<and> dv_name dev = None then (dev\<lparr>dv_name := Some v\<rparr>, filled @ [(k, v)])
      else if k = lit ''ProductType'' \<and> dv_model dev = None then (dev\<lparr>dv_model := Some (friendly_model v)\<rparr>, filled @ [(k, v)])
      else if k = lit ''ProductVersion'' \<and> dv_ios_version dev = None then (dev\<lparr>dv_ios_version := Some v\<rparr>, filled @ [(k, v)])
      else if k = lit ''BuildVersion'' \<and> dv_build_version dev = None then (dev\<lparr>dv_build_version := Some v\<rparr>, filled @ [(k, v)])
      else (dev, filled))"

definition ENRICH_KEYS :: "rstr list" where
  "ENRICH_KEYS = [lit ''DeviceName'', lit ''ProductType'', lit ''ProductVersion'', lit ''BuildVersion'']"

definition enrich_via_lockdown ::
  "lockdown_io \<Rightarrow> (io_error, peer) res \<Rightarrow> (io_error, peer) res \<Rightarrow> chan_read list \<Rightarrow> device
   \<Rightarrow> (rstr, (rstr \<times> rstr) list) res \<times> device" where
  "enrich_via_lockdown io conn1 conn2 reads dev =
     (case fst (get_value io conn1 conn2 reads (dv_device_id dev) ENRICH_KEYS (dv_udid dev)) of
        Ok values \<Rightarrow> (let (dev', filled) = foldl fill_field (dev, []) values in (Ok filled, dev'))
      | Err e \<Rightarrow> (Err e, dev)
      | Panic \<Rightarrow> (Panic, dev))"

text \<open>The output of \<open>ideviceinfo\<close>: the first \<open>": "\<close> of a line separates key and value.\<close>

fun split_colon :: "rstr \<Rightarrow> (rstr \<times> rstr) option" where
  "split_colon [] = None"
| "split_colon (c # cs) =
     (if c = 58 \<and> cs \<noteq> [] \<and> hd cs = 32 then Some ([], tl cs)
      else map_option (\<lambda>(k, v). (c # k, v)) (split_colon cs))"

definition parse_ideviceinfo_output :: "rstr \<Rightarrow> (rstr \<rightharpoonup> rstr)" where
  "parse_ideviceinfo_output output =
     foldl (\<lambda>m line. case split_colon line of Some (k, v) \<Rightarrow> m(trim k \<mapsto> trim v) | None \<Rightarrow> m)
       Map.empty (str_lines output)"

definition or_else :: "'a option \<Rightarrow> 'a option \<Rightarrow> 'a option" where
  "or_else a b = (case a of None \<Rightarrow> b | Some x \<Rightarrow> Some x)"

text \<open>\<open>tool\<close> is the outcome of running the program: its standard output when it ended with
  success in time.\<close>

definition enrich_via_ideviceinfo :: "rstr option \<Rightarrow> device \<Rightarrow> device" where
  "enrich_via_ideviceinfo tool dev = (case tool of
     None \<Rightarrow> dev
   | Some stdout \<Rightarrow>
       (let values = parse_ideviceinfo_output stdout in
        dev\<lparr>dv_name := or_else (dv_name dev) (values (lit ''DeviceName'')),
            dv_model := or_else (dv_model dev) (map_option friendly_model (values (lit ''ProductType''))),
            dv_ios_version := or_else (dv_ios_version dev) (values (lit ''ProductVersion'')),
            dv_build_version := or_else (dv_build_version dev) (values (lit ''BuildVersion''))\<rparr>))"

definition enrich_device_info ::
  "lockdown_io \<Rightarrow> (io_error, peer) res \<Rightarrow> (io_error, peer) res \<Rightarrow> chan_read list \<Rightarrow> rstr option \<Rightarrow> device \<Rightarrow> device" where
  "enrich_device_info io conn1 conn2 reads tool dev =
     (let dev1 = snd (enrich_via_lockdown io conn1 conn2 reads dev) in
      if dv_name dev1 = None \<or> dv_ios_version dev1 = None then enrich_via_ideviceinfo tool dev1 else dev1)"

text \<open>Every device with its own connections; the futures do not share state.\<close>

definition enrich_all ::
  "lockdown_io \<Rightarrow> (nat \<Rightarrow> (io_error, peer) res \<times> (io_error, peer) res \<times> chan_read list) \<Rightarrow> device list \<Rightarrow> device list" where
  "enrich_all io conns devices =
     map (\<lambda>(i, dev). case conns i of (conn1, conn2, reads) \<Rightarrow> snd (enrich_via_lockdown io conn1 conn2 reads dev))
       (enumerate 0 devices)"

section \<open>Lemmas\<close>

lemma tls_upgrade_chan:
  assumes "tls_upgrade io pr ch = Ok ch2"
  shows "ch_tls ch2 \<and> ch_sent ch2 = ch_sent ch"
proof -
  obtain cert key where data: "get_data pr ''HostCertificate'' = Some cert" "get_data pr ''HostPrivateKey'' = Some key"
    using assms by (auto simp: tls_upgrade_def split: option.splits)
  then obtain chain parsed where "li_pem_certs io cert = Ok chain" "li_pem_key io key = Ok parsed"
    using assms by (auto simp: tls_upgrade_def res_bind_eq_Ok)
  with assms data show ?thesis by (cases parsed) (auto simp: tls_upgrade_def res_bind_eq_Ok split: option.splits)
qed

lemma read_exact_chunks:
  assumes "concat bs = xs @ ys" and "length xs = n" and "[] \<notin> set bs"
  shows "\<exists>bs'. read_exact_timeout n filled (map Chunk bs @ later) = (Ok (filled @ xs), map Chunk bs' @ later)
    \<and> concat bs' = ys \<and> [] \<notin> set bs'"
  using assms
proof (induction bs arbitrary: n xs filled)
  case Nil
  then show ?case by (intro exI [of _ "[]"]) (simp add: read_exact_timeout.simps)
next
  case (Cons b bs)
  show ?case
  proof (cases "n = 0")
    case True
    with Cons.prems show ?thesis
      by (intro exI [of _ "b # bs"]) (simp add: read_exact_timeout.simps)
  next
    case False
    show ?thesis
    proof (cases "length b \<le> n")
      case True
      then obtain xs' where xs: "xs = b @ xs'" "concat bs = xs' @ ys"
        using Cons.prems(1,2) by (auto simp: append_eq_append_conv2)
      from Cons.IH [OF xs(2), of "n - length b" "filled @ b"] Cons.prems xs True False
      show ?thesis by (subst read_exact_timeout.simps) auto
    next
      case less: False
      then have "xs = take n b" "ys = drop n b @ concat bs" 
        using Cons.prems(1,2) by (auto simp: append_eq_append_conv2)
      with less False Cons.prems show ?thesis
        by (intro exI [of _ "drop n b # bs"]) (auto simp: read_exact_timeout.simps [of n])
    qed
  qed
qed

lemma read_plist_chunks:
  assumes "concat bs = plist_frame body @ rest" and "[] \<notin> set bs" and "length body \<le> MAX_LOCKDOWN_RESPONSE"
    and "li_from_bytes io body = Ok (PDictionary d)" and "ch_in ch = map Chunk bs @ later"
  shows "\<exists>bs'. read_plist io ch = (Ok d, ch\<lparr>ch_in := map Chunk bs' @ later\<rparr>) \<and> concat bs' = rest \<and> [] \<notin> set bs'"
proof -
  let ?hdr = "be32 (word_of_nat (length body))"
  have "concat bs = ?hdr @ (body @ rest)" using assms(1) by (simp add: plist_frame_def)
  from read_exact_chunks [OF this _ assms(2), of 4 "[]" later] obtain bs1 where
    r1: "read_exact_timeout 4 [] (ch_in ch) = (Ok ?hdr, map Chunk bs1 @ later)" and bs1: "concat bs1 = body @ rest" "[] \<notin> set bs1"
    using assms(5) by auto
  from read_exact_chunks [OF bs1(1) _ bs1(2), of "length body" "[]" later] obtain bs2 where
    r2: "read_exact_timeout (length body) [] (map Chunk bs1 @ later) = (Ok body, map Chunk bs2 @ later)"
    and bs2: "concat bs2 = rest" "[] \<notin> set bs2" by auto
  have "length body < 2 ^ 32" using assms(3) by (simp add: MAX_LOCKDOWN_RESPONSE_def)
  then have "unat (word_of_nat (length body) :: u32) = length body" by (simp add: unat_of_nat)
  then have "unat (from_be32 (?hdr ! 0) (?hdr ! 1) (?hdr ! 2) (?hdr ! 3)) = length body" by (simp add: be32_def)
  with r1 r2 assms(3,4) bs2 show ?thesis
    by (intro exI [of _ bs2]) (simp add: read_plist_def Let_def)
qed

text \<open>Reading leaves the mode and the log of the channel alone; a request appends at most its own frame.\<close>

lemma read_plist_chan: "read_plist io ch = (r, ch') \<Longrightarrow> ch_tls ch' = ch_tls ch \<and> ch_sent ch' = ch_sent ch"
  by (auto simp: read_plist_def Let_def split: prod.splits res.splits if_splits option.splits)

lemma chan_request_chan:
  assumes "chan_request io req ch = (r, ch')"
  shows "ch_tls ch' = ch_tls ch \<and> (ch_sent ch' = ch_sent ch
    \<or> (\<exists>body. li_to_xml io req = Ok body \<and> ch_sent ch' = ch_sent ch @ [(ch_tls ch, plist_frame body)]))"
  using assms
  by (auto simp: chan_request_def write_plist_def write_endpoint_def dest!: read_plist_chan
      split: prod.splits res.splits option.splits)

lemma get_value_raw_chan:
  "get_value_raw io key ch = (r, ch') \<Longrightarrow> ch_tls ch' = ch_tls ch \<and> (\<exists>fs. ch_sent ch' = ch_sent ch @ map (Pair (ch_tls ch)) fs)"
  by (auto simp: get_value_raw_def split: prod.splits res.splits option.splits plist.splits if_splits
      dest!: chan_request_chan intro: exI [of _ "[]"]) (metis list.simps(8,9))+

lemma get_keys_chan:
  "get_keys io keys ch = (out, ch') \<Longrightarrow> ch_tls ch' = ch_tls ch \<and> (\<exists>fs. ch_sent ch' = ch_sent ch @ map (Pair (ch_tls ch)) fs)"
proof (induction keys arbitrary: ch out ch')
  case Nil
  then show ?case by (auto intro: exI [of _ "[]"])
next
  case (Cons key keys)
  obtain r ch1 where g: "get_value_raw io key ch = (r, ch1)" by fastforce
  obtain out2 ch2 where k: "get_keys io keys ch1 = (out2, ch2)" by fastforce
  have "ch' = ch2" using Cons.prems g k by (auto split: res.splits option.splits)
  with get_value_raw_chan [OF g] Cons.IH [OF k] show ?case by (auto simp: map_append [symmetric] simp del: map_append)
qed

lemma start_session_chan:
  assumes "start_session io pr ch = (r, ch')"
  shows "ch_tls ch' = ch_tls ch \<and> (ch_sent ch' = ch_sent ch
    \<or> (\<exists>host buid body. li_to_xml io (session_request host buid) = Ok body
         \<and> ch_sent ch' = ch_sent ch @ [(ch_tls ch, plist_frame body)]))"
  using assms
  by (auto simp: start_session_def split: prod.splits res.splits option.splits dest!: chan_request_chan)

lemma fill_field_keeps:
  "dv_udid (fst (fill_field (dev, filled) kv)) = dv_udid dev"
  "dv_device_id (fst (fill_field (dev, filled) kv)) = dv_device_id dev"
  "dv_connection_type (fst (fill_field (dev, filled) kv)) = dv_connection_type dev"
  by (cases kv; simp)+

text \<open>One device record extends another: no field that was set has changed.\<close>

definition extends :: "device \<Rightarrow> device \<Rightarrow> bool" where
  "extends dev dev' \<longleftrightarrow> dv_udid dev' = dv_udid dev \<and> dv_device_id dev' = dv_device_id dev
     \<and> dv_connection_type dev' = dv_connection_type dev
     \<and> (dv_name dev \<noteq> None \<longrightarrow> dv_name dev' = dv_name dev) \<and> (dv_model dev \<noteq> None \<longrightarrow> dv_model dev' = dv_model dev)
     \<and> (dv_ios_version dev \<noteq> None \<longrightarrow> dv_ios_version dev' = dv_ios_version dev)
     \<and> (dv_build_version dev \<noteq> None \<longrightarrow> dv_build_version dev' = dv_build_version dev)"

lemma extends_refl [simp]: "extends dev dev"
  by (simp add: extends_def)

lemma extends_trans: "extends a b \<Longrightarrow> extends b c \<Longrightarrow> extends a c"
  by (auto simp: extends_def)

lemma extends_fill: "extends dev (fst (fill_field (dev, filled) kv))"
  by (cases kv) (simp add: extends_def)

lemma extends_fill_all: "foldl fill_field (dev, filled) values = (dev', filled') \<Longrightarrow> extends dev dev'"
proof (induction "values" arbitrary: dev filled)
  case (Cons kv vs)
  obtain dev1 filled1 where f: "fill_field (dev, filled) kv = (dev1, filled1)" by fastforce
  with Cons have "extends dev1 dev'" by simp
  moreover have "extends dev dev1" using extends_fill [of dev filled kv] f by simp
  ultimately show ?case by (rule extends_trans [rotated])
qed simp

lemma extends_lockdown: "extends dev (snd (enrich_via_lockdown io conn1 conn2 reads dev))"
  using extends_fill_all by (auto simp: enrich_via_lockdown_def split: res.splits prod.splits)

lemma extends_tool: "extends dev (enrich_via_ideviceinfo tool dev)"
  by (auto simp: enrich_via_ideviceinfo_def extends_def or_else_def Let_def split: option.splits)

section \<open>Properties\<close>

text \<open>C24: Lockdown messages survive the stream. A dictionary written as a frame is read back as the
  same dictionary however the transport cuts the bytes into reads, and whatever follows the
  frame stays on the channel.\<close>

theorem lockdown_frame_survives_chunking:
  assumes "li_to_xml io d = Ok body" and "li_from_bytes io body = Ok (PDictionary d)"
    and "length body \<le> MAX_LOCKDOWN_RESPONSE" and "li_write io (plist_frame body) = None"
    and "write_plist io d ch = (r, ch')"
    and "concat bs = snd (last (ch_sent ch')) @ rest" and "[] \<notin> set bs" and "ch_in peer = map Chunk bs"
  shows "r = Ok () \<and> (\<exists>bs'. read_plist io peer = (Ok d, peer\<lparr>ch_in := map Chunk bs'\<rparr>) \<and> concat bs' = rest)"
proof -
  have "r = Ok () \<and> snd (last (ch_sent ch')) = plist_frame body"
    using assms(1,4,5) by (auto simp: write_plist_def write_endpoint_def)
  then show ?thesis using read_plist_chunks [of bs body rest io d peer "[]"] assms(2,3,6-8) by auto
qed

definition example_lockdown :: "plist \<Rightarrow> lockdown_io" where
  "example_lockdown v = \<lparr>li_to_xml = (\<lambda>_. Ok [60, 62]), li_from_bytes = (\<lambda>_. Ok v), li_from_binary = (\<lambda>_. Panic),
     li_from_xml = (\<lambda>_. Panic), li_write = (\<lambda>_. None), li_debug = (\<lambda>_. []), li_pem_certs = (\<lambda>b. Ok [b]), li_pem_key = (\<lambda>b. Ok (Some b)),
     li_provider = None, li_client_auth = (\<lambda>_ _. None), li_handshake = (\<lambda>v c k cs. Ok cs)\<rparr>"

theorem lockdown_frame_survives_chunking_witness:
  "\<exists>bs'. read_plist (example_lockdown (PDictionary (get_value_request (lit ''K''))))
       \<lparr>ch_tls = True, ch_in = [Chunk [0], Chunk [0, 0, 2, 60], Chunk [62, 9]], ch_sent = []\<rparr>
     = (Ok (get_value_request (lit ''K'')), \<lparr>ch_tls = True, ch_in = map Chunk bs', ch_sent = []\<rparr>) \<and> concat bs' = [9]"
proof -
  let ?io = "example_lockdown (PDictionary (get_value_request (lit ''K'')))"
  let ?ch = "\<lparr>ch_tls = True, ch_in = [], ch_sent = []\<rparr>"
  let ?bs = "[[0], [0, 0, 2, 60], [62, 9]] :: bytes list"
  have frame: "plist_frame [60, 62] = [0, 0, 0, 2, 60, 62]" by (simp add: plist_frame_def be32_def)
  have w: "write_plist ?io (get_value_request (lit ''K'')) ?ch = (Ok (), ?ch\<lparr>ch_sent := [(True, plist_frame [60, 62])]\<rparr>)"
    by (simp add: write_plist_def write_endpoint_def example_lockdown_def)
  have "concat ?bs = snd (last (ch_sent (?ch\<lparr>ch_sent := [(True, plist_frame [60, 62])]\<rparr>))) @ [9]"
    by (simp add: frame)
  from lockdown_frame_survives_chunking [OF _ _ _ _ w this, of "[60, 62]" "\<lparr>ch_tls = True, ch_in = map Chunk ?bs, ch_sent = []\<rparr>"]
  show ?thesis by (simp add: example_lockdown_def MAX_LOCKDOWN_RESPONSE_def)
qed

text \<open>C16: An encrypted session asks for no value in the clear. Once the device has answered the
  session request by enabling encryption, every frame written after it goes over the upgraded
  channel, and the only frame in the clear is the session request itself; when the upgrade
  fails nothing more is written.\<close>

theorem no_plaintext_queries:
  fixes reads rest
  defines "ch0 \<equiv> \<lparr>ch_tls = False, ch_in = (if rest = [] then reads else Chunk rest # reads), ch_sent = []\<rparr>"
  assumes "connect_lockdown io conn1 device_id = Ok rest" and "mux_read_pair_record io conn2 udid = Ok pr"
    and "start_session io pr ch0 = (Ok True, ch1)"
    and "get_value io conn1 conn2 reads device_id keys udid = (r, log)"
  shows "\<exists>host buid body fs. li_to_xml io (session_request host buid) = Ok body
     \<and> log = (False, plist_frame body) # map (Pair True) fs"
proof -
  have "ch_sent ch1 \<noteq> []" using assms(4)
    by (auto simp: ch0_def start_session_def chan_request_def write_plist_def write_endpoint_def dest!: read_plist_chan
        split: option.splits res.splits prod.splits)
  then obtain host buid body where first: "li_to_xml io (session_request host buid) = Ok body"
    "ch_sent ch1 = [(False, plist_frame body)]"
    using start_session_chan [OF assms(4)] by (auto simp: ch0_def)
  have "\<exists>fs. log = ch_sent ch1 @ map (Pair True) fs"
  proof (cases "tls_upgrade io pr ch1")
    case (Ok ch2)
    then have ch2: "ch_tls ch2" "ch_sent ch2 = ch_sent ch1"
      using tls_upgrade_chan by blast+
    obtain out ch3 where k: "get_keys io keys ch2 = (out, ch3)" by fastforce
    then have "log = ch_sent ch3" using assms(2-5) Ok by (simp add: get_value_def Let_def ch0_def)
    with get_keys_chan [OF k] ch2 show ?thesis by simp
  qed (use assms(2-5) in \<open>auto simp: get_value_def Let_def ch0_def intro: exI [of _ "[]"]\<close>)
  with first show ?thesis by auto
qed

definition example_record :: dictionary where
  "example_record = [(lit ''HostID'', PString (lit ''H'')), (lit ''SystemBUID'', PString (lit ''B'')),
     (lit ''HostCertificate'', PData [1]), (lit ''HostPrivateKey'', PData [2])]"

definition example_session :: lockdown_io where
  "example_session = \<lparr>li_to_xml = (\<lambda>_. Ok [60, 62]),
     li_from_bytes = (\<lambda>b. if b = [7] then Ok (PDictionary example_record)
        else Ok (PDictionary [(lit ''EnableSessionSSL'', PBoolean True), (lit ''Value'', PString (lit ''x''))])),
     li_from_binary = (\<lambda>_. Panic),
     li_from_xml = (\<lambda>b. if b = [61] then Ok (rp_plist (record_reply 2 [7])) else Ok (rp_plist (make_result_response 1 0))),
     li_write = (\<lambda>_. None), li_debug = (\<lambda>_. []), li_pem_certs = (\<lambda>b. Ok [b]), li_pem_key = (\<lambda>b. Ok (Some b)),
     li_provider = None, li_client_auth = (\<lambda>_ _. None), li_handshake = (\<lambda>v c k cs. Ok cs)\<rparr>"

text \<open>A peer that answers with one packet.\<close>

definition answering :: "bytes \<Rightarrow> raw_packet \<Rightarrow> (io_error, peer) res" where
  "answering xml p = Ok (\<lambda>_. Ok (packet_bytes (\<lambda>_. Ok xml) p))"

lemma exchange_answering:
  assumes "li_to_xml io (rp_plist q) = Ok b" and "li_from_xml io xml = Ok (rp_plist p)" and "xml \<noteq> []" "hd xml \<noteq> 98"
    and "length xml + 16 < 2 ^ 32" and "length xml \<le> mx"
  shows "\<exists>n. mux_exchange io mx (answering xml p) q = Ok (p\<lparr>rp_size := n\<rparr>, [])"
proof -
  have "readable (\<lambda>_. Ok xml) (li_from_xml io) mx p"
    using assms(2-6) by (auto simp: readable_def xml_roundtrip_def)
  from read_readable [OF this, of "li_from_binary io" "[]"] show ?thesis
    using assms(1) by (auto simp: mux_exchange_def answering_def write_packet_def write_to_def)
qed

theorem no_plaintext_queries_witness:
  "\<exists>fs. snd (get_value example_session (answering [60] (make_result_response 1 0)) (answering [61] (record_reply 2 [7]))
       [Chunk (plist_frame [62]), Chunk (plist_frame [62])] 1 [lit ''DeviceName''] (lit ''AB''))
     = (False, plist_frame [60, 62]) # map (Pair True) fs"
proof -
  let ?io = example_session
  let ?reads = "[Chunk (plist_frame [62]), Chunk (plist_frame [62])]"
  have "mux_exchange ?io (64 * 1024) (answering [60] (make_result_response 1 0)) (lockdown_connect_packet 1)
      = Ok (make_result_response 1 0\<lparr>rp_size := n\<rparr>, []) \<Longrightarrow>
      connect_lockdown ?io (answering [60] (make_result_response 1 0)) 1 = Ok []" for n
    by (simp add: connect_lockdown_def make_result_response_def raw_packet_new_def get_unsigned_def)
  then have conn: "connect_lockdown ?io (answering [60] (make_result_response 1 0)) 1 = Ok []"
    using exchange_answering [of ?io "lockdown_connect_packet 1" "[60, 62]" "[60]" "make_result_response 1 0" "64 * 1024"]
    by (auto simp: example_session_def)
  have "mux_exchange ?io (16 * 1024 * 1024) (answering [61] (record_reply 2 [7])) (read_record_packet (lit ''AB''))
      = Ok (record_reply 2 [7]\<lparr>rp_size := n\<rparr>, []) \<Longrightarrow>
      mux_read_pair_record ?io (answering [61] (record_reply 2 [7])) (lit ''AB'') = Ok example_record" for n
    by (simp add: mux_read_pair_record_def record_reply_def raw_packet_new_def get_data_def example_session_def)
  then have rec: "mux_read_pair_record ?io (answering [61] (record_reply 2 [7])) (lit ''AB'') = Ok example_record"
    using exchange_answering [of ?io "read_record_packet (lit ''AB'')" "[60, 62]" "[61]" "record_reply 2 [7]" "16 * 1024 * 1024"]
    by (auto simp: example_session_def)
  define ch where "ch = \<lparr>ch_tls = False, ch_in = ?reads, ch_sent = [(False, plist_frame [60, 62])]\<rparr>"
  have "ch_in ch = map Chunk [plist_frame [62], plist_frame [62]] @ []" "[] \<notin> set [plist_frame [62], plist_frame [62]]"
    by (simp_all add: ch_def plist_frame_def be32_def)
  then obtain ch1 where "read_plist ?io ch
      = (Ok [(lit ''EnableSessionSSL'', PBoolean True), (lit ''Value'', PString (lit ''x''))], ch1)"
    using read_plist_chunks [of "[plist_frame [62], plist_frame [62]]" "[62]" "plist_frame [62]" ?io
        "[(lit ''EnableSessionSSL'', PBoolean True), (lit ''Value'', PString (lit ''x''))]" ch "[]"]
    by (auto simp: example_session_def MAX_LOCKDOWN_RESPONSE_def)
  moreover have "write_plist ?io d c = (Ok (), c\<lparr>ch_sent := ch_sent c @ [(ch_tls c, plist_frame [60, 62])]\<rparr>)" for d c
    by (simp add: write_plist_def write_endpoint_def example_session_def)
  ultimately have "start_session ?io example_record \<lparr>ch_tls = False, ch_in = (if [] = [] then ?reads else Chunk [] # ?reads), ch_sent = []\<rparr>
      = (Ok True, ch1)"
    by (simp add: start_session_def example_record_def get_string_def chan_request_def ch_def)
  from no_plaintext_queries [OF conn rec this, of "[lit ''DeviceName'']"] show ?thesis
    by (cases "get_value ?io (answering [60] (make_result_response 1 0)) (answering [61] (record_reply 2 [7]))
       ?reads 1 [lit ''DeviceName''] (lit ''AB'')") (fastforce simp: example_session_def)
qed

text \<open>C36: A late answer is taken for that of another key. When the read of one key's answer times
  out, the loop goes on to the next key; if the answer then arrives, it is reported as the value
  of the next key, although it names the first one.\<close>

theorem late_answer_misattributed:
  assumes "\<forall>d. \<exists>body. li_to_xml io d = Ok body" and "li_write io = (\<lambda>_. None)"
    and "length body \<le> MAX_LOCKDOWN_RESPONSE"
    and "li_from_bytes io body = Ok (PDictionary resp)" and "dict_get resp (lit ''Key'') = Some (PString k1)"
    and "dict_get resp (lit ''Value'') = Some (PString v)" and "dict_get resp (lit ''Error'') = None"
  shows "\<exists>ch'. get_keys io [k1, k2] \<lparr>ch_tls = tls, ch_in = [ReadTimeout, Chunk (plist_frame body)], ch_sent = []\<rparr> = ([(k2, v)], ch')"
proof -
  obtain b1 b2 where x: "li_to_xml io (get_value_request k1) = Ok b1" "li_to_xml io (get_value_request k2) = Ok b2"
    using assms(1) by blast
  let ?ch = "\<lparr>ch_tls = tls, ch_in = [ReadTimeout, Chunk (plist_frame body)], ch_sent = []\<rparr>"
  let ?ch1 = "\<lparr>ch_tls = tls, ch_in = [Chunk (plist_frame body)], ch_sent = [(tls, plist_frame b1)]\<rparr>"
  let ?ch2 = "?ch1\<lparr>ch_sent := ch_sent ?ch1 @ [(tls, plist_frame b2)]\<rparr>"
  have first: "get_value_raw io k1 ?ch = (Err (lit ''lockdown read timed out''), ?ch1)"
    using x assms(2) by (simp add: get_value_raw_def chan_request_def write_plist_def write_endpoint_def read_plist_def
        read_exact_timeout.simps)
  have ne: "[] \<notin> set [plist_frame body]" by (simp add: plist_frame_def be32_def)
  obtain bs' where "read_plist io ?ch2 = (Ok resp, ?ch2\<lparr>ch_in := map Chunk bs' @ []\<rparr>)"
    using read_plist_chunks [of "[plist_frame body]" body "[]" io resp ?ch2 "[]"] assms(3,4) ne by auto
  then have "get_value_raw io k2 ?ch1 = (Ok (Some v), ?ch2\<lparr>ch_in := map Chunk bs' @ []\<rparr>)"
    using x assms(2,6,7) by (simp add: get_value_raw_def chan_request_def write_plist_def write_endpoint_def get_string_def)
  with first show ?thesis by simp
qed

theorem late_answer_misattributed_witness:
  "\<exists>ch'. get_keys (example_lockdown (PDictionary [(lit ''Key'', PString (lit ''DeviceName'')), (lit ''Value'', PString (lit ''phone''))]))
       [lit ''DeviceName'', lit ''ProductType'']
       \<lparr>ch_tls = True, ch_in = [ReadTimeout, Chunk (plist_frame [60, 62])], ch_sent = []\<rparr>
     = ([(lit ''ProductType'', lit ''phone'')], ch')"
  by (rule late_answer_misattributed [where resp = "[(lit ''Key'', PString (lit ''DeviceName'')), (lit ''Value'', PString (lit ''phone''))]"])
     (simp_all add: example_lockdown_def MAX_LOCKDOWN_RESPONSE_def)

text \<open>Enrichment only fills gaps. Whatever the device, the daemon and the external tool answer,
  the identity of the device record stays and no field that was already known is overwritten,
  neither by the lockdown values nor by the fallback.\<close>

theorem enrichment_fills_gaps:
  "extends dev (enrich_device_info io conn1 conn2 reads tool dev)"
  using extends_lockdown [of dev io conn1 conn2 reads]
    extends_trans [OF extends_lockdown [of dev io conn1 conn2 reads] extends_tool [of _ tool]]
  by (simp add: enrich_device_info_def Let_def)

end
