(* ===== verification/Tunnel.thy ===== *)
theory Tunnel
  imports Lockdown_Client
begin

unbundle bit_operations_syntax

text \<open>
  The TCP tunnel (\<open>tunnel.rs\<close>): parsing of the port pairs, binding the local listeners, and one
  tunnelled connection, which asks the daemon for a device if none is given, connects to the
  device port and copies bytes both ways. The connection to the daemon carries up to two
  requests: it is a function from the requests written so far to the bytes that arrive after
  the last of them. The copy belongs to \<open>tokio\<close>; its outcome is an argument.

  The theorems: the port pairs read are those printed, the connect packet names the device and
  port the daemon then sees, and the search for a device cannot succeed against this daemon.
\<close>

section \<open>Port pairs\<close>

fun split_once :: "nat \<Rightarrow> rstr \<Rightarrow> (rstr \<times> rstr) option" where
  "split_once c [] = None"
| "split_once c (x # s) = (if x = c then Some ([], s) else map_option (\<lambda>(l, r). (x # l, r)) (split_once c s))"

definition parse_u16 :: "rstr \<Rightarrow> u16 option" where
  "parse_u16 s = map_option word_of_nat (parse_uint 10 65535 s)"

definition quoted :: "rstr \<Rightarrow> rstr" where
  "quoted s = 39 # s @ [39]"

definition parse_pair :: "rstr \<Rightarrow> (rstr, u16 \<times> u16) res" where
  "parse_pair s = (case split_once 58 s of
     None \<Rightarrow> Err (lit ''invalid pair '' @ quoted s @ [32, 8212] @ lit '' expected local:device'')
   | Some (l, d) \<Rightarrow>
       (case parse_u16 l of
          None \<Rightarrow> Err (lit ''invalid local port in '' @ quoted s)
        | Some lp \<Rightarrow>
            (case parse_u16 d of
               None \<Rightarrow> Err (lit ''invalid device port in '' @ quoted s)
             | Some dp \<Rightarrow> if lp = 0 \<or> dp = 0 then Err (lit ''ports must be non-zero in '' @ quoted s) else Ok (lp, dp))))"

text \<open>Collecting into a result stops at the first error.\<close>

fun parse_pairs :: "rstr list \<Rightarrow> (rstr, (u16 \<times> u16) list) res" where
  "parse_pairs [] = Ok []"
| "parse_pairs (s # ss) = res_bind (parse_pair s) (\<lambda>p. res_bind (parse_pairs ss) (\<lambda>ps. Ok (p # ps)))"

section \<open>Listeners\<close>

text \<open>\<open>bind\<close> is the outcome of binding a local port.\<close>

fun bind_all :: "(u16 \<Rightarrow> (rstr, unit) res) \<Rightarrow> (u16 \<times> u16) list \<Rightarrow> (rstr, (u16 \<times> u16) list) res" where
  "bind_all bind [] = Ok []"
| "bind_all bind ((lp, dp) # pairs) = res_bind (bind lp) (\<lambda>_. res_bind (bind_all bind pairs) (\<lambda>ls. Ok ((lp, dp) # ls)))"

definition tunnel_listen :: "(u16 \<Rightarrow> (rstr, unit) res) \<Rightarrow> (u16 \<times> u16) list \<Rightarrow> (rstr, (u16 \<times> u16) list) res" where
  "tunnel_listen bind pairs =
     (if pairs = [] then Err (lit ''at least one local:device port pair is required'') else bind_all bind pairs)"

section \<open>One connection\<close>

type_synonym talk = "bytes list \<Rightarrow> (io_error, bytes) res"

record mux_conn =
  mc_sent :: "bytes list"
  mc_pending :: bytes

definition mux_request :: "lockdown_io \<Rightarrow> talk \<Rightarrow> usize \<Rightarrow> raw_packet \<Rightarrow> mux_conn \<Rightarrow> (rstr, raw_packet \<times> mux_conn) res" where
  "mux_request io talk mx pkt mc =
     map_err err_text (res_bind (write_packet (li_to_xml io) pkt) (\<lambda>bs.
       res_bind (talk (mc_sent mc @ [bs])) (\<lambda>arrived.
       res_bind (read_packet (li_from_binary io) (li_from_xml io) mx (mc_pending mc @ arrived)) (\<lambda>(resp, rest).
       Ok (resp, \<lparr>mc_sent = mc_sent mc @ [bs], mc_pending = rest\<rparr>)))))"

definition list_packet :: raw_packet where
  "list_packet =
     raw_packet_new
       (dict_insert (lit ''kLibUSBMuxVersion'') (PInteger 3)
         (dict_insert (lit ''ProgName'') (PString (lit ''meridian-relay''))
           (dict_insert (lit ''ClientVersion'') (PInteger 1)
             (dict_insert (lit ''MessageType'') (PString (lit ''ListDevices'')) []))))
       XML_PLIST_VERSION PLIST_MESSAGE_TYPE 1"

text \<open>The device number of the first entry, read from the entry itself.\<close>

definition first_device :: "dictionary \<Rightarrow> (rstr, u32) res" where
  "first_device d = (case Option.bind (dict_get d (lit ''DeviceList'')) as_array of
     None \<Rightarrow> Err (lit ''no DeviceList in upstream reply'')
   | Some list \<Rightarrow>
       (case list of
          [] \<Rightarrow> Err (lit ''no devices connected'')
        | v # vs \<Rightarrow>
            (case Option.bind (as_dictionary v) (\<lambda>e. get_unsigned e ''DeviceID'') of
               None \<Rightarrow> Err (lit ''no devices connected'')
             | Some n \<Rightarrow> Ok (word_of_nat n))))"

definition resolve_first_device :: "lockdown_io \<Rightarrow> talk \<Rightarrow> mux_conn \<Rightarrow> (rstr, u32 \<times> mux_conn) res" where
  "resolve_first_device io talk mc =
     res_bind (mux_request io talk (16 * 1024 * 1024) list_packet mc) (\<lambda>(resp, mc1).
     res_bind (first_device (rp_plist resp)) (\<lambda>i. Ok (i, mc1)))"

definition tunnel_packet :: "u32 \<Rightarrow> u16 \<Rightarrow> raw_packet" where
  "tunnel_packet device_id dport =
     raw_packet_new
       (dict_insert (lit ''PortNumber'') (PInteger (uint (swap16 dport)))
         (dict_insert (lit ''kLibUSBMuxVersion'') (PInteger 3)
           (dict_insert (lit ''ProgName'') (PString (lit ''meridian-relay''))
             (dict_insert (lit ''ClientVersion'') (PInteger 7)
               (dict_insert (lit ''DeviceID'') (PInteger (uint device_id))
                 (dict_insert (lit ''MessageType'') (PString (lit ''Connect'')) []))))))
       XML_PLIST_VERSION PLIST_MESSAGE_TYPE 1"

text \<open>\<open>copied\<close> is the outcome of the bidirectional copy.\<close>

definition handle_one ::
  "lockdown_io \<Rightarrow> (io_error, talk) res \<Rightarrow> u32 option \<Rightarrow> u16 \<Rightarrow> (io_error, u64 \<times> u64) res \<Rightarrow> metrics
   \<Rightarrow> (rstr, unit) res \<times> metrics" where
  "handle_one io conn device_id dport copied m0 =
     (let m = m0\<lparr>clients_accepted := clients_accepted m0 + 1\<rparr> in
      case res_bind (map_err err_text conn) (\<lambda>talk.
           res_bind (case device_id of
                       Some i \<Rightarrow> Ok (i, \<lparr>mc_sent = [], mc_pending = []\<rparr>)
                     | None \<Rightarrow> resolve_first_device io talk \<lparr>mc_sent = [], mc_pending = []\<rparr>) (\<lambda>(i, mc).
           res_bind (mux_request io talk (64 * 1024) (tunnel_packet i dport) mc) (\<lambda>(resp, mc1).
           let num = (case get_unsigned (rp_plist resp) ''Number'' of Some n \<Rightarrow> n | None \<Rightarrow> 1) in
           if num \<noteq> 0 then Err (lit ''device rejected Connect with code '' @ show_nat num) else Ok ()))) of
        Err e \<Rightarrow> (Err e, m)
      | Panic \<Rightarrow> (Panic, m)
      | Ok _ \<Rightarrow>
          (let m1 = m\<lparr>connects_total := connects_total m + 1\<rparr> in
           case copied of
             Ok (c2d, d2c) \<Rightarrow>
               (Ok (), m1\<lparr>client_rx_bytes := client_rx_bytes m1 + c2d, client_tx_bytes := client_tx_bytes m1 + d2c\<rparr>)
           | Err e \<Rightarrow> (Err (err_text e), m1)
           | Panic \<Rightarrow> (Panic, m1)))"

section \<open>The accept loop\<close>

text \<open>
  One element per connection that some listener reports: which listener, the outcome of its
  \<open>accept\<close> (a failure is a panic, by \<open>expect\<close>) and what the spawned task meets: the connection to
  the daemon and the outcome of the copy. The loop has no other end; \<open>None\<close> says that it still
  runs. The tasks share the metrics; their results are only logged.
\<close>

record tunnel_accept =
  ta_listener :: nat
  ta_accepted :: "rstr option"
  ta_daemon :: "(io_error, talk) res"
  ta_copied :: "(io_error, u64 \<times> u64) res"

definition accept_any :: "(u16 \<times> u16) list \<Rightarrow> tunnel_accept \<Rightarrow> (rstr, u16) res" where
  "accept_any listeners ev =
     (if ta_accepted ev = None \<and> ta_listener ev < length listeners then Ok (snd (listeners ! ta_listener ev)) else Panic)"

fun tunnel_loop ::
  "lockdown_io \<Rightarrow> u32 option \<Rightarrow> (u16 \<times> u16) list \<Rightarrow> metrics \<Rightarrow> tunnel_accept list
   \<Rightarrow> (rstr, unit) res option \<times> (u16 \<times> (rstr, unit) res) list \<times> metrics" where
  "tunnel_loop io device_id listeners m [] = (None, [], m)"
| "tunnel_loop io device_id listeners m (ev # evs) =
     (case accept_any listeners ev of
        Ok dport \<Rightarrow>
          (let (r, m1) = handle_one io (ta_daemon ev) device_id dport (ta_copied ev) m;
               (fin, spawned, m2) = tunnel_loop io device_id listeners m1 evs
           in (fin, (dport, r) # spawned, m2))
      | _ \<Rightarrow> (Some Panic, [], m))"

definition tunnel_run ::
  "lockdown_io \<Rightarrow> (u16 \<Rightarrow> (rstr, unit) res) \<Rightarrow> (u16 \<times> u16) list \<Rightarrow> u32 option \<Rightarrow> tunnel_accept list
   \<Rightarrow> (rstr, unit) res option \<times> (u16 \<times> (rstr, unit) res) list \<times> metrics" where
  "tunnel_run io bind pairs device_id evs =
     (case tunnel_listen bind pairs of
        Ok listeners \<Rightarrow> tunnel_loop io device_id listeners (metrics_new 0) evs
      | Err e \<Rightarrow> (Some (Err e), [], metrics_new 0)
      | Panic \<Rightarrow> (Some Panic, [], metrics_new 0))"

section \<open>Lemmas\<close>

lemma bind_all_Ok: "bind_all bind pairs = Ok ls \<Longrightarrow> ls = pairs"
  by (induction pairs arbitrary: ls) (auto simp: res_bind_eq_Ok)

lemma tunnel_loop_spawned:
  assumes "tunnel_loop io device_id listeners m evs = (r, spawned, m')"
  shows "\<exists>n. n \<le> length evs \<and> map fst spawned = map (\<lambda>ev. snd (listeners ! ta_listener ev)) (take n evs)
    \<and> clients_accepted m' = clients_accepted m + word_of_nat n
    \<and> (if \<forall>ev \<in> set evs. ta_accepted ev = None \<and> ta_listener ev < length listeners
        then r = None \<and> n = length evs else r = Some Panic)"
  using assms
proof (induction evs arbitrary: m spawned m' r)
  case (Cons ev evs)
  show ?case
  proof (cases "ta_accepted ev = None \<and> ta_listener ev < length listeners")
    case True
    obtain r1 m1 where one: "handle_one io (ta_daemon ev) device_id (snd (listeners ! ta_listener ev)) (ta_copied ev) m = (r1, m1)"
      by fastforce
    then have m1: "clients_accepted m1 = clients_accepted m + 1"
      by (auto simp: handle_one_def Let_def split: res.splits prod.splits)
    obtain r2 sp2 m2 where rest: "tunnel_loop io device_id listeners m1 evs = (r2, sp2, m2)" by (metis surj_pair)
    with Cons.prems True one have eq: "r = r2" "spawned = (snd (listeners ! ta_listener ev), r1) # sp2" "m' = m2"
      by (auto simp: accept_any_def)
    from Cons.IH [OF rest] obtain n where "n \<le> length evs" "map fst sp2 = map (\<lambda>ev. snd (listeners ! ta_listener ev)) (take n evs)"
      "clients_accepted m2 = clients_accepted m1 + word_of_nat n"
      "if \<forall>ev \<in> set evs. ta_accepted ev = None \<and> ta_listener ev < length listeners then r2 = None \<and> n = length evs else r2 = Some Panic"
      by blast
    with eq m1 True show ?thesis by (intro exI [of _ "Suc n"]) (auto simp: algebra_simps split: if_splits)
  next
    case False
    with Cons.prems show ?thesis by (intro exI [of _ 0]) (auto simp: accept_any_def)
  qed
qed simp

lemma split_once_first: "c \<notin> set l \<Longrightarrow> split_once c (l @ c # r) = Some (l, r)"
  by (induction l) auto

lemma swap16_swap16 [simp]: "swap16 (swap16 w) = w"
  unfolding swap16_def by (rule bit_word_eqI) (auto simp: bit_simps)

lemma show_nat_no_colon: "58 \<notin> set (show_nat n)"
  using show_nat_digits [of _ n] by fastforce

lemma parse_u16_show: "parse_u16 (show_nat (unat w)) = Some w"
proof -
  have "unat w < 2 ^ LENGTH(16)" by (rule unsigned_less)
  then have "unat w \<le> 65535" by simp
  then show ?thesis by (simp add: parse_u16_def parse_uint_show_nat)
qed

definition show_pair :: "u16 \<times> u16 \<Rightarrow> rstr" where
  "show_pair = (\<lambda>(lp, dp). show_nat (unat lp) @ 58 # show_nat (unat dp))"

lemma parse_pair_show: "lp \<noteq> 0 \<Longrightarrow> dp \<noteq> 0 \<Longrightarrow> parse_pair (show_pair (lp, dp)) = Ok (lp, dp)"
  by (simp add: parse_pair_def show_pair_def split_once_first show_nat_no_colon parse_u16_show)

lemma parse_pair_ports: "parse_pair s = Ok (lp, dp) \<Longrightarrow> lp \<noteq> 0 \<and> dp \<noteq> 0"
  by (auto simp: parse_pair_def split: option.splits if_splits)

lemma parse_pairs_ports:
  "parse_pairs args = Ok qs \<Longrightarrow> length qs = length args \<and> (\<forall>(lp, dp) \<in> set qs. lp \<noteq> 0 \<and> dp \<noteq> 0)"
proof (induction args arbitrary: qs)
  case (Cons s ss)
  then obtain lp dp rest where "parse_pair s = Ok (lp, dp)" "parse_pairs ss = Ok rest" "qs = (lp, dp) # rest"
    by (auto simp: res_bind_eq_Ok)
  with Cons.IH [of rest] parse_pair_ports [of s lp dp] show ?case by simp
qed simp

section \<open>Properties\<close>

text \<open>Port pairs are read as they are written: printing any list of pairs of non-zero ports and
  parsing it gives the list back, and whatever is accepted has non-zero ports only, one pair
  per argument.\<close>

theorem port_pairs_roundtrip:
  "((\<forall>(lp, dp) \<in> set ps. lp \<noteq> 0 \<and> dp \<noteq> 0) \<longrightarrow> parse_pairs (map show_pair ps) = Ok ps)
   \<and> (parse_pairs args = Ok qs \<longrightarrow> length qs = length args \<and> (\<forall>(lp, dp) \<in> set qs. lp \<noteq> 0 \<and> dp \<noteq> 0))"
proof -
  have "(\<forall>(lp, dp) \<in> set ps. lp \<noteq> 0 \<and> dp \<noteq> 0) \<longrightarrow> parse_pairs (map show_pair ps) = Ok ps"
    by (induction ps) (auto simp: parse_pair_show)
  then show ?thesis using parse_pairs_ports by blast
qed

theorem port_pairs_roundtrip_witness:
  "parse_pairs (map show_pair [(9100, 8100), (1, 65535)]) = Ok [(9100, 8100), (1, 65535)]"
  using port_pairs_roundtrip [of "[(9100, 8100), (1, 65535)]" "[]" "[]"] by simp

text \<open>The requests of the tunnel and of the lockdown client mean to the daemon what they mean to
  the client: the device number and the port (sent in network byte order) that the daemon's
  Connect command extracts are those the client put in, for every device and port.\<close>

theorem connect_request_understood:
  "get_device_id (tunnel_packet i dport) = i \<and> get_port (tunnel_packet i dport) = dport
   \<and> message_type (tunnel_packet i dport) = Some (PString (lit ''Connect''))
   \<and> get_device_id (lockdown_connect_packet i) = i \<and> get_port (lockdown_connect_packet i) = LOCKDOWN_PORT
   \<and> message_type (lockdown_connect_packet i) = Some (PString (lit ''Connect''))"
  by (simp add: tunnel_packet_def lockdown_connect_packet_def raw_packet_new_def get_device_id_def get_port_def message_type_def)

text \<open>Every connection accepted on a local port is tunnelled to the device port paired with it on
  the command line, in order and counted; and the tunnel never ends by itself, but one failing
  accept brings all of it down with a panic.\<close>

theorem tunnel_routes_by_port:
  assumes "tunnel_run io bind pairs device_id evs = (r, spawned, m)" and "tunnel_listen bind pairs = Ok listeners"
  shows "listeners = pairs
    \<and> (\<exists>n \<le> length evs. map fst spawned = map (\<lambda>ev. snd (pairs ! ta_listener ev)) (take n evs)
        \<and> clients_accepted m = word_of_nat n)
    \<and> (r = None \<longleftrightarrow> (\<forall>ev \<in> set evs. ta_accepted ev = None \<and> ta_listener ev < length pairs))
    \<and> (r \<noteq> None \<longrightarrow> r = Some Panic)"
proof -
  have ls: "listeners = pairs" using assms(2) bind_all_Ok by (auto simp: tunnel_listen_def split: if_splits)
  then have run: "tunnel_loop io device_id pairs (metrics_new 0) evs = (r, spawned, m)"
    using assms by (simp add: tunnel_run_def)
  show ?thesis using ls tunnel_loop_spawned [OF run] by (auto simp: metrics_new_def split: if_splits)
qed

text \<open>The tunnel finds no device. The daemon's list carries the device number inside the
  properties of an entry, where the tunnel does not look: whatever devices are attached, a
  tunnel without an explicit device number fails and never asks for a connection.\<close>

theorem tunnel_finds_no_device:
  assumes "li_to_xml io (rp_plist list_packet) = Ok xml"
    and "talk [packet_bytes (li_to_xml io) list_packet] = Ok (packet_bytes (li_to_xml io) (make_device_list_response 1 devs))"
    and "readable (li_to_xml io) (li_from_xml io) (16 * 1024 * 1024) (make_device_list_response 1 devs)"
  shows "handle_one io (Ok talk) None dport copied m
     = (Err (lit ''no devices connected''), m\<lparr>clients_accepted := clients_accepted m + 1\<rparr>)"
proof -
  obtain n where rd: "read_packet (li_from_binary io) (li_from_xml io) (16 * 1024 * 1024)
      (packet_bytes (li_to_xml io) (make_device_list_response 1 devs)) = Ok (make_device_list_response 1 devs\<lparr>rp_size := n\<rparr>, [])"
    using read_readable [OF assms(3), of "li_from_binary io" "[]"] by auto
  obtain bs where w: "write_packet (li_to_xml io) list_packet = Ok bs" "packet_bytes (li_to_xml io) list_packet = bs"
    using assms(1) by (auto simp: write_packet_def write_to_def packet_bytes_def)
  have "first_device (rp_plist (make_device_list_response 1 devs)) = Err (lit ''no devices connected'')"
    by (cases devs) (simp_all add: first_device_def make_device_list_response_def raw_packet_new_def get_unsigned_def)
  then have "resolve_first_device io talk \<lparr>mc_sent = [], mc_pending = []\<rparr> = Err (lit ''no devices connected'')"
    using rd w assms(2) by (simp add: resolve_first_device_def mux_request_def)
  then show ?thesis by (simp add: handle_one_def Let_def)
qed

theorem tunnel_finds_no_device_witness:
  "fst (handle_one (example_lockdown (PBoolean True)\<lparr>li_from_xml := \<lambda>_. Ok (rp_plist (make_device_list_response 1 [example_usb]))\<rparr>)
     (Ok (\<lambda>_. Ok (packet_bytes (\<lambda>_. Ok [60, 62]) (make_device_list_response 1 [example_usb])))) None 80 (Ok (0, 0)) (metrics_new 0))
   = Err (lit ''no devices connected'')"
proof -
  let ?io = "example_lockdown (PBoolean True)\<lparr>li_from_xml := \<lambda>_. Ok (rp_plist (make_device_list_response 1 [example_usb]))\<rparr>"
  have "handle_one ?io (Ok (\<lambda>_. Ok (packet_bytes (\<lambda>_. Ok [60, 62]) (make_device_list_response 1 [example_usb])))) None 80 (Ok (0, 0)) (metrics_new 0)
      = (Err (lit ''no devices connected''), (metrics_new 0)\<lparr>clients_accepted := clients_accepted (metrics_new 0) + 1\<rparr>)"
    by (rule tunnel_finds_no_device [where devs = "[example_usb]" and xml = "[60, 62]"])
       (simp_all add: example_lockdown_def readable_def xml_roundtrip_def)
  then show ?thesis by simp
qed

end
