(* ===== verification/Daemon_Server.thy ===== *)
theory Daemon_Server
  imports Client_Handler
begin

text \<open>
  The daemon around the components: start and shutdown with the life of the socket file, the
  accept loop with its limit on clients, and the two back ends, from \<open>daemon/mod.rs\<close>
  (\<open>run_daemon_inner\<close>), \<open>daemon/relay.rs\<close> and \<open>platform/unix.rs\<close>. A spawned handler holds one
  permit of the semaphore until it is done; what it does is the client handler's session, or in
  relay mode a byte splice to the upstream service (\<open>tokio::io::copy_bidirectional\<close>, whose
  outcome is an argument).

  The locale \<open>admission\<close> is the contract of an accept loop with a limit; both back ends are
  interpretations. The theorems: never more handlers than the limit, a client is turned away
  only at the limit, and the socket file exists with the configured mode exactly while the
  daemon runs.
\<close>

section \<open>The socket file\<close>

datatype fs_node = SocketFile u32 "u32 option" | OtherFile

type_synonym file_system = "rstr \<rightharpoonup> fs_node"

text \<open>The outcomes of the system calls of a start: removal of a stale socket, \<open>bind\<close> with the mode
  the kernel gives a new socket, \<open>chmod\<close> and \<open>chown\<close>, and the group file.\<close>

record start_io =
  si_remove :: "(io_error, unit) res"
  si_bind :: "(io_error, unit) res"
  si_umask_mode :: u32
  si_chmod :: "(io_error, unit) res"
  si_chown :: "(io_error, unit) res"
  si_etc_group :: "rstr option"

definition set_mode :: "rstr \<Rightarrow> u32 \<Rightarrow> file_system \<Rightarrow> file_system" where
  "set_mode path mode fs = (case fs path of Some (SocketFile m g) \<Rightarrow> fs(path \<mapsto> SocketFile mode g) | _ \<Rightarrow> fs)"

definition set_group :: "rstr \<Rightarrow> u32 \<Rightarrow> file_system \<Rightarrow> file_system" where
  "set_group path gid fs = (case fs path of Some (SocketFile m g) \<Rightarrow> fs(path \<mapsto> SocketFile m (Some gid)) | _ \<Rightarrow> fs)"

definition apply_endpoint_security ::
  "start_io \<Rightarrow> rstr \<Rightarrow> u32 \<Rightarrow> u32 option \<Rightarrow> file_system \<Rightarrow> (io_error, unit) res \<times> file_system" where
  "apply_endpoint_security io path mode gid fs =
     (case si_chmod io of
        Ok _ \<Rightarrow>
          (let fs1 = set_mode path mode fs in
           case gid of
             None \<Rightarrow> (Ok (), fs1)
           | Some g \<Rightarrow>
               if 0 \<in> set path then (Err (Io InvalidInput (lit ''nul byte found in provided data'')), fs1)
               else (case si_chown io of Ok _ \<Rightarrow> (Ok (), set_group path g fs1) | r \<Rightarrow> (r, fs1)))
      | r \<Rightarrow> (r, fs))"

text \<open>\<open>TransportListener::bind\<close> on unix.\<close>

definition bind_listener :: "start_io \<Rightarrow> endpoint \<Rightarrow> file_system \<Rightarrow> (io_error, unit) res \<times> file_system" where
  "bind_listener io ep fs =
     (case ep of
        Unix path \<Rightarrow>
          (case si_bind io of
             Ok _ \<Rightarrow> if fs path = None then (Ok (), fs(path \<mapsto> SocketFile (si_umask_mode io) None))
                    else (Err (Io OtherKind (lit ''Address already in use'')), fs)
           | r \<Rightarrow> (r, fs))
      | Tcp_Addr addr \<Rightarrow> (si_bind io, fs)
      | NamedPipe name \<Rightarrow> (Err (Io Unsupported (lit ''named pipes are windows-only'')), fs))"

definition remove_stale :: "start_io \<Rightarrow> endpoint \<Rightarrow> file_system \<Rightarrow> (io_error, unit) res \<times> file_system" where
  "remove_stale io ep fs =
     (case ep of
        Unix path \<Rightarrow>
          if fs path \<noteq> None then
            (case si_remove io of Ok _ \<Rightarrow> (Ok (), fs(path := None)) | r \<Rightarrow> (r, fs))
          else (Ok (), fs)
      | _ \<Rightarrow> (Ok (), fs))"

definition config_error :: "rstr \<Rightarrow> io_error" where
  "config_error msg = Io OtherKind msg"

text \<open>The start of \<open>run_daemon_inner\<close> up to the first accept; the result is the cleanup guard.\<close>

definition daemon_start ::
  "start_io \<Rightarrow> daemon_config \<Rightarrow> file_system \<Rightarrow> (io_error, socket_cleanup_guard option) res \<times> file_system" where
  "daemon_start io config fs =
     (case validate config of
        Err e \<Rightarrow> (Err (config_error e), fs)
      | Panic \<Rightarrow> (Panic, fs)
      | Ok _ \<Rightarrow>
          (case remove_stale io (cfg_endpoint config) fs of
             (Err e, fs1) \<Rightarrow> (Err e, fs1)
           | (Panic, fs1) \<Rightarrow> (Panic, fs1)
           | (Ok _, fs1) \<Rightarrow>
               (case bind_listener io (cfg_endpoint config) fs1 of
                  (Err e, fs2) \<Rightarrow> (Err e, fs2)
                | (Panic, fs2) \<Rightarrow> (Panic, fs2)
                | (Ok _, fs2) \<Rightarrow>
                    (case cfg_endpoint config of
                       Unix path \<Rightarrow>
                         (case apply_endpoint_security io path (cfg_socket_mode config)
                                 (cfg_resolve_group_gid (si_etc_group io) config) fs2 of
                            (Err e, fs3) \<Rightarrow> (Err e, fs3)
                          | (Panic, fs3) \<Rightarrow> (Panic, fs3)
                          | (Ok _, fs3) \<Rightarrow> (Ok (Some (guard_new path True)), fs3))
                     | _ \<Rightarrow> (Ok None, fs2)))))"

text \<open>\<open>run_relay\<close> starts the same way but panics when the socket cannot be secured.\<close>

definition relay_start ::
  "start_io \<Rightarrow> daemon_config \<Rightarrow> file_system \<Rightarrow> (io_error, socket_cleanup_guard option) res \<times> file_system" where
  "relay_start io config fs =
     (case validate config of
        Err e \<Rightarrow> (Err (config_error e), fs)
      | Panic \<Rightarrow> (Panic, fs)
      | Ok _ \<Rightarrow>
          (case remove_stale io (cfg_endpoint config) fs of
             (Err e, fs1) \<Rightarrow> (Err e, fs1)
           | (Panic, fs1) \<Rightarrow> (Panic, fs1)
           | (Ok _, fs1) \<Rightarrow>
               (case bind_listener io (cfg_endpoint config) fs1 of
                  (Err e, fs2) \<Rightarrow> (Err e, fs2)
                | (Panic, fs2) \<Rightarrow> (Panic, fs2)
                | (Ok _, fs2) \<Rightarrow>
                    (case cfg_endpoint config of
                       Unix path \<Rightarrow>
                         (case apply_endpoint_security io path (cfg_socket_mode config)
                                 (cfg_resolve_group_gid (si_etc_group io) config) fs2 of
                            (Ok _, fs3) \<Rightarrow> (Ok (Some (guard_new path True)), fs3)
                          | (_, fs3) \<Rightarrow> (Panic, fs3))
                     | _ \<Rightarrow> (Ok None, fs2)))))"

text \<open>The return from the daemon drops the guard.\<close>

definition daemon_stop :: "(rstr \<Rightarrow> bool) \<Rightarrow> socket_cleanup_guard option \<Rightarrow> file_system \<Rightarrow> file_system" where
  "daemon_stop removable g fs = (case g of Some guard \<Rightarrow> guard_drop removable guard fs | None \<Rightarrow> fs)"

section \<open>The service manager and signals\<close>

text \<open>
  \<open>notify_service_ready\<close>: the datagrams sent. The arguments are the variable \<open>NOTIFY_SOCKET\<close>
  (unset or not text: \<open>None\<close>) and whether a socket can be made; a failure to send is only logged.
\<close>

definition notify_address :: "rstr \<Rightarrow> rstr" where
  "notify_address notify_socket =
     (case strip_prefix (lit ''@'') notify_socket of Some name \<Rightarrow> 0 # name | None \<Rightarrow> notify_socket)"

definition notify_service_ready :: "rstr option \<Rightarrow> bool \<Rightarrow> (rstr \<times> bytes) list" where
  "notify_service_ready notify_socket socket_ok =
     (case notify_socket of
        None \<Rightarrow> []
      | Some s \<Rightarrow> if socket_ok then [(notify_address s, str_bytes (lit ''READY=1''))] else [])"

text \<open>\<open>wait_for_shutdown_signal\<close>: whether one of the signals that arrived ends the wait. Without a
  handler for SIGTERM only the interrupt does (and SIGTERM kills the process).\<close>

datatype unix_signal = Sigint | Sigterm

definition wait_for_shutdown_signal :: "bool \<Rightarrow> unix_signal list \<Rightarrow> bool" where
  "wait_for_shutdown_signal sigterm_ok signals =
     list_ex (\<lambda>s. s = Sigint \<or> (sigterm_ok \<and> s = Sigterm)) signals"

section \<open>Admission\<close>

text \<open>The semaphore and the spawned handlers, each with the identity of its peer.\<close>

record server =
  sv_permits :: nat
  sv_handlers :: "nat \<rightharpoonup> peer_identity"
  sv_next :: nat

definition server_new :: "usize \<Rightarrow> server" where
  "server_new max_clients = \<lparr>sv_permits = max_clients, sv_handlers = Map.empty, sv_next = 0\<rparr>"

text \<open>\<open>try_acquire_owned\<close> and \<open>tokio::spawn\<close>; \<open>None\<close> when the limit is reached.\<close>

definition try_admit :: "server \<Rightarrow> peer_identity \<Rightarrow> server option" where
  "try_admit sv peer =
     (if sv_permits sv = 0 then None
      else Some (sv\<lparr>sv_permits := sv_permits sv - 1, sv_handlers := (sv_handlers sv)(sv_next sv \<mapsto> peer),
                    sv_next := Suc (sv_next sv)\<rparr>))"

text \<open>A handler that ends drops its permit.\<close>

definition release :: "server \<Rightarrow> nat \<Rightarrow> server" where
  "release sv k = (case sv_handlers sv k of
     None \<Rightarrow> sv
   | Some _ \<Rightarrow> sv\<lparr>sv_permits := Suc (sv_permits sv), sv_handlers := (sv_handlers sv)(k := None)\<rparr>)"

section \<open>The USB back end\<close>

record usb_daemon =
  ud_server :: server
  ud_env :: client_env
  ud_stopped :: bool

definition usb_daemon_new :: "daemon_config \<Rightarrow> metrics \<Rightarrow> lockdown_dir \<Rightarrow> usb_daemon" where
  "usb_daemon_new config m ld = \<lparr>ud_server = server_new (cfg_max_clients config),
     ud_env = \<lparr>ce_scanner = scanner_new, ce_manager = dm_new m, ce_lockdown = ld\<rparr>, ud_stopped = False\<rparr>"

text \<open>A session runs against the shared state; its events and the rounds of its proxy carry what
  happens to that state meanwhile. A tick is one round of the scan task.\<close>

datatype usb_event =
    Incoming incoming
  | AcceptError
  | SessionEnds nat "client_io list" bytes
  | Tick usb_iter "(rstr, bus_entry list) res option" usb_env usb_env
  | ShutdownSignal

definition count_reject :: "client_env \<Rightarrow> client_env" where
  "count_reject = with_metrics (\<lambda>m. m\<lparr>clients_rejected := clients_rejected m + 1\<rparr>)"

fun usb_daemon_step :: "plist_reader \<Rightarrow> plist_reader \<Rightarrow> daemon_config \<Rightarrow> usb_daemon \<Rightarrow> usb_event \<Rightarrow> usb_daemon" where
  "usb_daemon_step from_binary from_xml config ud (Incoming inc) =
     (if ud_stopped ud then ud
      else case accept_peer inc of
        Ok peer \<Rightarrow>
          (case try_admit (ud_server ud) peer of
             None \<Rightarrow> ud\<lparr>ud_env := count_reject (ud_env ud)\<rparr>
           | Some sv \<Rightarrow> ud\<lparr>ud_server := sv\<rparr>)
      | _ \<Rightarrow> ud)"
| "usb_daemon_step from_binary from_xml config ud AcceptError = ud"
| "usb_daemon_step from_binary from_xml config ud (SessionEnds k ios stream) =
     (case sv_handlers (ud_server ud) k of
        None \<Rightarrow> ud
      | Some peer \<Rightarrow>
          ud\<lparr>ud_server := release (ud_server ud) k,
             ud_env := fst (handle_client from_binary from_xml config peer (ud_env ud) ios stream)\<rparr>)"
| "usb_daemon_step from_binary from_xml config ud (Tick iter ctx env1 env2) =
     (if ud_stopped ud then ud
      else let (sc, dm, changes) = scan_tick iter ctx env1 env2 (ce_scanner (ud_env ud)) (ce_manager (ud_env ud))
           in ud\<lparr>ud_env := (ud_env ud)\<lparr>ce_scanner := sc, ce_manager := dm\<rparr>\<rparr>)"
| "usb_daemon_step from_binary from_xml config ud ShutdownSignal = ud\<lparr>ud_stopped := True\<rparr>"

section \<open>The relay back end\<close>

text \<open>\<open>splice\<close>, from the outcome of the bidirectional copy.\<close>

definition splice :: "(io_error, u64 \<times> u64) res \<Rightarrow> metrics \<Rightarrow> (io_error, unit) res \<times> metrics" where
  "splice copied m =
     (case copied of
        Ok (a_to_b, b_to_a) \<Rightarrow>
          (Ok (), m\<lparr>client_rx_bytes := client_rx_bytes m + a_to_b, client_tx_bytes := client_tx_bytes m + b_to_a\<rparr>)
      | Err e \<Rightarrow> (Err e, m)
      | Panic \<Rightarrow> (Panic, m))"

text \<open>\<open>upstream\<close> is the outcome of connecting to the upstream service; the second component of the
  result tells whether the client was spliced to it.\<close>

definition handle_relay_client ::
  "daemon_config \<Rightarrow> peer_identity \<Rightarrow> (io_error, unit) res \<Rightarrow> (io_error, u64 \<times> u64) res \<Rightarrow> metrics \<Rightarrow> metrics \<times> bool" where
  "handle_relay_client config peer upstream copied m =
     (let m1 = m\<lparr>clients_accepted := clients_accepted m + 1, clients_active := clients_active m + 1\<rparr> in
      if \<not> peer_is_allowed peer config then
        (m1\<lparr>clients_rejected := clients_rejected m1 + 1, clients_active := clients_active m1 - 1\<rparr>, False)
      else case upstream of
        Ok _ \<Rightarrow>
          (let m2 = m1\<lparr>connects_total := connects_total m1 + 1\<rparr>;
               (r, m3) = splice copied m2
           in (m3\<lparr>clients_active := clients_active m3 - 1\<rparr>, True))
      | _ \<Rightarrow> (m1\<lparr>clients_active := clients_active m1 - 1\<rparr>, False))"

record relay_daemon =
  rd_server :: server
  rd_metrics :: metrics
  rd_stopped :: bool

definition relay_daemon_new :: "daemon_config \<Rightarrow> metrics \<Rightarrow> relay_daemon" where
  "relay_daemon_new config m = \<lparr>rd_server = server_new (cfg_max_clients config), rd_metrics = m, rd_stopped = False\<rparr>"

datatype relay_event =
    RelayIncoming incoming
  | RelayAcceptError
  | SpliceEnds nat "(io_error, unit) res" "(io_error, u64 \<times> u64) res"
  | RelayShutdown

fun relay_daemon_step :: "daemon_config \<Rightarrow> relay_daemon \<Rightarrow> relay_event \<Rightarrow> relay_daemon" where
  "relay_daemon_step config rd (RelayIncoming inc) =
     (if rd_stopped rd then rd
      else case accept_peer inc of
        Ok peer \<Rightarrow>
          (case try_admit (rd_server rd) peer of
             None \<Rightarrow> rd\<lparr>rd_metrics := (rd_metrics rd)\<lparr>clients_rejected := clients_rejected (rd_metrics rd) + 1\<rparr>\<rparr>
           | Some sv \<Rightarrow> rd\<lparr>rd_server := sv\<rparr>)
      | _ \<Rightarrow> rd)"
| "relay_daemon_step config rd RelayAcceptError = rd"
| "relay_daemon_step config rd (SpliceEnds k upstream copied) =
     (case sv_handlers (rd_server rd) k of
        None \<Rightarrow> rd
      | Some peer \<Rightarrow>
          rd\<lparr>rd_server := release (rd_server rd) k,
             rd_metrics := fst (handle_relay_client config peer upstream copied (rd_metrics rd))\<rparr>)"
| "relay_daemon_step config rd RelayShutdown = rd\<lparr>rd_stopped := True\<rparr>"

section \<open>The contract of an accept loop\<close>

text \<open>
  What a back end does to its semaphore and its handlers in one step: nothing, admitting a
  handler under a new number, or releasing one.
\<close>

definition server_move :: "server \<Rightarrow> server \<Rightarrow> bool" where
  "server_move sv sv' \<longleftrightarrow> sv' = sv \<or> (\<exists>peer. try_admit sv peer = Some sv') \<or> (\<exists>k. sv' = release sv k)"

definition server_inv :: "usize \<Rightarrow> server \<Rightarrow> bool" where
  "server_inv mx sv \<longleftrightarrow> finite (dom (sv_handlers sv)) \<and> (\<forall>k \<in> dom (sv_handlers sv). k < sv_next sv)
     \<and> sv_permits sv + card (dom (sv_handlers sv)) = mx"

lemma server_inv_admit:
  assumes "server_inv mx sv" and "try_admit sv peer = Some sv'"
  shows "server_inv mx sv'"
proof -
  have new: "sv_next sv \<notin> dom (sv_handlers sv)" using assms(1) by (auto simp: server_inv_def)
  then have "card (insert (sv_next sv) (dom (sv_handlers sv))) = Suc (card (dom (sv_handlers sv)))"
    using assms(1) by (intro card_insert_disjoint) (auto simp: server_inv_def)
  with assms show ?thesis by (auto simp: server_inv_def try_admit_def less_Suc_eq split: if_splits)
qed

lemma server_inv_release: "server_inv mx sv \<Longrightarrow> server_inv mx (release sv k)"
proof (cases "sv_handlers sv k")
  case (Some peer)
  assume inv: "server_inv mx sv"
  then have "card (dom (sv_handlers sv)) = Suc (card (dom (sv_handlers sv) - {k}))"
    using Some by (intro card.remove) (auto simp: server_inv_def)
  with Some inv show ?thesis by (auto simp: server_inv_def release_def)
qed (simp add: release_def)

locale admission =
  fixes server_of :: "'s \<Rightarrow> server" and step :: "'s \<Rightarrow> 'e \<Rightarrow> 's" and limit :: nat
  assumes step_moves: "server_move (server_of s) (server_of (step s e))"
begin

lemma inv_step:
  assumes "server_inv limit (server_of s)"
  shows "server_inv limit (server_of (step s e))"
  using assms step_moves [of s e] by (auto simp: server_move_def intro: server_inv_admit server_inv_release)

lemma inv_run: "server_inv limit (server_of s) \<Longrightarrow> server_inv limit (server_of (foldl step s es))"
  by (induction es arbitrary: s) (auto intro: inv_step)

text \<open>A peer that cannot be admitted finds the limit reached.\<close>

lemma refused_at_limit:
  assumes "server_inv limit (server_of s)" and "try_admit (server_of s) peer = None"
  shows "card (dom (sv_handlers (server_of s))) = limit"
  using assms by (auto simp: server_inv_def try_admit_def split: if_splits)

end

lemma server_move_refl [simp]: "server_move sv sv"
  and server_move_admit: "try_admit sv peer = Some sv' \<Longrightarrow> server_move sv sv'"
  and server_move_release [simp]: "server_move sv (release sv k)"
  by (auto simp: server_move_def)

interpretation usb: admission ud_server "usb_daemon_step from_binary from_xml config" limit
  for from_binary from_xml config limit
proof unfold_locales
  fix s e
  show "server_move (ud_server s) (ud_server (usb_daemon_step from_binary from_xml config s e))"
    by (cases e) (auto split: res.splits option.splits prod.splits intro: server_move_admit)
qed

interpretation relay: admission rd_server "relay_daemon_step config" limit for config limit
proof unfold_locales
  fix s e
  show "server_move (rd_server s) (rd_server (relay_daemon_step config s e))"
    by (cases e) (auto split: res.splits option.splits intro: server_move_admit)
qed

lemma server_inv_new: "server_inv mx (server_new mx)"
  by (simp add: server_inv_def server_new_def)

section \<open>Properties\<close>

text \<open>C14: The number of clients served at a time never exceeds the limit. Whatever connections
  arrive, sessions end, scans run and signals come, permits and running handlers add up to
  \<open>max_clients\<close>; while the daemon runs, an accepted peer gets a handler of its own if fewer are
  running, without disturbing the others, and is otherwise turned away and counted.\<close>

theorem clients_bounded:
  fixes from_binary from_xml config m ld es
  defines "ud \<equiv> foldl (usb_daemon_step from_binary from_xml config) (usb_daemon_new config m ld) es"
  shows "sv_permits (ud_server ud) + card (dom (sv_handlers (ud_server ud))) = cfg_max_clients config
    \<and> (\<forall>inc peer. accept_peer inc = Ok peer \<longrightarrow> \<not> ud_stopped ud \<longrightarrow>
         (let ud' = usb_daemon_step from_binary from_xml config ud (Incoming inc); n = sv_next (ud_server ud) in
          (card (dom (sv_handlers (ud_server ud))) < cfg_max_clients config \<longrightarrow>
             sv_handlers (ud_server ud) n = None
             \<and> sv_handlers (ud_server ud') = (sv_handlers (ud_server ud))(n \<mapsto> peer) \<and> ud_env ud' = ud_env ud)
          \<and> (card (dom (sv_handlers (ud_server ud))) = cfg_max_clients config \<longrightarrow>
             ud_server ud' = ud_server ud \<and> ud_env ud' = count_reject (ud_env ud))))"
proof -
  have inv: "server_inv (cfg_max_clients config) (ud_server ud)"
    unfolding ud_def by (rule usb.inv_run) (simp add: usb_daemon_new_def server_inv_new)
  then have sum: "sv_permits (ud_server ud) + card (dom (sv_handlers (ud_server ud))) = cfg_max_clients config"
    and fresh: "sv_handlers (ud_server ud) (sv_next (ud_server ud)) = None"
    by (auto simp: server_inv_def domIff)
  then show ?thesis by (auto simp: try_admit_def Let_def)
qed

theorem clients_bounded_witness:
  "let ud = foldl (usb_daemon_step (\<lambda>_. Panic) (\<lambda>_. Panic) (config_default\<lparr>cfg_max_clients := 1\<rparr>))
        (usb_daemon_new (config_default\<lparr>cfg_max_clients := 1\<rparr>) (metrics_new 0) \<lparr>ld_exists = False, ld_files = Map.empty\<rparr>)
        [Incoming (UnixPeer None)]
   in card (dom (sv_handlers (ud_server ud))) = 1
      \<and> ud_env (usb_daemon_step (\<lambda>_. Panic) (\<lambda>_. Panic) (config_default\<lparr>cfg_max_clients := 1\<rparr>) ud (Incoming (UnixPeer None)))
        = count_reject (ud_env ud)"
proof -
  let ?cfg = "config_default\<lparr>cfg_max_clients := 1\<rparr>"
  let ?new = "usb_daemon_new ?cfg (metrics_new 0) \<lparr>ld_exists = False, ld_files = Map.empty\<rparr>"
  let ?ud = "foldl (usb_daemon_step (\<lambda>_. Panic) (\<lambda>_. Panic) ?cfg) ?new [Incoming (UnixPeer None)]"
  define ud where "ud = ?ud"
  have "sv_handlers (ud_server ud) = [0 \<mapsto> peer_identity_of_unix None]" "\<not> ud_stopped ud"
    by (simp_all add: ud_def usb_daemon_new_def server_new_def try_admit_def)
  then have card: "card (dom (sv_handlers (ud_server ud))) = cfg_max_clients ?cfg" "\<not> ud_stopped ud" by simp_all
  have "accept_peer (UnixPeer None) = Ok (peer_identity_of_unix None)" by simp
  with clients_bounded [of "\<lambda>_. Panic" "\<lambda>_. Panic" ?cfg "metrics_new 0" "\<lparr>ld_exists = False, ld_files = Map.empty\<rparr>"
        "[Incoming (UnixPeer None)]", folded ud_def] card
  have "ud_env (usb_daemon_step (\<lambda>_. Panic) (\<lambda>_. Panic) ?cfg ud (Incoming (UnixPeer None))) = count_reject (ud_env ud)"
    unfolding Let_def by blast
  moreover have "card (dom (sv_handlers (ud_server ud))) = 1" using card(1) by simp
  ultimately show ?thesis unfolding Let_def ud_def [symmetric] by blast
qed

text \<open>C26: The life of the socket file. A start with an invalid configuration fails and touches
  nothing. After a successful start on a unix endpoint, in either back end, the path holds a
  socket with exactly the configured mode and the group that the configured name resolves to (none
  if it is unknown), whatever was there before, no other path
  has changed, and the shutdown removes it again.\<close>

theorem socket_lifecycle:
  assumes "cfg_endpoint config = Unix path" and "start \<in> {daemon_start, relay_start}"
  shows "(validate config \<noteq> Ok () \<longrightarrow> snd (start io config fs) = fs \<and> (\<forall>g. fst (start io config fs) \<noteq> Ok g))
    \<and> (\<forall>g fs'. start io config fs = (Ok g, fs') \<longrightarrow>
         fs' = fs(path \<mapsto> SocketFile (cfg_socket_mode config) (cfg_resolve_group_gid (si_etc_group io) config))
         \<and> daemon_stop (\<lambda>_. True) g fs' = fs(path := None))"
proof -
  have secure: "fs' = fs2(path \<mapsto> SocketFile mode gid)"
    if "apply_endpoint_security io path mode gid fs2 = (Ok u, fs')" "fs2 path = Some (SocketFile m None)"
    for u mode gid fs2 fs' m
    using that by (auto simp: apply_endpoint_security_def set_mode_def set_group_def Let_def
        split: res.splits option.splits if_splits)
  have eq: "daemon_start io config fs = (Ok g, fs') \<longleftrightarrow> relay_start io config fs = (Ok g, fs')" for g fs'
    by (auto simp: daemon_start_def relay_start_def split: res.splits prod.splits endpoint.splits)
  have run: "fs' = fs(path \<mapsto> SocketFile (cfg_socket_mode config) (cfg_resolve_group_gid (si_etc_group io) config))
      \<and> g = Some (guard_new path True)" if "daemon_start io config fs = (Ok g, fs')" for g fs'
    using that assms(1)
    by (auto simp: daemon_start_def remove_stale_def bind_listener_def dest!: secure
        split: res.splits prod.splits if_splits option.splits)
  have "snd (start io config fs) = fs \<and> (\<forall>g. fst (start io config fs) \<noteq> Ok g)" if "validate config \<noteq> Ok ()"
    using that assms(2) by (cases "validate config") (auto simp: daemon_start_def relay_start_def)
  moreover have "daemon_start io config fs = (Ok g, fs')" if "start io config fs = (Ok g, fs')" for g fs'
    using that eq assms(2) by auto
  moreover have "daemon_stop (\<lambda>_. True) (Some (guard_new path True)) (fs(path \<mapsto> x)) = fs(path := None)" for x
    by (simp add: daemon_stop_def guard_drop_def guard_new_def)
  ultimately show ?thesis using run by blast
qed

definition example_start :: start_io where
  "example_start = \<lparr>si_remove = Ok (), si_bind = Ok (), si_umask_mode = 493, si_chmod = Ok (), si_chown = Ok (),
     si_etc_group = None\<rparr>"

theorem socket_lifecycle_witness:
  "\<exists>g fs'. daemon_start example_start config_default (\<lambda>_. Some OtherFile) = (Ok g, fs')
     \<and> fs' default_endpoint = Some (SocketFile 438 None)
     \<and> daemon_stop (\<lambda>_. True) g fs' = (\<lambda>_. Some OtherFile)(default_endpoint := None)"
proof -
  have ep: "cfg_endpoint config_default = Unix default_endpoint"
    and m: "cfg_socket_mode config_default = 438" "cfg_resolve_group_gid x config_default = None" for x
    by (simp_all add: config_default_def cfg_resolve_group_gid_def)
  have "validate config_default = Ok ()" by (simp add: validate_def config_default_def)
  then obtain g fs' where run: "daemon_start example_start config_default (\<lambda>_. Some OtherFile) = (Ok g, fs')"
    using ep m by (simp add: daemon_start_def remove_stale_def bind_listener_def apply_endpoint_security_def
        example_start_def)
  with socket_lifecycle [OF ep, of daemon_start example_start "\<lambda>_. Some OtherFile"] m
  have "fs' = (\<lambda>_. Some OtherFile)(default_endpoint \<mapsto> SocketFile 438 None)"
    "daemon_stop (\<lambda>_. True) g fs' = (\<lambda>_. Some OtherFile)(default_endpoint := None)" by auto
  with run show ?thesis by auto
qed

text \<open>When the new socket cannot be given its mode the daemon reports an error, but the guard does
  not exist yet: the socket stays behind with the mode the kernel gave it.\<close>

lemma failed_chmod_leaves_socket:
  assumes "cfg_endpoint config = Unix path" and "validate config = Ok ()" and "fs path = None"
    and "si_bind io = Ok ()" and "si_chmod io = Err e"
  shows "daemon_start io config fs = (Err e, fs(path \<mapsto> SocketFile (si_umask_mode io) None))
    \<and> relay_start io config fs = (Panic, fs(path \<mapsto> SocketFile (si_umask_mode io) None))"
  using assms by (simp add: daemon_start_def relay_start_def remove_stale_def bind_listener_def apply_endpoint_security_def)

text \<open>Relay mode applies the same admission and access rules. The limit holds for every run; a
  client is spliced to the upstream service only if the access check admits it and the service
  is reachable; the gauge of active clients returns to its value on every path, and the bytes
  of both directions are counted exactly when the splice completes.\<close>

theorem relay_accounts:
  "(let rd = foldl (relay_daemon_step config) (relay_daemon_new config m0) es in
      sv_permits (rd_server rd) + card (dom (sv_handlers (rd_server rd))) = cfg_max_clients config)
   \<and> (case handle_relay_client config peer upstream copied m of (m', spliced) \<Rightarrow>
       spliced = (peer_is_allowed peer config \<and> upstream = Ok ())
       \<and> clients_active m' = clients_active m \<and> clients_accepted m' = clients_accepted m + 1
       \<and> clients_rejected m' = clients_rejected m + (if peer_is_allowed peer config then 0 else 1)
       \<and> (client_rx_bytes m', client_tx_bytes m') =
           (case copied of Ok (a, b) \<Rightarrow> if spliced then (client_rx_bytes m + a, client_tx_bytes m + b)
              else (client_rx_bytes m, client_tx_bytes m)
            | _ \<Rightarrow> (client_rx_bytes m, client_tx_bytes m)))"
proof -
  have "server_inv (cfg_max_clients config) (rd_server (foldl (relay_daemon_step config) (relay_daemon_new config m0) es))"
    by (rule relay.inv_run) (simp add: relay_daemon_new_def server_inv_new)
  then show ?thesis
    by (auto simp: server_inv_def handle_relay_client_def splice_def Let_def split: res.splits prod.splits)
qed

end
