(* ===== verification/Host_Setup.thy ===== *)
theory Host_Setup
  imports Usb_Protocol
begin

text \<open>
  Host provisioning on unix (\<open>setup.rs\<close>): the udev rule and the systemd unit. The files are a
  map from paths to contents; the outcomes of writing and of the external tools are arguments.
  The text of the unit is included from the packaging directory at build time and is an
  argument too. The theorem: provisioning is idempotent, as the module promises.
\<close>

definition UDEV_RULE :: rstr where
  "UDEV_RULE = lit ''# meridian-relay '' @ [8212] @ lit '' Apple mobile device USB access'' @ [10]
     @ lit ''SUBSYSTEM=='' @ [34] @ lit ''usb'' @ [34] @ lit '', ATTR{idVendor}=='' @ [34] @ lit ''05ac'' @ [34]
     @ lit '', MODE='' @ [34] @ lit ''0666'' @ [34] @ lit '', TAG+='' @ [34] @ lit ''uaccess'' @ [34, 10]"

definition UDEV_RULE_PATH :: rstr where
  "UDEV_RULE_PATH = lit ''/etc/udev/rules.d/80-meridian-relay.rules''"

definition SYSTEMD_UNIT_PATH :: rstr where
  "SYSTEMD_UNIT_PATH = lit ''/etc/systemd/system/meridian-relay.service''"

text \<open>\<open>None\<close> for a file that is not text.\<close>

type_synonym host_files = "rstr \<rightharpoonup> rstr option"

record setup_io =
  su_write :: "rstr \<Rightarrow> (io_error, unit) res"
  su_reload :: bool
  su_trigger :: bool
  su_unit :: rstr

definition write_file :: "setup_io \<Rightarrow> rstr \<Rightarrow> rstr \<Rightarrow> host_files \<Rightarrow> (io_error, unit) res \<times> host_files" where
  "write_file io path content fs = (case su_write io path of
     Ok _ \<Rightarrow> (Ok (), fs(path \<mapsto> Some content)) | r \<Rightarrow> (r, fs))"

definition install_rule :: "setup_io \<Rightarrow> host_files \<Rightarrow> (io_error, rstr) res \<times> host_files" where
  "install_rule io fs =
     (case fs UDEV_RULE_PATH of
        Some content \<Rightarrow>
          if content = Some UDEV_RULE then (Ok (lit ''udev rule already present: '' @ UDEV_RULE_PATH), fs)
          else (let (r, fs1) = write_file io UDEV_RULE_PATH UDEV_RULE fs
                in (res_bind r (\<lambda>_. Ok (lit ''updated udev rule: '' @ UDEV_RULE_PATH)), fs1))
      | None \<Rightarrow>
          (let (r, fs1) = write_file io UDEV_RULE_PATH UDEV_RULE fs
           in (res_bind r (\<lambda>_. Ok (lit ''installed udev rule: '' @ UDEV_RULE_PATH)), fs1)))"

definition reload_line :: "setup_io \<Rightarrow> rstr" where
  "reload_line io = lit ''udev reload/trigger: ''
     @ (if su_reload io \<and> su_trigger io then lit ''ok''
        else lit ''run '' @ [96] @ lit ''udevadm control --reload-rules && udevadm trigger'' @ [96] @ lit '' manually'')"

definition install_unit :: "setup_io \<Rightarrow> bool \<Rightarrow> host_files \<Rightarrow> (io_error, rstr) res \<times> host_files" where
  "install_unit io install_service fs =
     (if install_service then
        (let (r, fs1) = write_file io SYSTEMD_UNIT_PATH (su_unit io) fs
         in (res_bind r (\<lambda>_. Ok (lit ''systemd unit installed + enabled: '' @ SYSTEMD_UNIT_PATH)), fs1))
      else (Ok (lit ''skipped service install (--skip-service)''), fs))"

definition platform_provision :: "setup_io \<Rightarrow> bool \<Rightarrow> host_files \<Rightarrow> (io_error, rstr list) res \<times> host_files" where
  "platform_provision io install_service fs =
     (case install_rule io fs of
        (Ok l1, fs1) \<Rightarrow>
          (case install_unit io install_service fs1 of
             (Ok l3, fs2) \<Rightarrow> (Ok [l1, reload_line io, l3], fs2)
           | (Err e, fs2) \<Rightarrow> (Err e, fs2)
           | (Panic, fs2) \<Rightarrow> (Panic, fs2))
      | (Err e, fs1) \<Rightarrow> (Err e, fs1)
      | (Panic, fs1) \<Rightarrow> (Panic, fs1))"

section \<open>Lemmas\<close>

lemma paths_distinct: "UDEV_RULE_PATH \<noteq> SYSTEMD_UNIT_PATH"
  by (simp add: UDEV_RULE_PATH_def SYSTEMD_UNIT_PATH_def)

lemma install_rule_Ok:
  "install_rule io fs = (Ok l, fs1) \<Longrightarrow> fs1 = fs(UDEV_RULE_PATH \<mapsto> Some UDEV_RULE)"
  by (auto simp: install_rule_def write_file_def Let_def res_bind_eq_Ok split: option.splits if_splits prod.splits res.splits)

lemma install_unit_Ok:
  "install_unit io svc fs = (Ok l, fs1) \<Longrightarrow> fs1 = (if svc then fs(SYSTEMD_UNIT_PATH \<mapsto> Some (su_unit io)) else fs)"
  by (auto simp: install_unit_def write_file_def Let_def res_bind_eq_Ok split: if_splits prod.splits res.splits)

section \<open>Properties\<close>

text \<open>Provisioning is idempotent. After a successful run the rule (and, if asked for, the unit)
  is in place and no other file has changed; a second run leaves every file as it is, reports
  the rule as already present, and needs no permission to write the rule.\<close>

theorem provision_idempotent:
  assumes "platform_provision io svc fs = (Ok log, fs1)"
    and "svc \<longrightarrow> su_write io' SYSTEMD_UNIT_PATH = Ok ()" and "su_unit io' = su_unit io"
  shows "fs1 = (if svc then fs(UDEV_RULE_PATH \<mapsto> Some UDEV_RULE, SYSTEMD_UNIT_PATH \<mapsto> Some (su_unit io))
                else fs(UDEV_RULE_PATH \<mapsto> Some UDEV_RULE))
    \<and> (\<exists>l2 l3. platform_provision io' svc fs1 = (Ok [lit ''udev rule already present: '' @ UDEV_RULE_PATH, l2, l3], fs1))"
proof -
  obtain l1 fsr l3 where r: "install_rule io fs = (Ok l1, fsr)" and u: "install_unit io svc fsr = (Ok l3, fs1)"
    using assms(1) by (auto simp: platform_provision_def split: prod.splits res.splits)
  have fs1: "fs1 = (if svc then fs(UDEV_RULE_PATH \<mapsto> Some UDEV_RULE, SYSTEMD_UNIT_PATH \<mapsto> Some (su_unit io))
                else fs(UDEV_RULE_PATH \<mapsto> Some UDEV_RULE))"
    using install_rule_Ok [OF r] install_unit_Ok [OF u] by simp
  then have "install_rule io' fs1 = (Ok (lit ''udev rule already present: '' @ UDEV_RULE_PATH), fs1)"
    using paths_distinct by (simp add: install_rule_def)
  moreover have "\<exists>l. install_unit io' svc fs1 = (Ok l, fs1)"
    using assms(2,3) fs1 by (auto simp: install_unit_def write_file_def)
  ultimately show ?thesis using fs1 by (auto simp: platform_provision_def)
qed

theorem provision_idempotent_witness:
  "\<exists>log fs1 l2 l3. platform_provision \<lparr>su_write = \<lambda>_. Ok (), su_reload = True, su_trigger = True, su_unit = [65]\<rparr> True Map.empty = (Ok log, fs1)
     \<and> platform_provision \<lparr>su_write = \<lambda>p. if p = SYSTEMD_UNIT_PATH then Ok () else Err (Io OtherKind []), su_reload = False,
          su_trigger = True, su_unit = [65]\<rparr> True fs1 = (Ok [lit ''udev rule already present: '' @ UDEV_RULE_PATH, l2, l3], fs1)"
proof -
  let ?io = "\<lparr>su_write = \<lambda>_. Ok (), su_reload = True, su_trigger = True, su_unit = [65]\<rparr>"
  let ?io' = "\<lparr>su_write = \<lambda>p. if p = SYSTEMD_UNIT_PATH then Ok () else Err (Io OtherKind []), su_reload = False,
          su_trigger = True, su_unit = [65]\<rparr>"
  obtain log fs1 where "platform_provision ?io True Map.empty = (Ok log, fs1)"
    by (simp add: platform_provision_def install_rule_def install_unit_def write_file_def)
  with provision_idempotent [OF this, of ?io'] show ?thesis by auto
qed

end
