(* ===== verification/Command_Line.thy ===== *)
theory Command_Line
  imports Tunnel Daemon_Server Host_Setup
begin

text \<open>
  The command line (\<open>main.rs\<close>): the endpoint a command talks to, the arguments the daemon
  command passes on, the start of the daemon, and the output of the list, info and stats
  commands. Parsing of the command line belongs to \<open>clap\<close>, rendering as JSON to \<open>serde_json\<close>:
  both are arguments. The subcommands as a whole and the \<open>--print\<close> listing follow in
  \<open>Relay_Main\<close>.

  The theorems: redaction leaves no trace of the identifiers, and the daemon starts only with a
  valid configuration whose back end is the one given on the command line.
\<close>

section \<open>Options\<close>

record cli =
  cl_endpoint :: "rstr option"
  cl_socket_path :: "rstr option"
  cl_backend :: backend
  cl_upstream :: "rstr option"
  cl_log_format :: rstr

definition resolve_endpoint :: "cli \<Rightarrow> rstr option" where
  "resolve_endpoint cl = or_else (cl_endpoint cl) (map_option (\<lambda>p. lit ''unix:'' @ p) (cl_socket_path cl))"

definition client_endpoint :: "cli \<Rightarrow> rstr" where
  "client_endpoint cl = (case resolve_endpoint cl of Some e \<Rightarrow> e | None \<Rightarrow> default_endpoint)"

definition make_daemon_args :: "cli \<Rightarrow> daemon_args" where
  "make_daemon_args cl = \<lparr>a_config_path = None, a_endpoint = cl_endpoint cl, a_socket_path = cl_socket_path cl,
     a_socket_mode = None, a_socket_group = None, a_pipe_security = None, a_lockdown_dir = None,
     a_no_require_pair_record = False, a_scan_interval_ms = None, a_usb_timeout_ms = None,
     a_connect_timeout_ms = None, a_max_clients = None, a_read_workers = None, a_allow_uids = [], a_allow_sids = [],
     a_backend = cl_backend cl, a_upstream = cl_upstream cl,
     a_log_format = (if cl_log_format cl = lit ''json'' then Json else Text)\<rparr>"

section \<open>The daemon command\<close>

datatype daemon_run = Printed daemon_config | Started daemon_config "socket_cleanup_guard option"

definition io_text :: "(io_error, 'a) res \<Rightarrow> (rstr, 'a) res" where
  "io_text r = map_err err_text r"

definition run_daemon_entry ::
  "(rstr \<Rightarrow> (rstr, rstr) res) \<Rightarrow> (rstr \<Rightarrow> (rstr, config_file) res) \<Rightarrow> bool \<Rightarrow> start_io
   \<Rightarrow> cli \<Rightarrow> bool \<Rightarrow> file_system \<Rightarrow> (rstr, daemon_run) res \<times> file_system" where
  "run_daemon_entry read_file from_toml default_exists io cl print fs =
     (let args = make_daemon_args cl in
      case from_sources read_file from_toml default_exists (a_config_path args) args of
        Err e \<Rightarrow> (Err e, fs)
      | Panic \<Rightarrow> (Panic, fs)
      | Ok config \<Rightarrow>
          (case validate config of
             Err e \<Rightarrow> (Err e, fs)
           | Panic \<Rightarrow> (Panic, fs)
           | Ok _ \<Rightarrow>
               if print then (Ok (Printed config), fs)
               else
                 (let (r, fs1) = (case cfg_backend config of
                        Relay \<Rightarrow> relay_start io config fs
                      | Usb \<Rightarrow> daemon_start io config fs)
                  in (res_bind (io_text r) (\<lambda>g. Ok (Started config g)), fs1))))"

section \<open>Output of the client commands\<close>

definition pad_right :: "nat \<Rightarrow> rstr \<Rightarrow> rstr" where
  "pad_right n s = s @ replicate (n - length s) 32"

definition table_row :: "rstr \<Rightarrow> rstr \<Rightarrow> rstr \<Rightarrow> rstr \<Rightarrow> rstr \<Rightarrow> rstr \<Rightarrow> rstr" where
  "table_row n name model udid i ios =
     pad_right 4 n @ [32] @ pad_right 26 name @ [32] @ pad_right 26 model @ [32] @ pad_right 40 udid @ [32]
     @ pad_right 10 i @ [32] @ pad_right 12 ios"

definition device_row :: "bool \<Rightarrow> nat \<Rightarrow> device \<Rightarrow> rstr" where
  "device_row hide_sensitive i dev =
     table_row (show_nat (i + 1)) (or_str ''?'' (dv_name dev)) (or_str ''?'' (dv_model dev))
       (if hide_sensitive then lit ''***'' else dv_udid dev) (show_nat (unat (dv_device_id dev)))
       (or_str ''?'' (dv_ios_version dev))"

definition redact :: "bool \<Rightarrow> device \<Rightarrow> device" where
  "redact hide_sensitive dev = (if hide_sensitive then dev\<lparr>dv_udid := lit ''redacted''\<rparr> else dev)"

text \<open>The list command after enrichment.\<close>

definition list_output :: "(device list \<Rightarrow> rstr) \<Rightarrow> rstr \<Rightarrow> bool \<Rightarrow> bool \<Rightarrow> device list \<Rightarrow> rstr list" where
  "list_output to_json format json hide_sensitive devices =
     (if json \<or> format = lit ''json'' then [to_json (map (redact hide_sensitive) devices)]
      else table_row (lit ''#'') (lit ''Name'') (lit ''Model'') (lit ''UDID'') (lit ''ID'') (lit ''iOS'')
           # replicate 120 45
           # map (\<lambda>(i, dev). device_row hide_sensitive i dev) (enumerate 0 devices))"

definition list_command_output ::
  "(device list \<Rightarrow> rstr) \<Rightarrow> lockdown_io \<Rightarrow> rstr
   \<Rightarrow> (nat \<Rightarrow> (io_error, peer) res \<times> (io_error, peer) res \<times> chan_read list)
   \<Rightarrow> rstr \<Rightarrow> bool \<Rightarrow> bool \<Rightarrow> (rstr, device list) res \<Rightarrow> (rstr, rstr list) res" where
  "list_command_output to_json io endpoint conns format json hide_sensitive listed =
     res_bind listed (\<lambda>devices.
       if devices = [] then Ok [lit ''no devices found'']
       else res_bind (parse_endpoint endpoint) (\<lambda>ep.
         Ok (list_output to_json format json hide_sensitive (enrich_all io conns devices))))"

text \<open>The info command: \<open>Inl\<close> for an exit with status 1.\<close>

definition info_select :: "rstr option \<Rightarrow> device list \<Rightarrow> rstr + device" where
  "info_select udid devices =
     (case devices of
        [] \<Rightarrow> Inl (lit ''no devices found'')
      | first # others \<Rightarrow>
          (case udid of
             None \<Rightarrow> Inr first
           | Some u \<Rightarrow> (case find (\<lambda>d. dv_udid d = u) devices of
                          Some d \<Rightarrow> Inr d | None \<Rightarrow> Inl (lit ''device not found: '' @ u))))"

definition print_device_info :: "device \<Rightarrow> rstr list" where
  "print_device_info info =
     [[], lit ''Device Information'', replicate 60 45,
      lit ''  Name:             '' @ or_str ''Unknown'' (dv_name info),
      lit ''  UDID:             '' @ dv_udid info,
      lit ''  Connection:       '' @ connection_type_display (dv_connection_type info),
      lit ''  Model:            '' @ or_str ''Unknown'' (dv_model info),
      lit ''  iOS Version:      '' @ or_str ''Unknown'' (dv_ios_version info),
      lit ''  Build Version:    '' @ or_str ''Unknown'' (dv_build_version info), []]"

text \<open>The stats command: one request per round on the same connection; \<open>Debug\<close> formatting of an
  unexpected reply is an argument.\<close>

definition stats_line :: "(dictionary \<Rightarrow> rstr) \<Rightarrow> dictionary \<Rightarrow> rstr" where
  "stats_line debug d = (case get_string d ''Stats'' of
     Some json \<Rightarrow> json
   | None \<Rightarrow> (case get_unsigned d ''Status'' of
       Some status \<Rightarrow> lit ''error: status='' @ show_nat status
     | None \<Rightarrow> lit ''unexpected response: '' @ debug d))"

fun stats_rounds :: "lockdown_io \<Rightarrow> (dictionary \<Rightarrow> rstr) \<Rightarrow> talk \<Rightarrow> u32 list \<Rightarrow> mux_conn \<Rightarrow> (rstr, unit) res \<times> rstr list" where
  "stats_rounds io debug talk [] mc = (Ok (), [])"
| "stats_rounds io debug talk (tag # tags) mc =
     (case mux_request io talk 65536 (make_stats_command tag) mc of
        Ok (resp, mc1) \<Rightarrow>
          (let (r, lines) = stats_rounds io debug talk tags mc1 in (r, stats_line debug (rp_plist resp) # lines))
      | Err e \<Rightarrow> (Err e, [])
      | Panic \<Rightarrow> (Panic, []))"

definition stats_command :: "lockdown_io \<Rightarrow> (dictionary \<Rightarrow> rstr) \<Rightarrow> talk \<Rightarrow> u32 option \<Rightarrow> (rstr, unit) res \<times> rstr list" where
  "stats_command io debug talk count =
     stats_rounds io debug talk (map (\<lambda>i. word_of_nat (i + 1)) [0..<unat (case count of Some n \<Rightarrow> n | None \<Rightarrow> 1)])
       \<lparr>mc_sent = [], mc_pending = []\<rparr>"

section \<open>Lemmas\<close>

lemma make_daemon_args_path [simp]: "a_config_path (make_daemon_args cl) = None"
  by (simp add: make_daemon_args_def)

section \<open>Properties\<close>

text \<open>Redaction leaves no trace. With \<open>--hide-sensitive\<close> the output of the list command, as JSON
  or as a table, is the same for any two lists of devices that differ only in their identifiers.\<close>

theorem redaction_hides_udids:
  assumes "map (\<lambda>d. d\<lparr>dv_udid := []\<rparr>) devices = map (\<lambda>d. d\<lparr>dv_udid := []\<rparr>) devices'"
  shows "list_output to_json format json True devices = list_output to_json format json True devices'"
proof -
  have len: "length devices = length devices'" using assms by (rule map_eq_imp_length_eq)
  have upd: "(devices ! i)\<lparr>dv_udid := u\<rparr> = (devices' ! i)\<lparr>dv_udid := u\<rparr>" if "i < length devices" for i u
  proof -
    have "(devices ! i)\<lparr>dv_udid := []\<rparr> = (devices' ! i)\<lparr>dv_udid := []\<rparr>"
      using arg_cong [OF assms, of "\<lambda>xs. xs ! i"] that len by simp
    then have "(devices ! i)\<lparr>dv_udid := []\<rparr>\<lparr>dv_udid := u\<rparr> = (devices' ! i)\<lparr>dv_udid := []\<rparr>\<lparr>dv_udid := u\<rparr>" by (rule arg_cong)
    then show ?thesis by simp
  qed
  have "map (redact True) devices = map (redact True) devices'"
    using upd len by (auto simp: redact_def intro: nth_equalityI)
  moreover have row: "device_row True n dev = device_row True n (dev\<lparr>dv_udid := []\<rparr>)" for n dev
    by (simp add: device_row_def)
  have "map (\<lambda>(i, dev). device_row True i dev) (enumerate 0 devices) = map (\<lambda>(i, dev). device_row True i dev) (enumerate 0 devices')"
    using len by (intro nth_equalityI) (simp_all add: nth_enumerate_eq row [of _ "devices ! _"] row [of _ "devices' ! _"] upd)
  ultimately show ?thesis by (simp add: list_output_def)
qed

theorem redaction_hides_udids_witness:
  "list_output (\<lambda>ds. concat (map dv_udid ds)) (lit ''table'') False True
     [\<lparr>dv_udid = lit ''A'', dv_device_id = 1, dv_name = None, dv_model = None, dv_ios_version = None,
       dv_build_version = None, dv_connection_type = ConnUsb\<rparr>]
   = list_output (\<lambda>ds. concat (map dv_udid ds)) (lit ''table'') False True
     [\<lparr>dv_udid = lit ''BB'', dv_device_id = 1, dv_name = None, dv_model = None, dv_ios_version = None,
       dv_build_version = None, dv_connection_type = ConnUsb\<rparr>]"
  by (rule redaction_hides_udids) simp

text \<open>The daemon command starts nothing with a configuration that does not validate, and runs the
  back end of the command line whatever the configuration file asks for; when it does not start
  (or only prints) because of the configuration, the file system is untouched.\<close>

theorem daemon_entry_validated:
  assumes "run_daemon_entry read_file from_toml default_exists io cl print fs = (r, fs')"
  shows "(\<forall>config g. r = Ok (Started config g) \<longrightarrow>
            validate config = Ok () \<and> cfg_backend config = cl_backend cl
            \<and> (if cl_backend cl = Relay then relay_start else daemon_start) io config fs = (Ok g, fs'))
    \<and> (\<forall>config. r = Ok (Printed config) \<longrightarrow> validate config = Ok () \<and> print \<and> fs' = fs)"
proof -
  have backend: "cfg_backend config = cl_backend cl"
    if src: "from_sources read_file from_toml default_exists None (make_daemon_args cl) = Ok config" for config
  proof -
    obtain base where "finalize_endpoint (merge_args base (make_daemon_args cl)) = Ok config"
      using src unfolding from_sources_def Let_def res_bind_eq_Ok by blast
    from finalize_fields [OF this] show ?thesis by (auto simp: merge_args_def make_daemon_args_def Let_def)
  qed
  show ?thesis
    using assms backend
    by (auto simp: run_daemon_entry_def io_text_def res_bind_eq_Ok Let_def
        split: res.splits prod.splits if_splits backend.splits)
qed

theorem daemon_entry_validated_witness:
  "\<exists>config g fs'. run_daemon_entry (\<lambda>_. Err []) (\<lambda>_. Err []) False example_start
       \<lparr>cl_endpoint = None, cl_socket_path = None, cl_backend = Usb, cl_upstream = None, cl_log_format = []\<rparr> False Map.empty
       = (Ok (Started config g), fs') \<and> validate config = Ok () \<and> cfg_backend config = Usb"
proof -
  let ?cl = "\<lparr>cl_endpoint = None, cl_socket_path = None, cl_backend = Usb, cl_upstream = None, cl_log_format = []\<rparr>"
  have src: "from_sources (\<lambda>_. Err []) (\<lambda>_. Err []) False None (make_daemon_args ?cl) = Ok config_default"
    by (simp add: from_sources_def make_daemon_args_def merge_args_def finalize_endpoint_def config_default_def
        merge_mode_def merge_raw_def)
  have "validate config_default = Ok ()" by (simp add: validate_def config_default_def)
  moreover have "cfg_resolve_group_gid x config_default = None" for x
    by (simp add: cfg_resolve_group_gid_def config_default_def)
  moreover have "cfg_endpoint config_default = Unix default_endpoint" "cfg_backend config_default = Usb"
    by (simp_all add: config_default_def)
  ultimately obtain g fs' where run: "run_daemon_entry (\<lambda>_. Err []) (\<lambda>_. Err []) False example_start ?cl False Map.empty
      = (Ok (Started config_default g), fs')"
    using src by (simp add: run_daemon_entry_def io_text_def daemon_start_def remove_stale_def bind_listener_def
        apply_endpoint_security_def example_start_def)
  with daemon_entry_validated [OF run] show ?thesis by auto
qed

end
