(* ===== verification/Windows_Platform.thy ===== *)
theory Windows_Platform
  imports Daemon_Server
begin

text \<open>
  The windows branches of the daemon: \<open>platform/windows.rs\<close> and the named pipe code of
  \<open>daemon/transport.rs\<close>. Files are a map from paths to nodes, a file with the access control
  list applied to it (\<open>None\<close>: inherited). Security descriptors are blocks of the local heap, so
  that releasing each exactly once is a theorem. The outcomes of the system calls are arguments.

  The theorems: descriptors are released exactly once on every path; a stored secret is
  protected, but it is written before it is; the client's wait for a busy pipe ends; and three
  defects: no pipe instance exists between two accepts, a list of allowed security
  identifiers locks everybody out, and a pipe client passes as user 0.
\<close>

section \<open>Paths and defaults\<close>

text \<open>\<open>Path::join\<close> with a relative component: a separator is added unless there is one, and not
  after a bare drive.\<close>

definition join_path :: "rstr \<Rightarrow> rstr \<Rightarrow> rstr" where
  "join_path base component =
     (if base = [] \<or> last base = 92 \<or> last base = 47 \<or> (length base = 2 \<and> last base = 58)
      then base @ component else base @ [92] @ component)"

definition program_data :: "rstr option \<Rightarrow> rstr" where
  "program_data env_var = (case env_var of Some p \<Rightarrow> p | None \<Rightarrow> lit ''C:'' @ [92] @ lit ''ProgramData'')"

definition default_endpoint_windows :: rstr where
  "default_endpoint_windows = lit ''pipe:meridian-relay''"

definition default_lockdown_dir_windows :: "rstr option \<Rightarrow> rstr" where
  "default_lockdown_dir_windows env_var = join_path (join_path (program_data env_var) (lit ''Apple'')) (lit ''Lockdown'')"

definition default_config_path_windows :: "rstr option \<Rightarrow> rstr" where
  "default_config_path_windows env_var =
     join_path (join_path (program_data env_var) (lit ''Meridian'')) (lit ''config.toml'')"

definition default_log_dir_windows :: "rstr option \<Rightarrow> rstr" where
  "default_log_dir_windows env_var = join_path (join_path (program_data env_var) (lit ''Meridian'')) (lit ''Logs'')"

definition DEFAULT_PIPE_SDDL :: rstr where
  "DEFAULT_PIPE_SDDL = lit ''D:P(A;;GA;;;SY)(A;;GA;;;BA)(A;;GA;;;IU)''"

definition SECRET_FILE_SDDL :: rstr where
  "SECRET_FILE_SDDL = lit ''D:P(A;;FA;;;SY)(A;;FA;;;BA)''"

definition default_pipe_security_windows :: rstr where
  "default_pipe_security_windows = DEFAULT_PIPE_SDDL"

text \<open>A bare endpoint is a pipe name here.\<close>

definition parse_endpoint_windows :: "rstr \<Rightarrow> (rstr, endpoint) res" where
  "parse_endpoint_windows input =
     (case strip_prefix (lit ''unix:'') input of
        Some rest \<Rightarrow> Ok (Unix rest)
      | None \<Rightarrow>
          (case strip_prefix (lit ''pipe:'') input of
             Some rest \<Rightarrow> parse_pipe rest
           | None \<Rightarrow>
               (case strip_prefix (lit ''tcp:'') input of
                  Some rest \<Rightarrow> parse_tcp rest
                | None \<Rightarrow> parse_pipe input)))"

section \<open>Security descriptors\<close>

text \<open>An error of the operating system with its code, if it has one.\<close>

datatype win_error = Win (os_code: "int option") (win_msg: rstr)

text \<open>The local heap: the live blocks, the next address, and whether a block was released that
  is not live.\<close>

record local_heap =
  lh_live :: "nat list"
  lh_next :: nat
  lh_bad_free :: bool

record win_io =
  wi_convert :: "rstr \<Rightarrow> win_error option"
  wi_dacl_present :: "rstr \<Rightarrow> bool"
  wi_set_security :: "rstr \<Rightarrow> u32"
  wi_os_message :: "u32 \<Rightarrow> rstr"
  wi_create_pipe :: "rstr \<Rightarrow> win_error option"
  wi_pipe_connect :: "win_error option"
  wi_client_pid :: u32
  wi_file_create :: "win_error option"
  wi_short_write :: "(nat \<times> win_error) option"

definition sddl_to_security_descriptor :: "win_io \<Rightarrow> rstr \<Rightarrow> local_heap \<Rightarrow> (win_error, nat) res \<times> local_heap" where
  "sddl_to_security_descriptor io sddl heap =
     (case wi_convert io sddl of
        Some e \<Rightarrow> (Err e, heap)
      | None \<Rightarrow> (Ok (lh_next heap), heap\<lparr>lh_live := lh_next heap # lh_live heap, lh_next := Suc (lh_next heap)\<rparr>))"

definition free_security_descriptor :: "nat \<Rightarrow> local_heap \<Rightarrow> local_heap" where
  "free_security_descriptor sd heap =
     (if sd \<in> set (lh_live heap) then heap\<lparr>lh_live := remove1 sd (lh_live heap)\<rparr> else heap\<lparr>lh_bad_free := True\<rparr>)"

section \<open>Secret files\<close>

datatype win_node = WinFile bytes "rstr option" | WinLink rstr | WinDir

type_synonym win_files = "rstr \<rightharpoonup> win_node"

text \<open>The file a path stands for; a link holds the path it finally resolves to.\<close>

definition real_path :: "win_files \<Rightarrow> rstr \<Rightarrow> rstr" where
  "real_path fs path = (case fs path of Some (WinLink target) \<Rightarrow> target | _ \<Rightarrow> path)"

definition set_dacl :: "rstr \<Rightarrow> rstr \<Rightarrow> win_files \<Rightarrow> win_files" where
  "set_dacl path sddl fs = (case fs (real_path fs path) of
     Some (WinFile b d) \<Rightarrow> fs(real_path fs path \<mapsto> WinFile b (Some sddl)) | _ \<Rightarrow> fs)"

definition apply_sddl_to_path ::
  "win_io \<Rightarrow> rstr \<Rightarrow> rstr \<Rightarrow> win_files \<Rightarrow> local_heap \<Rightarrow> (win_error, unit) res \<times> win_files \<times> local_heap" where
  "apply_sddl_to_path io path sddl fs heap =
     (case sddl_to_security_descriptor io sddl heap of
        (Err e, heap1) \<Rightarrow> (Err e, fs, heap1)
      | (Panic, heap1) \<Rightarrow> (Panic, fs, heap1)
      | (Ok sd, heap1) \<Rightarrow>
          if \<not> wi_dacl_present io sddl then
            (Err (Win None (lit ''SDDL has no DACL'')), fs, free_security_descriptor sd heap1)
          else
            (let result = wi_set_security io path;
                 fs1 = (if result = 0 then set_dacl path sddl fs else fs);
                 heap2 = free_security_descriptor sd heap1
             in if result \<noteq> 0 then (Err (Win (Some (sint result)) (wi_os_message io result)), fs1, heap2)
                else (Ok (), fs1, heap2)))"

text \<open>\<open>File::create\<close> follows links, truncates a file and gives a new one the inherited list.\<close>

definition file_create :: "win_io \<Rightarrow> rstr \<Rightarrow> win_files \<Rightarrow> (win_error, rstr) res \<times> win_files" where
  "file_create io path fs =
     (case wi_file_create io of
        Some e \<Rightarrow> (Err e, fs)
      | None \<Rightarrow>
          (let p = real_path fs path in
           case fs p of
             Some (WinFile b d) \<Rightarrow> (Ok p, fs(p \<mapsto> WinFile [] d))
           | None \<Rightarrow> (Ok p, fs(p \<mapsto> WinFile [] None))
           | _ \<Rightarrow> (Err (Win (Some 5) (lit ''Access is denied.'')), fs)))"

definition file_fill :: "rstr \<Rightarrow> bytes \<Rightarrow> win_files \<Rightarrow> win_files" where
  "file_fill p data fs = (case fs p of Some (WinFile b d) \<Rightarrow> fs(p \<mapsto> WinFile data d) | _ \<Rightarrow> fs)"

text \<open>\<open>secure_write_secret\<close>. Between the check for a link and the creation other processes may
  act on the directory: \<open>interfere\<close>.\<close>

definition secure_write_secret_windows ::
  "win_io \<Rightarrow> (win_files \<Rightarrow> win_files) \<Rightarrow> win_files \<times> local_heap \<Rightarrow> rstr \<Rightarrow> bytes
   \<Rightarrow> (win_error, unit) res \<times> (win_files \<times> local_heap)" where
  "secure_write_secret_windows io interfere s path data =
     (case s of (fs, heap) \<Rightarrow>
        (case fs path of
           Some (WinLink t) \<Rightarrow> (Err (Win None (lit ''refusing to write secret through a symlink'')), s)
         | _ \<Rightarrow>
             (case file_create io path (interfere fs) of
                (Err e, fs1) \<Rightarrow> (Err e, (fs1, heap))
              | (Panic, fs1) \<Rightarrow> (Panic, (fs1, heap))
              | (Ok p, fs1) \<Rightarrow>
                  (case wi_short_write io of
                     Some (n, e) \<Rightarrow> (Err e, (file_fill p (take n data) fs1, heap))
                   | None \<Rightarrow>
                       (let (r, fs2, heap2) = apply_sddl_to_path io path SECRET_FILE_SDDL (file_fill p data fs1) heap
                        in (r, (fs2, heap2)))))))"

section \<open>Named pipes\<close>

text \<open>The pipe instances the process holds: those waiting for a client and those serving one.\<close>

record pipe_server =
  ps_heap :: local_heap
  ps_next :: nat
  ps_listening :: "nat list"
  ps_serving :: "nat list"

definition pipe_path :: "rstr \<Rightarrow> rstr" where
  "pipe_path name = [92, 92] @ lit ''.'' @ [92] @ lit ''pipe'' @ [92] @ name"

definition create_pipe_instance :: "win_io \<Rightarrow> rstr \<Rightarrow> rstr option \<Rightarrow> pipe_server \<Rightarrow> (win_error, nat) res \<times> pipe_server" where
  "create_pipe_instance io name sddl ps =
     (case (case sddl of
              Some s \<Rightarrow> (case sddl_to_security_descriptor io s (ps_heap ps) of
                  (Ok sd, heap) \<Rightarrow> (Ok (Some sd), heap) | (Err e, heap) \<Rightarrow> (Err e, heap) | (Panic, heap) \<Rightarrow> (Panic, heap))
            | None \<Rightarrow> (Ok None, ps_heap ps)) of
        (Err e, heap) \<Rightarrow> (Err e, ps\<lparr>ps_heap := heap\<rparr>)
      | (Panic, heap) \<Rightarrow> (Panic, ps\<lparr>ps_heap := heap\<rparr>)
      | (Ok attr, heap) \<Rightarrow>
          (let created = wi_create_pipe io (pipe_path name);
               heap1 = (case attr of Some sd \<Rightarrow> free_security_descriptor sd heap | None \<Rightarrow> heap);
               ps1 = ps\<lparr>ps_heap := heap1\<rparr>
           in case created of
                Some e \<Rightarrow> (Err e, ps1)
              | None \<Rightarrow> (Ok (ps_next ps1), ps1\<lparr>ps_next := Suc (ps_next ps1), ps_listening := ps_next ps1 # ps_listening ps1\<rparr>)))"

definition drop_instance :: "nat \<Rightarrow> pipe_server \<Rightarrow> pipe_server" where
  "drop_instance h ps = ps\<lparr>ps_listening := remove1 h (ps_listening ps)\<rparr>"

datatype win_listener = WinTcpListener sock_addr | PipeListener rstr rstr

text \<open>\<open>TransportListener::bind\<close>: the instance created to find errors early is a local variable and
  is dropped at the end of the block.\<close>

definition bind_windows ::
  "win_io \<Rightarrow> (sock_addr \<Rightarrow> win_error option) \<Rightarrow> endpoint \<Rightarrow> rstr \<Rightarrow> pipe_server \<Rightarrow> (win_error, win_listener) res \<times> pipe_server" where
  "bind_windows io bind_tcp ep security_sddl ps =
     (case ep of
        Unix path \<Rightarrow> (Err (Win None (lit ''unix sockets unsupported'')), ps)
      | Tcp_Addr addr \<Rightarrow> ((case bind_tcp addr of None \<Rightarrow> Ok (WinTcpListener addr) | Some e \<Rightarrow> Err e), ps)
      | NamedPipe name \<Rightarrow>
          (case create_pipe_instance io name (Some security_sddl) ps of
             (Ok first, ps1) \<Rightarrow> (Ok (PipeListener name security_sddl), drop_instance first ps1)
           | (Err e, ps1) \<Rightarrow> (Err e, ps1)
           | (Panic, ps1) \<Rightarrow> (Panic, ps1)))"

text \<open>The user of a pipe client is not resolved; its process number is attached if known.\<close>

definition impersonate_and_read_sid :: "rstr option" where
  "impersonate_and_read_sid = None"

definition peer_identity_of_pipe :: "win_io \<Rightarrow> peer_identity" where
  "peer_identity_of_pipe io =
     with_pid \<lparr>pi_credentials = None, pi_sid = impersonate_and_read_sid\<rparr> (wi_client_pid io)"

text \<open>\<open>accept\<close> on a pipe: a new instance, the wait for a client, its identity. An instance whose
  wait fails is dropped.\<close>

definition accept_pipe :: "win_io \<Rightarrow> rstr \<Rightarrow> rstr \<Rightarrow> pipe_server \<Rightarrow> (win_error, nat \<times> peer_identity) res \<times> pipe_server" where
  "accept_pipe io name sddl ps =
     (case create_pipe_instance io name (Some sddl) ps of
        (Err e, ps1) \<Rightarrow> (Err e, ps1)
      | (Panic, ps1) \<Rightarrow> (Panic, ps1)
      | (Ok h, ps1) \<Rightarrow>
          (case wi_pipe_connect io of
             Some e \<Rightarrow> (Err e, drop_instance h ps1)
           | None \<Rightarrow> (Ok (h, peer_identity_of_pipe io), (drop_instance h ps1)\<lparr>ps_serving := h # ps_serving ps1\<rparr>)))"

text \<open>
  The client's side: opening the pipe is tried again while all instances are busy and the
  deadline of five seconds has not passed. \<open>attempt k\<close> is the outcome of the \<open>k\<close>-th try and
  \<open>now k\<close> the time in milliseconds at the check behind it. The loop has no counter of its own:
  \<open>None\<close> is a wait that never ends.
\<close>

definition ERROR_PIPE_BUSY :: int where "ERROR_PIPE_BUSY = 231"

definition PIPE_DEADLINE_MS :: nat where "PIPE_DEADLINE_MS = 5000"

definition PIPE_RETRY_MS :: nat where "PIPE_RETRY_MS = 20"

partial_function (option) open_pipe ::
  "(nat \<Rightarrow> (win_error, 's) res) \<Rightarrow> (nat \<Rightarrow> nat) \<Rightarrow> nat \<Rightarrow> nat \<Rightarrow> (win_error, 's) res option" where
  "open_pipe attempt now deadline k =
     (case attempt k of
        Ok client \<Rightarrow> Some (Ok client)
      | Err e \<Rightarrow>
          if os_code e = Some ERROR_PIPE_BUSY \<and> now k < deadline then open_pipe attempt now deadline (Suc k)
          else Some (Err e)
      | Panic \<Rightarrow> Some Panic)"

definition connect_pipe :: "(nat \<Rightarrow> (win_error, 's) res) \<Rightarrow> nat \<Rightarrow> (nat \<Rightarrow> nat) \<Rightarrow> (win_error, 's) res option" where
  "connect_pipe attempt start now = open_pipe attempt now (start + PIPE_DEADLINE_MS) 0"

fun connect_endpoint_windows ::
  "(sock_addr \<Rightarrow> (win_error, 's) res) \<Rightarrow> (rstr \<Rightarrow> nat \<Rightarrow> (win_error, 's) res) \<Rightarrow> nat \<Rightarrow> (nat \<Rightarrow> nat) \<Rightarrow> endpoint
   \<Rightarrow> (win_error, 's) res option" where
  "connect_endpoint_windows connect_tcp attempt start now (Unix path) =
     Some (Err (Win None (lit ''unix sockets not supported on this platform'')))"
| "connect_endpoint_windows connect_tcp attempt start now (Tcp_Addr addr) = Some (connect_tcp addr)"
| "connect_endpoint_windows connect_tcp attempt start now (NamedPipe name) =
     connect_pipe (attempt (pipe_path name)) start now"

section \<open>Shutdown\<close>

text \<open>\<open>wait_for_shutdown_signal\<close>: which handlers could be installed, then the first signal with a
  handler; \<open>None\<close> while none of the listed signals ends the wait.\<close>

datatype console_signal = CtrlC | CtrlBreak

definition shutdown_handled :: "bool \<Rightarrow> bool \<Rightarrow> console_signal list" where
  "shutdown_handled break_ok ctrl_c_ok =
     (if \<not> break_ok then (if ctrl_c_ok then [CtrlC] else [])
      else if \<not> ctrl_c_ok then [CtrlBreak] else [CtrlC, CtrlBreak])"

definition wait_for_shutdown_signal_windows :: "bool \<Rightarrow> bool \<Rightarrow> console_signal list \<Rightarrow> bool" where
  "wait_for_shutdown_signal_windows break_ok ctrl_c_ok signals =
     ((\<not> break_ok \<and> \<not> ctrl_c_ok) \<or> list_ex (\<lambda>s. List.member (shutdown_handled break_ok ctrl_c_ok) s) signals)"

section \<open>Lemmas\<close>

definition heap_ok :: "local_heap \<Rightarrow> bool" where
  "heap_ok heap \<longleftrightarrow> (\<forall>sd \<in> set (lh_live heap). sd < lh_next heap)"

text \<open>Releasing a descriptor just made leaves the live blocks as they were before.\<close>

lemma descriptor_released:
  assumes "sddl_to_security_descriptor io sddl heap = (Ok sd, heap1)"
  shows "lh_live (free_security_descriptor sd heap1) = lh_live heap
    \<and> lh_bad_free (free_security_descriptor sd heap1) = lh_bad_free heap
    \<and> (heap_ok heap \<longrightarrow> heap_ok (free_security_descriptor sd heap1))"
  using assms
  by (auto simp: sddl_to_security_descriptor_def free_security_descriptor_def heap_ok_def less_SucI split: option.splits)

lemma descriptor_failed: "sddl_to_security_descriptor io sddl heap = (Err e, heap1) \<Longrightarrow> heap1 = heap"
  by (auto simp: sddl_to_security_descriptor_def split: option.splits)

lemma descriptor_no_panic: "sddl_to_security_descriptor io sddl heap \<noteq> (Panic, heap1)"
  by (auto simp: sddl_to_security_descriptor_def split: option.splits)

lemma apply_sddl_heap:
  assumes "apply_sddl_to_path io path sddl fs heap = (r, fs', heap')"
  shows "lh_live heap' = lh_live heap \<and> lh_bad_free heap' = lh_bad_free heap \<and> (heap_ok heap \<longrightarrow> heap_ok heap')"
  using assms descriptor_released [of io sddl heap] descriptor_failed [of io sddl heap]
  by (auto simp: apply_sddl_to_path_def Let_def descriptor_no_panic split: prod.splits res.splits if_splits)

lemma apply_sddl_same [simp]:
  "lh_live (snd (snd (apply_sddl_to_path io path sddl fs heap))) = lh_live heap"
  "lh_bad_free (snd (snd (apply_sddl_to_path io path sddl fs heap))) = lh_bad_free heap"
  by (metis apply_sddl_heap surj_pair snd_conv)+

lemma create_pipe_heap:
  assumes "create_pipe_instance io name sddl ps = (r, ps')"
  shows "lh_live (ps_heap ps') = lh_live (ps_heap ps) \<and> lh_bad_free (ps_heap ps') = lh_bad_free (ps_heap ps)
    \<and> (heap_ok (ps_heap ps) \<longrightarrow> heap_ok (ps_heap ps'))"
proof (cases sddl)
  case (Some s)
  show ?thesis
  proof (cases "sddl_to_security_descriptor io s (ps_heap ps)")
    case (Pair c heap)
    with assms Some show ?thesis
      using descriptor_released [of io s "ps_heap ps"] descriptor_failed [of io s "ps_heap ps"]
      by (cases c) (auto simp: create_pipe_instance_def Let_def descriptor_no_panic split: option.splits)
  qed
qed (use assms in \<open>auto simp: create_pipe_instance_def split: option.splits\<close>)

lemma create_pipe_listening:
  assumes "create_pipe_instance io name sddl ps = (r, ps')"
  shows "ps_serving ps' = ps_serving ps
    \<and> ps_listening ps' = (case r of Ok h \<Rightarrow> h # ps_listening ps | _ \<Rightarrow> ps_listening ps)"
  using assms
  by (auto simp: create_pipe_instance_def Let_def split: option.splits prod.splits res.splits)

definition win_content :: "win_files \<times> local_heap \<Rightarrow> rstr \<Rightarrow> bytes option" where
  "win_content s path = (case fst s path of Some (WinFile b d) \<Rightarrow> Some b | _ \<Rightarrow> None)"

definition win_link :: "win_files \<times> local_heap \<Rightarrow> rstr \<Rightarrow> bool" where
  "win_link s path = (case fst s path of Some (WinLink t) \<Rightarrow> True | _ \<Rightarrow> False)"

lemma apply_sddl_files:
  assumes "apply_sddl_to_path io path sddl fs heap = (r, fs', heap')"
  shows "fs' = (if r = Ok () then set_dacl path sddl fs else fs)"
  using assms
  by (auto simp: apply_sddl_to_path_def Let_def split: prod.splits res.splits if_splits)

lemma set_dacl_content: "win_content (set_dacl path sddl fs, heap) n = win_content (fs, heap) n"
  by (auto simp: set_dacl_def win_content_def split: option.splits win_node.splits)

text \<open>Undisturbed, a write touches the one file: the content is the data or a part of it.\<close>

lemma secure_write_plain:
  assumes "fs path = None \<and> d = None \<or> fs path = Some (WinFile b d)" and "wi_file_create io = None"
  shows "secure_write_secret_windows io id (fs, heap) path data =
    (case wi_short_write io of
       Some (n, e) \<Rightarrow> (Err e, (fs(path \<mapsto> WinFile (take n data) d), heap))
     | None \<Rightarrow> (let (r, fs2, heap2) = apply_sddl_to_path io path SECRET_FILE_SDDL (fs(path \<mapsto> WinFile data d)) heap
                in (r, (fs2, heap2))))"
  using assms
  by (auto simp: secure_write_secret_windows_def file_create_def file_fill_def real_path_def Let_def
      split: option.splits prod.splits)

lemma secure_write_refused:
  assumes "wi_file_create io \<noteq> None \<or> fs path = Some WinDir \<or> (\<exists>t. fs path = Some (WinLink t))"
  shows "\<exists>e. secure_write_secret_windows io id (fs, heap) path data = (Err e, (fs, heap))"
  using assms
  by (auto simp: secure_write_secret_windows_def file_create_def real_path_def Let_def
      split: option.splits win_node.splits)

lemma set_dacl_plain: "set_dacl path sddl (fs(path \<mapsto> WinFile b d)) = fs(path \<mapsto> WinFile b (Some sddl))"
  by (simp add: set_dacl_def real_path_def)

lemma secure_write_files:
  assumes "secure_write_secret_windows io id (fs, heap) path data = (r, (fs', heap'))"
  shows "(if r = Ok () then fs' = fs(path \<mapsto> WinFile data (Some SECRET_FILE_SDDL))
          else \<forall>other. other \<noteq> path \<longrightarrow> fs' other = fs other)
    \<and> lh_live heap' = lh_live heap \<and> lh_bad_free heap' = lh_bad_free heap \<and> (heap_ok heap \<longrightarrow> heap_ok heap')"
proof (cases "wi_file_create io \<noteq> None \<or> fs path = Some WinDir \<or> (\<exists>t. fs path = Some (WinLink t))")
  case True
  with assms secure_write_refused [of io fs path heap data] show ?thesis by auto
next
  case False
  then obtain b d where plain: "fs path = None \<and> d = None \<or> fs path = Some (WinFile b d)" "wi_file_create io = None"
    by (metis not_Some_eq win_node.exhaust)
  obtain r2 fs2 heap2 where ap: "apply_sddl_to_path io path SECRET_FILE_SDDL (fs(path \<mapsto> WinFile data d)) heap = (r2, fs2, heap2)"
    by (metis surj_pair)
  show ?thesis
    using assms secure_write_plain [where fs = fs and path = path, OF plain, of heap data] ap apply_sddl_files [OF ap] apply_sddl_heap [OF ap]
    by (auto simp: set_dacl_plain split: option.splits)
qed

interpretation windows_secrets: secret_store "secure_write_secret_windows io id" win_content win_link for io
proof unfold_locales
  fix s s' :: "win_files \<times> local_heap" and n m :: rstr and b :: bytes
  obtain fs heap where s: "s = (fs, heap)" by fastforce
  obtain r fs1 heap1 where run: "secure_write_secret_windows io id (fs, heap) n b = (r, (fs1, heap1))"
    by (metis surj_pair)
  note files = secure_write_files [OF run]
  show "win_content s' n = Some b" if "secure_write_secret_windows io id s n b = (Ok (), s')"
    using that s run files by (auto simp: win_content_def)
  show "win_content (snd (secure_write_secret_windows io id s n b)) m = win_content s m" if "m \<noteq> n"
    using that s run files by (auto simp: win_content_def split: if_splits)
  show "\<exists>e. secure_write_secret_windows io id s n b = (Err e, s)" if "win_link s n"
    using that s by (auto simp: win_link_def secure_write_secret_windows_def split: option.splits win_node.splits)
qed

text \<open>The wait for a busy pipe from the \<open>k\<close>-th try on.\<close>

lemma open_pipe_ends:
  assumes "\<forall>k. start + PIPE_RETRY_MS * k \<le> now k" and "k \<le> 250"
  shows "\<exists>j. k \<le> j \<and> j \<le> 250 \<and> open_pipe attempt now (start + PIPE_DEADLINE_MS) k = Some (attempt j)
    \<and> (\<forall>i. k \<le> i \<and> i < j \<longrightarrow> (\<exists>e. attempt i = Err e \<and> os_code e = Some ERROR_PIPE_BUSY))"
  using assms(2)
proof (induction "250 - k" arbitrary: k)
  case 0
  then have "\<not> now k < start + PIPE_DEADLINE_MS"
    using assms(1) [rule_format, of k] by (simp add: PIPE_DEADLINE_MS_def PIPE_RETRY_MS_def)
  then have "open_pipe attempt now (start + PIPE_DEADLINE_MS) k = Some (attempt k)"
    by (simp add: open_pipe.simps [of _ _ _ k] split: res.splits)
  with 0 show ?case by auto
next
  case (Suc n)
  show ?case
  proof (cases "\<exists>e. attempt k = Err e \<and> os_code e = Some ERROR_PIPE_BUSY \<and> now k < start + PIPE_DEADLINE_MS")
    case True
    then have step: "open_pipe attempt now (start + PIPE_DEADLINE_MS) k = open_pipe attempt now (start + PIPE_DEADLINE_MS) (Suc k)"
      by (auto simp: open_pipe.simps [of _ _ _ k])
    from Suc have "n = 250 - Suc k" "Suc k \<le> 250" by auto
    from Suc.hyps(1) [OF this] obtain j where "Suc k \<le> j" "j \<le> 250"
      "open_pipe attempt now (start + PIPE_DEADLINE_MS) (Suc k) = Some (attempt j)"
      "\<forall>i. Suc k \<le> i \<and> i < j \<longrightarrow> (\<exists>e. attempt i = Err e \<and> os_code e = Some ERROR_PIPE_BUSY)" by blast
    moreover from this True have "\<exists>e. attempt i = Err e \<and> os_code e = Some ERROR_PIPE_BUSY" if "k \<le> i" "i < j" for i
      using that by (cases "i = k") (auto simp: Suc_le_eq)
    ultimately show ?thesis using step by (intro exI [of _ j]) simp
  next
    case False
    then have "open_pipe attempt now (start + PIPE_DEADLINE_MS) k = Some (attempt k)"
      by (auto simp: open_pipe.simps [of _ _ _ k] split: res.splits)
    with Suc.prems show ?thesis by auto
  qed
qed

text \<open>A listener through its life: the bind and any number of accepts, whatever the system calls
  answer in each.\<close>

definition accept_all :: "rstr \<Rightarrow> rstr \<Rightarrow> pipe_server \<Rightarrow> win_io list \<Rightarrow> pipe_server" where
  "accept_all name sddl ps ios = foldl (\<lambda>ps io. snd (accept_pipe io name sddl ps)) ps ios"

definition same_heap :: "local_heap \<Rightarrow> local_heap \<Rightarrow> bool" where
  "same_heap heap heap' \<longleftrightarrow> lh_live heap' = lh_live heap \<and> lh_bad_free heap' = lh_bad_free heap"

lemma same_heap_refl [simp]: "same_heap heap heap"
  by (simp add: same_heap_def)

lemma drop_instance_simps [simp]:
  "ps_heap (drop_instance h ps) = ps_heap ps" "ps_serving (drop_instance h ps) = ps_serving ps"
  "ps_listening (drop_instance h ps) = remove1 h (ps_listening ps)"
  by (simp_all add: drop_instance_def)

lemma create_pipe_effect:
  assumes "create_pipe_instance io name sddl ps = (r, ps')"
  shows "same_heap (ps_heap ps) (ps_heap ps') \<and> ps_serving ps' = ps_serving ps
    \<and> ps_listening ps' = (case r of Ok h \<Rightarrow> h # ps_listening ps | _ \<Rightarrow> ps_listening ps)"
  using create_pipe_heap [OF assms] create_pipe_listening [OF assms] by (simp add: same_heap_def)

lemma bind_windows_effect:
  assumes "bind_windows io bind_tcp ep sddl ps = (r, ps')"
  shows "same_heap (ps_heap ps) (ps_heap ps') \<and> ps_listening ps' = ps_listening ps \<and> ps_serving ps' = ps_serving ps"
  using assms
  by (auto simp: bind_windows_def dest!: create_pipe_effect split: endpoint.splits prod.splits res.splits)

lemma accept_pipe_effect:
  assumes "accept_pipe io name sddl ps = (r, ps')"
  shows "same_heap (ps_heap ps) (ps_heap ps') \<and> ps_listening ps' = ps_listening ps
    \<and> ps_serving ps' = (case r of Ok (h, peer) \<Rightarrow> h # ps_serving ps | _ \<Rightarrow> ps_serving ps)"
  using assms
  by (auto simp: accept_pipe_def dest!: create_pipe_effect split: option.splits prod.splits res.splits)

lemma accept_all_effect:
  "same_heap (ps_heap ps) (ps_heap (accept_all name sddl ps ios))
   \<and> ps_listening (accept_all name sddl ps ios) = ps_listening ps"
proof (induction ios rule: rev_induct)
  case (snoc io ios)
  obtain r ps' where "accept_pipe io name sddl (accept_all name sddl ps ios) = (r, ps')" by fastforce
  with snoc accept_pipe_effect [OF this] show ?case by (simp add: accept_all_def same_heap_def)
qed (simp add: accept_all_def same_heap_def)

section \<open>Properties\<close>

text \<open>C20: Security descriptors are released exactly once. Through a bind, any number of accepts and
  any write of a secret, whichever system calls fail and whatever other processes do, the live
  blocks of the local heap are those from before and no block was released twice.\<close>

theorem descriptors_released:
  "same_heap (ps_heap ps)
     (ps_heap (accept_all name sddl (snd (bind_windows io bind_tcp ep sddl ps)) ios))
   \<and> same_heap heap (snd (snd (secure_write_secret_windows io interfere (fs, heap) path data)))"
proof -
  obtain r ps' where "bind_windows io bind_tcp ep sddl ps = (r, ps')" by fastforce
  with bind_windows_effect [OF this] accept_all_effect [of ps' name sddl ios]
  have "same_heap (ps_heap ps) (ps_heap (accept_all name sddl (snd (bind_windows io bind_tcp ep sddl ps)) ios))"
    by (simp add: same_heap_def)
  moreover have "same_heap heap (snd (snd (secure_write_secret_windows io interfere (fs, heap) path data)))"
    by (auto simp: secure_write_secret_windows_def same_heap_def Let_def case_prod_beta
        split: option.splits win_node.splits prod.splits res.splits)
  ultimately show ?thesis ..
qed

text \<open>C35: A secret is protected once its write succeeds, and exposed when only the last step fails.
  Undisturbed, a successful write leaves the data under the restricted access control list and
  changes no other path, and a link is refused. But the list is applied after the data: when
  that fails, the write reports an error and the secret stays in the file: a file that was there
  keeps the list it had, a new one has the inherited list.\<close>

theorem secret_protected_at_the_end:
  "(case secure_write_secret_windows io id (fs, heap) path data of (r, (fs', heap')) \<Rightarrow>
      (r = Ok () \<longrightarrow> fs' = fs(path \<mapsto> WinFile data (Some SECRET_FILE_SDDL)))
      \<and> (\<forall>other. other \<noteq> path \<longrightarrow> fs' other = fs other)
      \<and> ((\<exists>t. fs path = Some (WinLink t)) \<longrightarrow> is_Ok r = False \<and> fs' = fs)
      \<and> (\<forall>d. (fs path = None \<and> d = None \<or> (\<exists>b. fs path = Some (WinFile b d)))
          \<and> wi_file_create io = None \<and> wi_short_write io = None \<and> wi_convert io SECRET_FILE_SDDL = None
          \<and> wi_dacl_present io SECRET_FILE_SDDL \<and> wi_set_security io path \<noteq> 0
          \<longrightarrow> is_Ok r = False \<and> fs' = fs(path \<mapsto> WinFile data d)))"
proof -
  obtain r fs' heap' where run: "secure_write_secret_windows io id (fs, heap) path data = (r, (fs', heap'))"
    by (metis surj_pair)
  note files = secure_write_files [OF run]
  have link: "is_Ok r = False \<and> fs' = fs" if "\<exists>t. fs path = Some (WinLink t)"
    using that secure_write_refused [of io fs path heap data] run by auto
  have exposed: "is_Ok r = False \<and> fs' = fs(path \<mapsto> WinFile data d)"
    if "fs path = None \<and> d = None \<or> fs path = Some (WinFile b d)" "wi_file_create io = None" "wi_short_write io = None"
      "wi_convert io SECRET_FILE_SDDL = None" "wi_dacl_present io SECRET_FILE_SDDL" "wi_set_security io path \<noteq> 0" for b d
    using run that(3-6) secure_write_plain [where fs = fs and path = path and d = d and b = b and io = io and heap = heap and data = data, OF that(1,2)]
    by (auto simp: apply_sddl_to_path_def sddl_to_security_descriptor_def Let_def)
  show ?thesis using files link exposed unfolding run by (fastforce split: if_splits)
qed

definition example_win :: win_io where
  "example_win = \<lparr>wi_convert = \<lambda>_. None, wi_dacl_present = \<lambda>_. True, wi_set_security = \<lambda>_. 5, wi_os_message = \<lambda>_. [],
     wi_create_pipe = \<lambda>_. None, wi_pipe_connect = None, wi_client_pid = 77, wi_file_create = None, wi_short_write = None\<rparr>"

theorem secret_protected_at_the_end_witness:
  "\<exists>r heap'. secure_write_secret_windows example_win id
       ([[97] \<mapsto> WinFile [9] (Some (lit ''D:(A;;GA;;;WD)''))], \<lparr>lh_live = [], lh_next = 0, lh_bad_free = False\<rparr>) [97] [1, 2]
     = (r, ([[97] \<mapsto> WinFile [1, 2] (Some (lit ''D:(A;;GA;;;WD)''))], heap')) \<and> \<not> is_Ok r"
proof -
  let ?fs = "[[97] \<mapsto> WinFile [9] (Some (lit ''D:(A;;GA;;;WD)''))] :: win_files"
  let ?heap = "\<lparr>lh_live = [], lh_next = 0, lh_bad_free = False\<rparr>"
  obtain r fs' heap' where run: "secure_write_secret_windows example_win id (?fs, ?heap) [97] [1, 2] = (r, (fs', heap'))"
    by (metis surj_pair)
  show ?thesis
    using secret_protected_at_the_end [where io = example_win and fs = ?fs and path = "[97]" and data = "[1, 2]" and heap = ?heap]
    unfolding run by (auto simp: example_win_def)
qed

text \<open>A link planted between the check and the creation is followed: the file it leads to is
  overwritten with the secret, although links are to be refused.\<close>

lemma planted_link_followed:
  assumes "fs path = None" and "interfere fs path = Some (WinLink victim)" and "interfere fs victim = Some (WinFile b d)"
    and "victim \<noteq> path" and "wi_file_create io = None" and "wi_short_write io = None"
  shows "\<exists>r fs' heap' d'. secure_write_secret_windows io interfere (fs, heap) path data = (r, (fs', heap'))
    \<and> fs' victim = Some (WinFile data d')"
proof -
  let ?fs1 = "(interfere fs)(victim \<mapsto> WinFile data d)"
  obtain r fs' heap' where ap: "apply_sddl_to_path io path SECRET_FILE_SDDL ?fs1 heap = (r, fs', heap')" by (metis surj_pair)
  have "secure_write_secret_windows io interfere (fs, heap) path data = (r, (fs', heap'))"
    using assms ap by (simp add: secure_write_secret_windows_def file_create_def file_fill_def real_path_def)
  moreover have "win_content (fs', heap') victim = Some data"
    using apply_sddl_files [OF ap] set_dacl_content [of path SECRET_FILE_SDDL ?fs1 heap' victim]
    by (auto simp: win_content_def split: if_splits)
  ultimately show ?thesis by (auto simp: win_content_def split: option.splits win_node.splits)
qed

text \<open>C19: The wait for a busy pipe ends. When the clock does not run backwards and each pause takes at
  least its 20 milliseconds, connecting returns after at most 251 tries with the outcome of the
  last of them, and every try before it found all instances busy.\<close>

theorem pipe_wait_ends:
  assumes "start \<le> now 0" and "\<forall>k. now k + PIPE_RETRY_MS \<le> now (Suc k)"
  shows "\<exists>k \<le> 250. connect_pipe attempt start now = Some (attempt k)
    \<and> (\<forall>j < k. \<exists>e. attempt j = Err e \<and> os_code e = Some ERROR_PIPE_BUSY)"
proof -
  have "start + PIPE_RETRY_MS * k \<le> now k" for k
  proof (induction k)
    case (Suc k)
    then show ?case using assms(2) [rule_format, of k] by simp
  qed (use assms(1) in simp)
  then obtain k where "k \<le> 250" "open_pipe attempt now (start + PIPE_DEADLINE_MS) 0 = Some (attempt k)"
    "\<forall>i. i < k \<longrightarrow> (\<exists>e. attempt i = Err e \<and> os_code e = Some ERROR_PIPE_BUSY)"
    using open_pipe_ends [of start now 0 attempt] by auto
  then show ?thesis by (auto simp: connect_pipe_def)
qed

theorem pipe_wait_ends_witness:
  "\<exists>k \<le> 250. connect_pipe (\<lambda>k. if k < 3 then Err (Win (Some 231) []) else Ok (k :: nat)) 7 (\<lambda>k. 9 + 25 * k)
     = Some (if k < 3 then Err (Win (Some 231) []) else Ok k)"
  using pipe_wait_ends [of 7 "\<lambda>k. 9 + 25 * k" "\<lambda>k. if k < 3 then Err (Win (Some 231) []) else Ok (k :: nat)"]
  by (auto simp: PIPE_RETRY_MS_def)

text \<open>There is no pipe until the first accept. A successful bind leaves no instance waiting (the
  one it made is dropped on return), and neither does any accept. A client that comes while no
  instance exists is told by the system that the file is not found, which is not the error the
  client waits on: it fails at once.\<close>

theorem no_pipe_before_accept:
  assumes "bind_windows io bind_tcp (NamedPipe name) sddl ps = (Ok l, ps')" and "ps_listening ps = []"
    and "ps_serving ps = []"
    and "\<forall>s. ps_listening s = [] \<and> ps_serving s = [] \<longrightarrow> opens s = Err (Win (Some 2) msg)"
  shows "ps_listening ps' = [] \<and> connect_pipe (\<lambda>_. opens ps') start now = Some (Err (Win (Some 2) msg))
    \<and> ps_listening (accept_all name sddl ps' ios) = []"
proof -
  have "ps_listening ps' = []" "ps_serving ps' = []" using bind_windows_effect [OF assms(1)] assms(2,3) by simp_all
  with assms(4) accept_all_effect [of ps' name sddl ios] show ?thesis
    by (simp add: connect_pipe_def open_pipe.simps [of _ _ _ 0] ERROR_PIPE_BUSY_def)
qed

definition example_server :: pipe_server where
  "example_server = \<lparr>ps_heap = \<lparr>lh_live = [], lh_next = 0, lh_bad_free = False\<rparr>, ps_next = 0, ps_listening = [], ps_serving = []\<rparr>"

theorem no_pipe_before_accept_witness:
  "\<exists>l ps'. bind_windows example_win (\<lambda>_. None) (NamedPipe (lit ''relay'')) [] example_server = (Ok l, ps')
     \<and> connect_pipe (\<lambda>_. if ps_listening ps' = [] \<and> ps_serving ps' = [] then Err (Win (Some 2) []) else Ok (0 :: nat)) 0 id
       = Some (Err (Win (Some 2) []))"
proof -
  obtain l ps' where run: "bind_windows example_win (\<lambda>_. None) (NamedPipe (lit ''relay'')) [] example_server = (Ok l, ps')"
    by (simp add: bind_windows_def create_pipe_instance_def sddl_to_security_descriptor_def example_win_def Let_def)
  show ?thesis
    using run no_pipe_before_accept [OF run, of "\<lambda>s. if ps_listening s = [] \<and> ps_serving s = [] then Err (Win (Some 2) []) else Ok (0 :: nat)" "[]" 0 id "[]"]
    by (auto simp: example_server_def)
qed

text \<open>A pipe client has the wrong identity. Its user is never resolved, so a list of allowed
  security identifiers turns every pipe client away; and its process number comes with the
  user number 0, so a list of allowed users that contains 0 lets every pipe client with a known
  process in, whoever runs it.\<close>

theorem pipe_client_identity:
  assumes "accept_pipe io name sddl ps = (Ok (h, peer), ps')"
  shows "(cfg_allowed_uids config = [] \<and> cfg_allowed_sids config \<noteq> [] \<longrightarrow> \<not> peer_is_allowed peer config)
    \<and> (wi_client_pid io \<noteq> 0 \<and> 0 \<in> set (cfg_allowed_uids config) \<longrightarrow> peer_is_allowed peer config)"
proof -
  have peer: "peer = peer_identity_of_pipe io"
    using assms by (auto simp: accept_pipe_def split: option.splits prod.splits res.splits)
  show ?thesis
    unfolding peer by (auto simp: peer_identity_of_pipe_def impersonate_and_read_sid_def with_pid_def peer_is_allowed_def)
qed

theorem pipe_client_identity_witness:
  "\<exists>h peer ps'. accept_pipe example_win (lit ''relay'') [] example_server = (Ok (h, peer), ps')
     \<and> \<not> peer_is_allowed peer (config_default\<lparr>cfg_allowed_sids := [lit ''S-1-5-18'']\<rparr>)
     \<and> peer_is_allowed peer (config_default\<lparr>cfg_allowed_uids := [0]\<rparr>)"
proof -
  obtain h peer ps' where run: "accept_pipe example_win (lit ''relay'') [] example_server = (Ok (h, peer), ps')"
    by (simp add: accept_pipe_def create_pipe_instance_def sddl_to_security_descriptor_def example_win_def Let_def)
  have "cfg_allowed_uids config_default = []" by (simp add: config_default_def)
  then show ?thesis
    using run pipe_client_identity [OF run, of "config_default\<lparr>cfg_allowed_sids := [lit ''S-1-5-18'']\<rparr>"]
      pipe_client_identity [OF run, of "config_default\<lparr>cfg_allowed_uids := [0]\<rparr>"]
    by (auto simp: example_win_def)
qed

text \<open>When neither signal handler can be installed the wait ends at once, and with it the daemon.\<close>

lemma no_handler_no_wait: "wait_for_shutdown_signal_windows False False []"
  by (simp add: wait_for_shutdown_signal_windows_def)

end
