(* ===== verification/Windows_Service.thy ===== *)
theory Windows_Service
  imports Windows_Platform
begin

text \<open>
  The windows service (\<open>service.rs\<close>): installation and removal through the service control
  manager, and the service process with its control handler, the status it reports and the
  daemon it runs (\<open>run_daemon\<close> of \<open>daemon/mod.rs\<close> on windows). The manager belongs to windows:
  its operations are arguments that act on a state of their own.

  The theorems: the process reports its states in order, runs the daemon until a stop request
  and stops at the next poll after it; and a daemon that cannot start is reported as running
  and then as stopped without error.
\<close>

section \<open>Installation\<close>

datatype service_type = OwnProcess | OtherType

datatype service_start_type = AutoStart | OtherStart

datatype service_error_control = NormalError | OtherErrorControl

record service_info =
  sn_name :: rstr
  sn_display_name :: rstr
  sn_service_type :: service_type
  sn_start_type :: service_start_type
  sn_error_control :: service_error_control
  sn_executable_path :: rstr
  sn_launch_arguments :: "rstr list"
  sn_dependencies :: "rstr list"
  sn_account_name :: "rstr option"
  sn_account_password :: "rstr option"

definition SERVICE_NAME :: rstr where "SERVICE_NAME = lit ''meridian-relay''"

definition SERVICE_DISPLAY :: rstr where "SERVICE_DISPLAY = lit ''Meridian Relay (iOS USB mux)''"

definition SERVICE_DESC :: rstr where
  "SERVICE_DESC = lit ''Cross-platform usbmuxd-compatible USB multiplexing relay for iOS devices.''"

datatype service_state = StartPending | ServiceRunning | ServiceStopped | OtherState

text \<open>The operations of the service control manager.\<close>

record 'm scm =
  scm_connect :: "'m \<Rightarrow> (rstr, unit) res"
  scm_create_service :: "service_info \<Rightarrow> 'm \<Rightarrow> (rstr, unit) res \<times> 'm"
  scm_set_description :: "rstr \<Rightarrow> rstr \<Rightarrow> 'm \<Rightarrow> (rstr, unit) res \<times> 'm"
  scm_open_service :: "rstr \<Rightarrow> 'm \<Rightarrow> (rstr, unit) res"
  scm_query_status :: "rstr \<Rightarrow> 'm \<Rightarrow> (rstr, service_state) res"
  scm_stop :: "rstr \<Rightarrow> 'm \<Rightarrow> 'm"
  scm_delete :: "rstr \<Rightarrow> 'm \<Rightarrow> (rstr, unit) res \<times> 'm"

definition relay_service_info :: "rstr \<Rightarrow> service_info" where
  "relay_service_info binary_path = \<lparr>sn_name = SERVICE_NAME, sn_display_name = SERVICE_DISPLAY,
     sn_service_type = OwnProcess, sn_start_type = AutoStart, sn_error_control = NormalError,
     sn_executable_path = binary_path, sn_launch_arguments = [lit ''daemon'', lit ''--service-run''], sn_dependencies = [],
     sn_account_name = None, sn_account_password = None\<rparr>"

definition install_service :: "'m scm \<Rightarrow> rstr \<Rightarrow> 'm \<Rightarrow> (rstr, unit) res \<times> 'm" where
  "install_service ops binary_path m =
     (case scm_connect ops m of
        Ok _ \<Rightarrow>
          (case scm_create_service ops (relay_service_info binary_path) m of
             (Ok _, m1) \<Rightarrow> scm_set_description ops SERVICE_NAME SERVICE_DESC m1
           | (r, m1) \<Rightarrow> (r, m1))
      | r \<Rightarrow> (r, m))"

text \<open>Stopping is best effort.\<close>

definition uninstall_service :: "'m scm \<Rightarrow> 'm \<Rightarrow> (rstr, unit) res \<times> 'm" where
  "uninstall_service ops m =
     (case scm_connect ops m of
        Ok _ \<Rightarrow>
          (case scm_open_service ops SERVICE_NAME m of
             Ok _ \<Rightarrow>
               (case scm_query_status ops SERVICE_NAME m of
                  Ok st \<Rightarrow> scm_delete ops SERVICE_NAME (if st \<noteq> ServiceStopped then scm_stop ops SERVICE_NAME m else m)
                | Err e \<Rightarrow> (Err e, m)
                | Panic \<Rightarrow> (Panic, m))
           | r \<Rightarrow> (r, m))
      | r \<Rightarrow> (r, m))"

section \<open>The daemon on windows\<close>

definition config_default_windows :: "rstr option \<Rightarrow> daemon_config" where
  "config_default_windows env_var = config_default\<lparr>cfg_endpoint := NamedPipe (lit ''meridian-relay''),
     cfg_socket_path := default_endpoint_windows, cfg_pipe_security := default_pipe_security_windows,
     cfg_lockdown_dir := default_lockdown_dir_windows env_var\<rparr>"

text \<open>The start of \<open>run_daemon_inner\<close>: there is no socket file to secure or to clean up.\<close>

definition daemon_start_windows ::
  "start_io \<Rightarrow> win_io \<Rightarrow> (sock_addr \<Rightarrow> win_error option) \<Rightarrow> daemon_config \<Rightarrow> file_system \<times> pipe_server
   \<Rightarrow> (rstr, win_listener) res \<times> (file_system \<times> pipe_server)" where
  "daemon_start_windows start io bind_tcp config w =
     (case validate config of
        Err e \<Rightarrow> (Err e, w)
      | Panic \<Rightarrow> (Panic, w)
      | Ok _ \<Rightarrow>
          (case remove_stale start (cfg_endpoint config) (fst w) of
             (Err e, fs1) \<Rightarrow> (Err (err_text e), (fs1, snd w))
           | (Panic, fs1) \<Rightarrow> (Panic, (fs1, snd w))
           | (Ok _, fs1) \<Rightarrow>
               (let (r, ps1) = bind_windows io bind_tcp (cfg_endpoint config) (cfg_pipe_security config) (snd w)
                in (map_err win_msg r, (fs1, ps1)))))"

section \<open>The service process\<close>

datatype service_control = ControlStop | ControlShutdown | ControlInterrogate | OtherControl

datatype handler_result = NoError | NotImplemented

text \<open>The control handler and the flag \<open>STOP_REQUESTED\<close>.\<close>

fun control_handler :: "service_control \<Rightarrow> bool \<Rightarrow> handler_result \<times> bool" where
  "control_handler ControlStop stop = (NoError, True)"
| "control_handler ControlShutdown stop = (NoError, True)"
| "control_handler ControlInterrogate stop = (NoError, stop)"
| "control_handler OtherControl stop = (NotImplemented, stop)"

record service_status =
  ss_service_type :: service_type
  ss_state :: service_state
  ss_accepted :: "service_control list"
  ss_exit_code :: u32
  ss_checkpoint :: u32
  ss_wait_hint_ms :: nat
  ss_process_id :: "u32 option"

definition pending_status :: service_status where
  "pending_status = \<lparr>ss_service_type = OwnProcess, ss_state = StartPending, ss_accepted = [], ss_exit_code = 0,
     ss_checkpoint = 0, ss_wait_hint_ms = 10000, ss_process_id = None\<rparr>"

definition running_status :: service_status where
  "running_status = \<lparr>ss_service_type = OwnProcess, ss_state = ServiceRunning, ss_accepted = [ControlStop, ControlShutdown], ss_exit_code = 0,
     ss_checkpoint = 0, ss_wait_hint_ms = 0, ss_process_id = None\<rparr>"

definition stopped_status :: service_status where
  "stopped_status = \<lparr>ss_service_type = OwnProcess, ss_state = ServiceStopped, ss_accepted = [], ss_exit_code = 0,
     ss_checkpoint = 0, ss_wait_hint_ms = 0, ss_process_id = None\<rparr>"

text \<open>What the system answers: to registering the handler, to each status, to building the runtime,
  and to the start of the daemon.\<close>

record service_env =
  se_register :: "rstr option"
  se_set_status :: "service_state \<Rightarrow> rstr option"
  se_runtime :: "rstr option"
  se_start :: start_io
  se_win :: win_io
  se_bind_tcp :: "sock_addr \<Rightarrow> win_error option"
  se_program_data :: "rstr option"
  se_lockdown :: lockdown_dir

text \<open>The process: the statuses reported, the stop flag, the configuration, the daemon once it
  runs, and the result once \<open>run_service\<close> has returned.\<close>

record service_proc =
  sp_reported :: "service_status list"
  sp_stop :: bool
  sp_config :: daemon_config
  sp_daemon :: "usb_daemon option"
  sp_result :: "(rstr, unit) res option"

definition service_finish :: "service_env \<Rightarrow> (rstr, unit) res \<Rightarrow> service_proc \<Rightarrow> service_proc" where
  "service_finish env result sp =
     (case se_set_status env ServiceStopped of
        None \<Rightarrow> sp\<lparr>sp_reported := sp_reported sp @ [stopped_status], sp_result := Some result\<rparr>
      | Some e \<Rightarrow> sp\<lparr>sp_result := Some (Err e)\<rparr>)"

text \<open>\<open>run_service\<close> up to the daemon's accept loop; \<open>stop\<close> is the flag after the controls that
  arrived meanwhile.\<close>

definition service_begin ::
  "service_env \<Rightarrow> bool \<Rightarrow> file_system \<times> pipe_server \<Rightarrow> service_proc \<times> (file_system \<times> pipe_server)" where
  "service_begin env stop w =
     (let config = config_default_windows (se_program_data env);
          sp = \<lparr>sp_reported = [], sp_stop = stop, sp_config = config, sp_daemon = None, sp_result = None\<rparr>
      in case se_register env of
           Some e \<Rightarrow> (sp\<lparr>sp_stop := False, sp_result := Some (Err e)\<rparr>, w)
         | None \<Rightarrow>
             (case se_set_status env StartPending of
                Some e \<Rightarrow> (sp\<lparr>sp_result := Some (Err e)\<rparr>, w)
              | None \<Rightarrow>
                  (let sp1 = sp\<lparr>sp_reported := [pending_status]\<rparr> in
                   case se_runtime env of
                     Some e \<Rightarrow> (sp1\<lparr>sp_result := Some (Err e)\<rparr>, w)
                   | None \<Rightarrow>
                       (case se_set_status env ServiceRunning of
                          Some e \<Rightarrow> (sp1\<lparr>sp_result := Some (Err e)\<rparr>, w)
                        | None \<Rightarrow>
                            (let sp2 = sp1\<lparr>sp_reported := [pending_status, running_status]\<rparr>;
                                 (r, w1) = daemon_start_windows (se_start env) (se_win env) (se_bind_tcp env) config w
                             in case r of
                                  Ok l \<Rightarrow> (sp2\<lparr>sp_daemon := Some (usb_daemon_new config (metrics_new 0) (se_lockdown env))\<rparr>, w1)
                                | Err e \<Rightarrow> (service_finish env (Err e) sp2, w1)
                                | Panic \<Rightarrow> (sp2\<lparr>sp_result := Some Panic\<rparr>, w1))))))"

text \<open>What happens while the daemon runs: controls, the poll of the flag every 250 milliseconds, and
  the daemon's own events. The poll is the only shutdown signal of the daemon.\<close>

datatype service_event = Control service_control | PollTimer | DaemonEvent usb_event

fun is_shutdown :: "usb_event \<Rightarrow> bool" where
  "is_shutdown ShutdownSignal = True"
| "is_shutdown _ = False"

fun service_step ::
  "service_env \<Rightarrow> plist_reader \<Rightarrow> plist_reader \<Rightarrow> service_proc \<Rightarrow> service_event \<Rightarrow> service_proc" where
  "service_step env from_binary from_xml sp (Control c) =
     (if sp_result sp \<noteq> None then sp else sp\<lparr>sp_stop := snd (control_handler c (sp_stop sp))\<rparr>)"
| "service_step env from_binary from_xml sp PollTimer =
     (case (sp_result sp, sp_daemon sp) of
        (None, Some ud) \<Rightarrow>
          if sp_stop sp
          then service_finish env (Ok ())
                 (sp\<lparr>sp_daemon := Some (usb_daemon_step from_binary from_xml (sp_config sp) ud ShutdownSignal)\<rparr>)
          else sp
      | _ \<Rightarrow> sp)"
| "service_step env from_binary from_xml sp (DaemonEvent ev) =
     (case (sp_result sp, sp_daemon sp) of
        (None, Some ud) \<Rightarrow>
          if is_shutdown ev then sp
          else sp\<lparr>sp_daemon := Some (usb_daemon_step from_binary from_xml (sp_config sp) ud ev)\<rparr>
      | _ \<Rightarrow> sp)"

text \<open>The flag is clear when the process starts; \<open>early\<close> are the controls that arrive between the
  registration of the handler and the start of the daemon.\<close>

definition run_service ::
  "service_env \<Rightarrow> plist_reader \<Rightarrow> plist_reader \<Rightarrow> service_control list \<Rightarrow> file_system \<times> pipe_server \<Rightarrow> service_event list
   \<Rightarrow> service_proc" where
  "run_service env from_binary from_xml early w evs =
     (let stop = foldl (\<lambda>flag c. snd (control_handler c flag)) False early
      in foldl (service_step env from_binary from_xml) (fst (service_begin env stop w)) evs)"

text \<open>\<open>service_main\<close>, which the dispatcher of \<open>run_as_service\<close> calls: what it writes to the standard
  error once \<open>run_service\<close> has returned.\<close>

definition service_main ::
  "service_env \<Rightarrow> plist_reader \<Rightarrow> plist_reader \<Rightarrow> service_control list \<Rightarrow> file_system \<times> pipe_server \<Rightarrow> service_event list
   \<Rightarrow> rstr list" where
  "service_main env from_binary from_xml early w evs =
     (case sp_result (run_service env from_binary from_xml early w evs) of
        Some (Err e) \<Rightarrow> [lit ''service failed: '' @ e]
      | _ \<Rightarrow> [])"

section \<open>Lemmas\<close>

lemmas status_defs = pending_status_def running_status_def stopped_status_def

text \<open>What holds between any two events of the process.\<close>

definition service_inv :: "service_env \<Rightarrow> service_proc \<Rightarrow> bool" where
  "service_inv env sp \<longleftrightarrow>
     sp_config sp = config_default_windows (se_program_data env)
     \<and> (\<exists>n. sp_reported sp = take n [pending_status, running_status, stopped_status])
     \<and> (sp_result sp = None \<longrightarrow> sp_reported sp = [pending_status, running_status]
          \<and> (\<exists>ud. sp_daemon sp = Some ud \<and> \<not> ud_stopped ud))
     \<and> (\<forall>ud. sp_daemon sp = Some ud \<longrightarrow> server_inv (cfg_max_clients (sp_config sp)) (ud_server ud)
          \<and> (ud_stopped ud \<longrightarrow> sp_stop sp))"

lemma usb_step_stopped: "\<not> is_shutdown ev \<Longrightarrow> ud_stopped (usb_daemon_step from_binary from_xml config ud ev) = ud_stopped ud"
  by (cases ev) (auto split: res.splits option.splits prod.splits)

lemma reported_prefix:
  "\<exists>n. [] = take n xs" "\<exists>n. [a] = take n (a # xs)" "\<exists>n. [a, b] = take n (a # b # xs)"
  "\<exists>n. [a, b, c] = take n [a, b, c]"
  by (rule exI [of _ 0], simp, rule exI [of _ 1], simp, rule exI [of _ 2], simp, rule exI [of _ 3], simp)

lemma service_inv_finish:
  assumes "sp_config sp = config_default_windows (se_program_data env)" and "sp_reported sp = [pending_status, running_status]"
    and "\<And>ud. sp_daemon sp = Some ud \<Longrightarrow> server_inv (cfg_max_clients (sp_config sp)) (ud_server ud) \<and> sp_stop sp"
  shows "service_inv env (service_finish env r sp)"
  using assms reported_prefix(3,4)
  by (cases "se_set_status env ServiceStopped") (auto simp: service_inv_def service_finish_def)

lemma service_inv_step:
  assumes "service_inv env sp"
  shows "service_inv env (service_step env from_binary from_xml sp ev)"
proof (cases "sp_result sp")
  case None
  with assms obtain ud where ud: "sp_daemon sp = Some ud" "\<not> ud_stopped ud" by (auto simp: service_inv_def)
  have inv: "server_inv (cfg_max_clients (sp_config sp)) (ud_server (usb_daemon_step from_binary from_xml (sp_config sp) ud e))" for e
    using assms ud by (intro usb.inv_step) (auto simp: service_inv_def)
  show ?thesis
  proof (cases ev)
    case (Control c)
    with assms None ud show ?thesis by (cases c) (auto simp: service_inv_def)
  next
    case PollTimer
    let ?ud = "usb_daemon_step from_binary from_xml (sp_config sp) ud ShutdownSignal"
    show ?thesis
    proof (cases "sp_stop sp")
      case True
      then have "service_inv env (service_finish env (Ok ()) (sp\<lparr>sp_daemon := Some ?ud\<rparr>))"
        using assms None inv [of ShutdownSignal] by (intro service_inv_finish) (auto simp: service_inv_def)
      with PollTimer None ud True show ?thesis by simp
    qed (use PollTimer None ud assms in simp)
  next
    case (DaemonEvent e)
    with assms None ud inv [of e] usb_step_stopped [of e] show ?thesis by (auto simp: service_inv_def)
  qed
next
  case (Some r)
  then have "service_step env from_binary from_xml sp ev = sp" by (cases ev) auto
  with assms show ?thesis by simp
qed

lemma service_inv_begin: "service_inv env (fst (service_begin env stop w))"
  using reported_prefix server_inv_new
  by (auto simp: service_begin_def service_inv_def service_finish_def usb_daemon_new_def Let_def
      split: option.splits prod.splits res.splits)

lemma service_inv_run: "service_inv env (run_service env from_binary from_xml early w evs)"
  unfolding run_service_def Let_def
proof (induction evs rule: rev_induct)
  case (snoc e es)
  then show ?case using service_inv_step [of env _ from_binary from_xml e] by simp
qed (simp add: service_inv_begin)

text \<open>Only a stop or a shutdown sets the flag, and only the flag ends the process with success.\<close>

definition stop_controls :: "service_control set" where
  "stop_controls = {ControlStop, ControlShutdown}"

lemma control_handler_flag: "snd (control_handler c flag) \<longleftrightarrow> flag \<or> c \<in> stop_controls"
  by (cases c) (auto simp: stop_controls_def)

lemma early_flag: "foldl (\<lambda>flag c. snd (control_handler c flag)) f early \<longleftrightarrow> f \<or> set early \<inter> stop_controls \<noteq> {}"
  by (induction early arbitrary: f) (auto simp: control_handler_flag)

lemma begin_flag: "sp_stop (fst (service_begin env stop w)) \<Longrightarrow> stop"
  "sp_result (fst (service_begin env stop w)) \<noteq> Some (Ok ())"
  by (auto simp: service_begin_def service_finish_def Let_def split: option.splits prod.splits res.splits if_splits)

lemma finish_fields [simp]:
  "sp_stop (service_finish env r sp) = sp_stop sp"
  "sp_result (service_finish env r sp) = Some (case se_set_status env ServiceStopped of None \<Rightarrow> r | Some e \<Rightarrow> Err e)"
  by (simp_all add: service_finish_def split: option.splits)

lemma step_flag:
  "sp_stop (service_step env from_binary from_xml sp ev) \<Longrightarrow> sp_stop sp \<or> (\<exists>c \<in> stop_controls. ev = Control c)"
  "sp_result (service_step env from_binary from_xml sp ev) = Some (Ok ()) \<Longrightarrow>
     sp_result sp = Some (Ok ()) \<or> sp_stop (service_step env from_binary from_xml sp ev)"
  "sp_result sp = Some (Ok ()) \<Longrightarrow> service_step env from_binary from_xml sp ev = sp"
  by (cases ev; auto simp: control_handler_flag split: option.splits if_splits)+

lemma stop_cause:
  "sp_stop (run_service env from_binary from_xml early w evs) \<Longrightarrow>
     \<exists>c \<in> stop_controls. c \<in> set early \<or> Control c \<in> set evs"
  unfolding run_service_def Let_def
proof (induction evs rule: rev_induct)
  case Nil
  then show ?case using begin_flag(1) early_flag [of False early] by fastforce
next
  case (snoc e es)
  then show ?case using step_flag(1) [of env from_binary from_xml _ e] by fastforce
qed

lemma success_after_stop:
  "sp_result (run_service env from_binary from_xml early w evs) = Some (Ok ()) \<Longrightarrow>
     sp_stop (run_service env from_binary from_xml early w evs)"
  unfolding run_service_def Let_def
proof (induction evs rule: rev_induct)
  case Nil
  then show ?case using begin_flag(2) by simp
next
  case (snoc e es)
  then show ?case using step_flag(2) [of env from_binary from_xml _ e] step_flag(3) [of _ env from_binary from_xml e] by fastforce
qed

text \<open>A process told to stop: either it has ended well or it still runs with the flag set.\<close>

definition ended_well :: "service_proc \<Rightarrow> bool" where
  "ended_well sp \<longleftrightarrow> sp_result sp = Some (Ok ()) \<and> sp_reported sp = [pending_status, running_status, stopped_status]
     \<and> (\<exists>ud. sp_daemon sp = Some ud \<and> ud_stopped ud)"

lemma stopping_step:
  assumes "service_inv env sp" and "se_set_status env ServiceStopped = None"
    and "ended_well sp \<or> sp_result sp = None \<and> sp_stop sp"
  shows "(if ev = PollTimer then ended_well (service_step env from_binary from_xml sp ev)
          else ended_well (service_step env from_binary from_xml sp ev)
            \<or> sp_result (service_step env from_binary from_xml sp ev) = None
              \<and> sp_stop (service_step env from_binary from_xml sp ev))"
proof (cases "ended_well sp")
  case True
  then have "service_step env from_binary from_xml sp ev = sp" by (cases ev) (auto simp: ended_well_def)
  with True show ?thesis by (metis (full_types))
next
  case False
  with assms obtain ud where run: "sp_result sp = None" "sp_stop sp" "sp_daemon sp = Some ud"
    "sp_reported sp = [pending_status, running_status]" by (auto simp: service_inv_def)
  show ?thesis
  proof (cases ev)
    case (Control c)
    with run show ?thesis by (cases c) auto
  qed (use run assms(2) in \<open>auto simp: ended_well_def service_finish_def\<close>)
qed

lemma stopping_run:
  assumes "service_inv env sp" and "se_set_status env ServiceStopped = None"
    and "ended_well sp \<or> sp_result sp = None \<and> sp_stop sp"
  shows "ended_well (foldl (service_step env from_binary from_xml) sp (evs @ [PollTimer]))"
  using assms
proof (induction evs arbitrary: sp)
  case Nil
  then show ?case using stopping_step [of env sp PollTimer from_binary from_xml] by simp
next
  case (Cons e es)
  have "ended_well (service_step env from_binary from_xml sp e)
      \<or> sp_result (service_step env from_binary from_xml sp e) = None \<and> sp_stop (service_step env from_binary from_xml sp e)"
    using stopping_step [OF Cons.prems, of e from_binary from_xml] by (auto split: if_splits)
  with Cons.IH [OF service_inv_step [OF Cons.prems(1)] Cons.prems(2)] show ?case by simp
qed

section \<open>Properties\<close>

text \<open>C17: The life of the service process. Whatever controls, polls and events of the daemon come in
  whatever order: the states reported are a prefix of pending, running, stopped; until the
  process ends it has reported running and its daemon has not stopped; the daemon keeps its
  limit of clients; and neither does the daemon stop nor the process end with success unless a
  stop or a shutdown control came, while the daemon ran or before. And a running process that
  gets such a control ends with success at the next poll at the latest, its daemon stopped and
  its stop reported, whatever comes in between.\<close>

theorem service_lifecycle:
  fixes env from_binary from_xml early w evs
  defines "sp \<equiv> run_service env from_binary from_xml early w evs"
  shows "(\<exists>n. sp_reported sp = take n [pending_status, running_status, stopped_status])
    \<and> (sp_result sp = None \<longrightarrow> last (sp_reported sp) = running_status \<and> (\<exists>ud. sp_daemon sp = Some ud \<and> \<not> ud_stopped ud))
    \<and> (\<forall>ud. sp_daemon sp = Some ud \<longrightarrow>
         sv_permits (ud_server ud) + card (dom (sv_handlers (ud_server ud))) = cfg_max_clients (sp_config sp))
    \<and> (sp_result sp = Some (Ok ()) \<or> (\<exists>ud. sp_daemon sp = Some ud \<and> ud_stopped ud) \<longrightarrow>
         (\<exists>c \<in> {ControlStop, ControlShutdown}. c \<in> set early \<or> Control c \<in> set evs))
    \<and> (\<forall>c \<in> {ControlStop, ControlShutdown}. \<forall>more_evs.
         sp_result sp = None \<and> se_set_status env ServiceStopped = None \<longrightarrow>
         (let sp' = foldl (service_step env from_binary from_xml) sp (Control c # more_evs @ [PollTimer])
          in sp_result sp' = Some (Ok ()) \<and> last (sp_reported sp') = stopped_status
             \<and> (\<exists>ud. sp_daemon sp' = Some ud \<and> ud_stopped ud)))"
proof -
  have inv: "service_inv env sp" unfolding sp_def by (rule service_inv_run)
  have stop: "ended_well (foldl (service_step env from_binary from_xml) sp (Control c # more_evs @ [PollTimer]))"
    if "c \<in> {ControlStop, ControlShutdown}" "sp_result sp = None" "se_set_status env ServiceStopped = None" for c more_evs
  proof -
    let ?sp = "service_step env from_binary from_xml sp (Control c)"
    have "sp_result ?sp = None \<and> sp_stop ?sp" using that by auto
    with stopping_run [OF service_inv_step [OF inv] that(3), of from_binary from_xml "Control c" from_binary from_xml more_evs]
    show ?thesis by simp
  qed
  have "(sp_result sp = None \<longrightarrow> last (sp_reported sp) = running_status \<and> (\<exists>ud. sp_daemon sp = Some ud \<and> \<not> ud_stopped ud))"
    "(\<exists>n. sp_reported sp = take n [pending_status, running_status, stopped_status])"
    "(\<forall>ud. sp_daemon sp = Some ud \<longrightarrow>
         sv_permits (ud_server ud) + card (dom (sv_handlers (ud_server ud))) = cfg_max_clients (sp_config sp))"
    using inv by (auto simp: service_inv_def server_inv_def)
  moreover have "sp_stop sp" if "sp_result sp = Some (Ok ()) \<or> (\<exists>ud. sp_daemon sp = Some ud \<and> ud_stopped ud)"
    using that inv success_after_stop [of env from_binary from_xml early w evs] by (auto simp: sp_def service_inv_def)
  then have "(sp_result sp = Some (Ok ()) \<or> (\<exists>ud. sp_daemon sp = Some ud \<and> ud_stopped ud) \<longrightarrow>
         (\<exists>c \<in> {ControlStop, ControlShutdown}. c \<in> set early \<or> Control c \<in> set evs))"
    using stop_cause [of env from_binary from_xml early w evs] unfolding sp_def stop_controls_def by blast
  moreover have "sp_result sp' = Some (Ok ()) \<and> last (sp_reported sp') = stopped_status
      \<and> (\<exists>ud. sp_daemon sp' = Some ud \<and> ud_stopped ud)" if "ended_well sp'" for sp'
    using that by (auto simp: ended_well_def)
  ultimately show ?thesis unfolding Let_def using stop by blast
qed

definition example_service :: service_env where
  "example_service = \<lparr>se_register = None, se_set_status = \<lambda>_. None, se_runtime = None, se_start = example_start,
     se_win = example_win, se_bind_tcp = \<lambda>_. None, se_program_data = None,
     se_lockdown = \<lparr>ld_exists = False, ld_files = Map.empty\<rparr>\<rparr>"

lemma validate_default_windows: "validate (config_default_windows env_var) = Ok ()"
  by (simp add: config_default_windows_def validate_def config_default_def)

lemma endpoint_default_windows: "cfg_endpoint (config_default_windows env_var) = NamedPipe (lit ''meridian-relay'')"
  by (simp add: config_default_windows_def)

lemma pipe_start_ok:
  "\<exists>l w1. daemon_start_windows start example_win bind_tcp (config_default_windows env_var) w = (Ok l, w1)"
  by (simp add: daemon_start_windows_def validate_default_windows remove_stale_def endpoint_default_windows
      bind_windows_def create_pipe_instance_def sddl_to_security_descriptor_def example_win_def Let_def)

lemma example_service_runs: "sp_result (run_service example_service (\<lambda>_. Panic) (\<lambda>_. Panic) [] (Map.empty, example_server) []) = None"
proof -
  obtain l w1 where "daemon_start_windows example_start example_win (\<lambda>_. None) (config_default_windows None)
      (Map.empty, example_server) = (Ok l, w1)" using pipe_start_ok by blast
  then show ?thesis by (simp add: run_service_def service_begin_def example_service_def Let_def)
qed

theorem service_lifecycle_witness:
  "let sp' = foldl (service_step example_service (\<lambda>_. Panic) (\<lambda>_. Panic))
       (run_service example_service (\<lambda>_. Panic) (\<lambda>_. Panic) [] (Map.empty, example_server) [])
       [Control ControlStop, DaemonEvent (Incoming (UnixPeer None)), PollTimer]
   in sp_result sp' = Some (Ok ()) \<and> last (sp_reported sp') = stopped_status"
proof -
  let ?sp = "run_service example_service (\<lambda>_. Panic) (\<lambda>_. Panic) [] (Map.empty, example_server) []"
  have ok: "se_set_status example_service ServiceStopped = None" by (simp add: example_service_def)
  have "let sp' = foldl (service_step example_service (\<lambda>_. Panic) (\<lambda>_. Panic)) ?sp
      (Control ControlStop # [DaemonEvent (Incoming (UnixPeer None))] @ [PollTimer])
    in sp_result sp' = Some (Ok ()) \<and> last (sp_reported sp') = stopped_status \<and> (\<exists>ud. sp_daemon sp' = Some ud \<and> ud_stopped ud)"
    using service_lifecycle [of example_service "\<lambda>_. Panic" "\<lambda>_. Panic" "[]" "(Map.empty, example_server)" "[]"] example_service_runs ok
    by blast
  then show ?thesis unfolding Let_def append_Cons append_Nil by blast
qed

text \<open>A daemon that cannot start: the process has already reported that it runs, then reports a
  stop with exit code 0, and only its own return value carries the error.\<close>

lemma failed_start_reported_as_clean_stop:
  assumes "se_register env = None" and "\<And>st. se_set_status env st = None" and "se_runtime env = None"
    and "daemon_start_windows (se_start env) (se_win env) (se_bind_tcp env) (config_default_windows (se_program_data env)) w
      = (Err e, w1)"
  shows "sp_reported (fst (service_begin env stop w)) = [pending_status, running_status, stopped_status]
    \<and> sp_result (fst (service_begin env stop w)) = Some (Err e) \<and> ss_exit_code stopped_status = 0"
  using assms by (simp add: service_begin_def service_finish_def status_defs)

text \<open>The service runs with the built-in configuration, whatever the configuration file and the
  command line say.\<close>

lemma service_ignores_configuration:
  "sp_config (run_service env from_binary from_xml early w evs) = config_default_windows (se_program_data env)"
  using service_inv_run [of env from_binary from_xml early w evs] by (simp add: service_inv_def)

end
