(* ===== verification/Windows_Driver.thy ===== *)
theory Windows_Driver
  imports Windows_Service Host_Setup
begin

text \<open>
  Provisioning on windows: the driver package (\<open>driver.rs\<close>) and the windows branch of
  \<open>setup.rs\<close>, which adds the service. The files are those of \<open>Host_Setup\<close>; what \<open>pnputil\<close>, the
  device installation functions and the service control manager answer are arguments, and so is
  the text of the driver package, which is included from the packaging directory.

  The theorems: a second run finds the package in place and writes nothing, an unsigned package
  is no failure; but with the service a second run fails, although it is documented as safe.
\<close>

section \<open>The driver package\<close>

definition INF_NAME :: rstr where "INF_NAME = lit ''meridian-relay-winusb.inf''"

definition APPLE_MUX_HWID :: rstr where
  "APPLE_MUX_HWID = lit ''USB'' @ [92] @ lit ''Class_FF&SubClass_FE&Prot_02''"

definition ERROR_NO_CATALOG_FOR_OEM_INF :: int where "ERROR_NO_CATALOG_FOR_OEM_INF = -536870353"

record pnp_output =
  pn_success :: bool
  pn_code :: "int option"
  pn_stdout :: rstr
  pn_stderr :: rstr

record driver_io =
  dr_program_data :: "rstr option"
  dr_embedded_inf :: rstr
  dr_create_dir :: "io_error option"
  dr_write :: "io_error option"
  dr_pnputil :: "rstr \<Rightarrow> (io_error, pnp_output) res"
  dr_canonicalize :: "rstr \<Rightarrow> (io_error, rstr) res"
  dr_update_driver :: "rstr \<Rightarrow> rstr \<Rightarrow> bool"
  dr_last_error :: win_error

definition inf_dir :: "driver_io \<Rightarrow> rstr" where
  "inf_dir io = join_path (join_path (program_data (dr_program_data io)) (lit ''Meridian'')) (lit ''drivers'')"

definition embedded_inf_path :: "driver_io \<Rightarrow> rstr" where
  "embedded_inf_path io = join_path (inf_dir io) INF_NAME"

definition deploy_inf :: "driver_io \<Rightarrow> host_files \<Rightarrow> (io_error, rstr) res \<times> host_files" where
  "deploy_inf io fs =
     (case dr_create_dir io of
        Some e \<Rightarrow> (Err e, fs)
      | None \<Rightarrow>
          (let path = join_path (inf_dir io) INF_NAME in
           if fs path = Some (Some (dr_embedded_inf io)) then (Ok path, fs)
           else (case dr_write io of
                   Some e \<Rightarrow> (Err e, fs)
                 | None \<Rightarrow> (Ok path, fs(path \<mapsto> Some (dr_embedded_inf io))))))"

datatype stage_outcome = Staged | AlreadyStaged | UnsignedRejected

definition show_int :: "int \<Rightarrow> rstr" where
  "show_int i = (if i < 0 then 45 # show_nat (nat (- i)) else show_nat (nat i))"

definition show_code :: "int option \<Rightarrow> rstr" where
  "show_code c = (case c of Some i \<Rightarrow> lit ''Some('' @ show_int i @ lit '')'' | None \<Rightarrow> lit ''None'')"

definition stage_driver :: "driver_io \<Rightarrow> rstr \<Rightarrow> (rstr, stage_outcome) res" where
  "stage_driver io inf_path =
     (case dr_pnputil io inf_path of
        Err e \<Rightarrow> Err (lit ''failed to run pnputil: '' @ err_text e)
      | Panic \<Rightarrow> Panic
      | Ok out \<Rightarrow>
          (let combined = pn_stdout out @ [32] @ pn_stderr out in
           if pn_success out then Ok Staged
           else if contains_str combined (lit ''already exists'') \<or> contains_str combined (lit ''was installed'')
             then Ok AlreadyStaged
           else if (case pn_code out of Some c \<Rightarrow> c | None \<Rightarrow> 0) = ERROR_NO_CATALOG_FOR_OEM_INF
               \<or> contains_str combined (lit ''digital signature'')
               \<or> contains_str combined (lit ''not contain digital signature'')
             then Ok UnsignedRejected
           else Err (lit ''pnputil /add-driver failed (code '' @ show_code (pn_code out) @ lit ''): '' @ trim combined)))"

text \<open>\<open>rebind_present_devices\<close>: the number is 1 when the update was accepted.\<close>

definition BENIGN_CODES :: "int list" where
  "BENIGN_CODES = [0x103, 0x10B, 0xE000020B]"

definition rebind_present_devices :: "driver_io \<Rightarrow> rstr \<Rightarrow> (rstr, u32) res" where
  "rebind_present_devices io inf_path =
     res_bind (map_err err_text (dr_canonicalize io inf_path)) (\<lambda>inf_abs.
       if dr_update_driver io APPLE_MUX_HWID inf_abs then Ok 1
       else if List.member BENIGN_CODES
           ((case os_code (dr_last_error io) of Some c \<Rightarrow> c | None \<Rightarrow> 0) mod 2 ^ 32) then Ok 0
       else Err (win_msg (dr_last_error io)))"

section \<open>Provisioning the driver\<close>

definition unsigned_lines :: "rstr list" where
  "unsigned_lines =
     [[9888] @ lit ''  driver package REJECTED by Windows: unsigned catalog'',
      lit ''   Windows x64 requires a signed catalog (.cat) for driver install.'',
      [],
      lit ''   To proceed on this machine for testing, either:'',
      lit ''     A) Boot once with driver signature enforcement disabled:'',
      lit ''          Settings '' @ [8594] @ lit '' Recovery '' @ [8594] @ lit '' Advanced startup '' @ [8594] @ lit '' Restart now'',
      lit ''          '' @ [8594] @ lit '' Troubleshoot '' @ [8594] @ lit '' Advanced options '' @ [8594] @ lit '' Startup Settings'',
      lit ''          '' @ [8594] @ lit '' Restart '' @ [8594] @ lit '' press 7 (Disable driver signature enforcement)'',
      lit ''        then re-run:  meridian-relay.exe setup'',
      [],
      lit ''     B) Enable test signing and test-sign the catalog (for repeated use):'',
      lit ''          bcdedit /set testsigning on   (then reboot)'',
      lit ''        and sign the package with a test cert before staging.'',
      [],
      lit ''   Production deployments must ship an attestation/WHQL-signed catalog.'']"

definition rebind_line :: "(rstr, u32) res \<Rightarrow> (rstr, rstr) res" where
  "rebind_line r = (case r of
     Ok n \<Rightarrow> Ok (if 0 < n then lit ''rebound currently-attached device(s) to WinUSB''
                 else lit ''no Apple device currently attached (nothing to rebind)'')
   | Err e \<Rightarrow> Ok (lit ''note: rebind of present devices reported: '' @ e)
   | Panic \<Rightarrow> Panic)"

definition driver_provision :: "driver_io \<Rightarrow> host_files \<Rightarrow> (rstr, rstr list) res \<times> host_files" where
  "driver_provision io fs =
     (case deploy_inf io fs of
        (Err e, fs1) \<Rightarrow> (Err (lit ''failed to deploy INF: '' @ err_text e), fs1)
      | (Panic, fs1) \<Rightarrow> (Panic, fs1)
      | (Ok inf_path, fs1) \<Rightarrow>
          (let deployed = lit ''INF deployed: '' @ inf_path in
           (case stage_driver io inf_path of
              Err e \<Rightarrow> Err e
            | Panic \<Rightarrow> Panic
            | Ok UnsignedRejected \<Rightarrow> Ok (deployed # unsigned_lines)
            | Ok Staged \<Rightarrow>
                res_bind (rebind_line (rebind_present_devices io inf_path)) (\<lambda>l.
                  Ok [deployed, lit ''driver staged in driver store (future devices bind automatically)'', l])
            | Ok AlreadyStaged \<Rightarrow>
                res_bind (rebind_line (rebind_present_devices io inf_path)) (\<lambda>l.
                  Ok [deployed, lit ''driver already staged'', l]), fs1)))"

section \<open>Setup\<close>

text \<open>\<open>exe\<close> is the answer of \<open>current_exe\<close>.\<close>

definition platform_provision_windows ::
  "driver_io \<Rightarrow> 'm scm \<Rightarrow> (io_error, rstr) res \<Rightarrow> bool \<Rightarrow> host_files \<times> 'm \<Rightarrow> (rstr, rstr list) res \<times> (host_files \<times> 'm)" where
  "platform_provision_windows io ops exe install w =
     (case driver_provision io (fst w) of
        (Err e, fs1) \<Rightarrow> (Err e, (fs1, snd w))
      | (Panic, fs1) \<Rightarrow> (Panic, (fs1, snd w))
      | (Ok log, fs1) \<Rightarrow>
          if install then
            (case exe of
               Err e \<Rightarrow> (Err (err_text e), (fs1, snd w))
             | Panic \<Rightarrow> (Panic, (fs1, snd w))
             | Ok path \<Rightarrow>
                 (case install_service ops path (snd w) of
                    (Ok _, m1) \<Rightarrow> (Ok (log @ [lit ''service installed (auto-start): '' @ path]), (fs1, m1))
                  | (Err e, m1) \<Rightarrow> (Err (lit ''service install failed: '' @ e), (fs1, m1))
                  | (Panic, m1) \<Rightarrow> (Panic, (fs1, m1))))
          else (Ok (log @ [lit ''skipped service install (--skip-service)'']), (fs1, snd w)))"

section \<open>Lemmas\<close>

lemma deploy_inf_Ok:
  "deploy_inf io fs = (Ok p, fs1) \<Longrightarrow> p = embedded_inf_path io \<and> fs1 = fs(embedded_inf_path io \<mapsto> Some (dr_embedded_inf io))"
  by (auto simp: deploy_inf_def embedded_inf_path_def Let_def split: option.splits if_splits)

lemma deploy_inf_again:
  assumes "fs (embedded_inf_path io) = Some (Some (dr_embedded_inf io))" and "dr_create_dir io = None"
  shows "deploy_inf io fs = (Ok (embedded_inf_path io), fs)"
  using assms by (simp add: deploy_inf_def embedded_inf_path_def)

lemma driver_provision_files:
  "driver_provision io fs = (Ok log, fs1) \<Longrightarrow> fs1 = fs(embedded_inf_path io \<mapsto> Some (dr_embedded_inf io))"
  by (auto simp: driver_provision_def Let_def dest!: deploy_inf_Ok split: prod.splits res.splits)

lemma rebind_line_no_error [simp]: "res_bind (rebind_line r) (\<lambda>l. Ok (g l)) \<noteq> Err e"
  by (cases r) (auto simp: rebind_line_def)

lemma install_service_Ok:
  assumes "install_service ops path m = (Ok (), m2)"
  shows "scm_connect ops m = Ok () \<and> (\<exists>m1. scm_create_service ops (relay_service_info path) m = (Ok (), m1)
    \<and> scm_set_description ops SERVICE_NAME SERVICE_DESC m1 = (Ok (), m2))"
  using assms by (auto simp: install_service_def split: res.splits prod.splits)

section \<open>Properties\<close>

text \<open>Provisioning the driver can be repeated. After a successful run the package is in place and
  no other file has changed. A later run on the same machine, whatever the tools answer then
  and even if nothing can be written, leaves every file as it is; it fails only if \<open>pnputil\<close>
  cannot be run or reports an error it does not know, and a package rejected for its missing
  signature is no failure and no device is rebound.\<close>

theorem driver_provision_repeatable:
  assumes "driver_provision io fs = (Ok log, fs1)"
    and "dr_program_data io' = dr_program_data io" and "dr_embedded_inf io' = dr_embedded_inf io" and "dr_create_dir io' = None"
  shows "fs1 = fs(embedded_inf_path io \<mapsto> Some (dr_embedded_inf io))
    \<and> snd (driver_provision io' fs1) = fs1
    \<and> (\<forall>e. fst (driver_provision io' fs1) = Err e \<longleftrightarrow> stage_driver io' (embedded_inf_path io) = Err e)
    \<and> (stage_driver io' (embedded_inf_path io) = Ok UnsignedRejected \<longrightarrow>
         fst (driver_provision io' fs1) = Ok ((lit ''INF deployed: '' @ embedded_inf_path io) # unsigned_lines))"
proof -
  have fs1: "fs1 = fs(embedded_inf_path io \<mapsto> Some (dr_embedded_inf io))" by (rule driver_provision_files [OF assms(1)])
  have path: "embedded_inf_path io' = embedded_inf_path io" using assms(2) by (simp add: embedded_inf_path_def inf_dir_def)
  have again: "deploy_inf io' fs1 = (Ok (embedded_inf_path io), fs1)"
    using deploy_inf_again [of fs1 io'] fs1 assms(3,4) path by simp
  show ?thesis
    using again fs1
    by (auto simp: driver_provision_def Let_def split: res.splits stage_outcome.splits)
qed

definition example_driver :: driver_io where
  "example_driver = \<lparr>dr_program_data = None, dr_embedded_inf = [65], dr_create_dir = None, dr_write = None,
     dr_pnputil = \<lambda>_. Ok \<lparr>pn_success = True, pn_code = Some 0, pn_stdout = [], pn_stderr = []\<rparr>,
     dr_canonicalize = Ok, dr_update_driver = \<lambda>_ _. False, dr_last_error = Win (Some 0x103) []\<rparr>"

lemma example_driver_ok: "\<exists>log. driver_provision example_driver Map.empty
    = (Ok log, [embedded_inf_path example_driver \<mapsto> Some [65]])"
  by (simp add: driver_provision_def deploy_inf_def example_driver_def stage_driver_def rebind_present_devices_def
      rebind_line_def BENIGN_CODES_def embedded_inf_path_def Let_def)

theorem driver_provision_repeatable_witness:
  "\<exists>log fs1. driver_provision example_driver Map.empty = (Ok log, fs1)
     \<and> snd (driver_provision (example_driver\<lparr>dr_write := Some (Io PermissionDenied [])\<rparr>) fs1) = fs1"
proof -
  obtain log fs1 where run: "driver_provision example_driver Map.empty = (Ok log, fs1)" using example_driver_ok by blast
  from driver_provision_repeatable [OF run, of "example_driver\<lparr>dr_write := Some (Io PermissionDenied [])\<rparr>"] run
  show ?thesis by (auto simp: example_driver_def)
qed

text \<open>Setup with the service cannot be repeated on windows. Since the service control manager
  refuses to create a service whose name is taken, once setup has succeeded with the service
  installed, running it again ends with an error, whatever the tools answer, although the
  command is documented as idempotent and safe to run again.\<close>

theorem setup_rerun_fails:
  assumes "platform_provision_windows io ops exe True w = (Ok log, w1)"
    and "\<And>info m m'. scm_create_service ops info m = (Ok (), m') \<Longrightarrow> has_service (sn_name info) m'"
    and "\<And>n d m. has_service n (snd (scm_set_description ops n d m)) = has_service n m"
    and "\<And>info m. has_service (sn_name info) m \<Longrightarrow> \<exists>e. scm_create_service ops info m = (Err e, m)"
  shows "\<forall>log2. fst (platform_provision_windows io' ops exe' True w1) \<noteq> Ok log2"
proof -
  obtain path m m2 where inst: "install_service ops path m = (Ok (), m2)" and w1: "snd w1 = m2"
    using assms(1) by (auto simp: platform_provision_windows_def split: prod.splits res.splits)
  obtain m1 where m1: "scm_create_service ops (relay_service_info path) m = (Ok (), m1)"
    "scm_set_description ops SERVICE_NAME SERVICE_DESC m1 = (Ok (), m2)"
    using install_service_Ok [OF inst] by blast
  have "has_service SERVICE_NAME m1" using assms(2) [OF m1(1)] by (simp add: relay_service_info_def)
  then have "has_service SERVICE_NAME (snd w1)" using assms(3) [of SERVICE_NAME SERVICE_DESC m1] m1(2) w1 by simp
  then have taken: "\<exists>e. scm_create_service ops (relay_service_info p) (snd w1) = (Err e, snd w1)" for p
    using assms(4) [of "relay_service_info p"] by (simp add: relay_service_info_def)
  have "install_service ops p (snd w1) \<noteq> (Ok (), m')" for p m'
    using install_service_Ok [of ops p "snd w1" m'] taken [of p] by auto
  then show ?thesis by (auto simp: platform_provision_windows_def split: prod.splits res.splits)
qed

definition example_scm :: "rstr list scm" where
  "example_scm = \<lparr>scm_connect = \<lambda>_. Ok (),
     scm_create_service = \<lambda>info m. if sn_name info \<in> set m then (Err [], m) else (Ok (), sn_name info # m),
     scm_set_description = \<lambda>n d m. (Ok (), m), scm_open_service = \<lambda>n m. Ok (), scm_query_status = \<lambda>n m. Ok ServiceStopped,
     scm_stop = \<lambda>n m. m, scm_delete = \<lambda>n m. (Ok (), removeAll n m)\<rparr>"

theorem setup_rerun_fails_witness:
  "\<exists>log w1. platform_provision_windows example_driver example_scm (Ok [69]) True (Map.empty, []) = (Ok log, w1)
     \<and> (\<forall>log2. fst (platform_provision_windows example_driver example_scm (Ok [69]) True w1) \<noteq> Ok log2)"
proof -
  obtain log w1 where run: "platform_provision_windows example_driver example_scm (Ok [69]) True (Map.empty, []) = (Ok log, w1)"
    using example_driver_ok
    by (auto simp: platform_provision_windows_def install_service_def example_scm_def)
  moreover have "\<forall>log2. fst (platform_provision_windows example_driver example_scm (Ok [69]) True w1) \<noteq> Ok log2"
    by (rule setup_rerun_fails [OF run, where has_service = "\<lambda>n m. n \<in> set m"])
       (auto simp: example_scm_def split: if_splits)
  ultimately show ?thesis by blast
qed

text \<open>Setup without the service can.\<close>

lemma setup_without_service_repeatable:
  assumes "platform_provision_windows io ops exe False w = (Ok log, w1)" and "dr_create_dir io = None"
  shows "snd (platform_provision_windows io ops exe False w1) = w1"
proof -
  obtain fs1 log1 where run: "driver_provision io (fst w) = (Ok log1, fs1)" and w1: "w1 = (fs1, snd w)"
    using assms(1) by (auto simp: platform_provision_windows_def split: prod.splits res.splits)
  have again: "deploy_inf io fs1 = (Ok (embedded_inf_path io), fs1)"
    using deploy_inf_again [of fs1 io] driver_provision_files [OF run] assms(2) by simp
  then have "snd (driver_provision io fs1) = fs1" by (simp add: driver_provision_def Let_def)
  with w1 show ?thesis by (auto simp: platform_provision_windows_def split: prod.splits res.splits)
qed

end
