(* ===== verification/Relay_Main.thy ===== *)
theory Relay_Main
  imports Command_Line Windows_Driver
begin

text \<open>
  The program itself (\<open>main\<close> of \<open>main.rs\<close>): the subcommands, the choice of the log format, the
  \<open>--print\<close> listing, and for each subcommand what it prints and how it ends. Parsing of the
  command line belongs to \<open>clap\<close>; its result is an argument, and so is the world the commands
  meet. The state is the host's: the socket file of the daemon and the files of the setup. The
  windows-only arms (the service commands and the daemon under the service manager) follow.

  The theorems: how the commands end, and the stats command against a running daemon.
\<close>

section \<open>Commands\<close>

datatype command =
    List_Cmd rstr bool bool
  | Info_Cmd "rstr option" bool
  | Watch_Cmd "rstr option"
  | Daemon_Cmd bool
  | Stats_Cmd "u32 option"
  | Tunnel_Cmd "rstr list" "rstr option"
  | Setup_Cmd bool

text \<open>How the program ends: by returning from \<open>main\<close>, by \<open>exit\<close>, or not within the events listed.\<close>

datatype ending = Returned "(rstr, unit) res" | Exited nat | StillRunning

record outcome =
  oc_stdout :: "rstr list"
  oc_stderr :: "rstr list"
  oc_ending :: ending


section \<open>Logging\<close>

datatype tracing_format = JsonFmt | CompactFmt | PrettyFmt

text \<open>\<open>RUST_LOG\<close>, if it is a valid filter, else the level INFO.\<close>

definition init_tracing :: "rstr option \<Rightarrow> rstr \<Rightarrow> rstr \<times> tracing_format" where
  "init_tracing env_filter kind =
     (case env_filter of Some f \<Rightarrow> f | None \<Rightarrow> lit ''INFO'',
      if kind = lit ''json'' then JsonFmt else if kind = lit ''compact'' then CompactFmt else PrettyFmt)"

definition daemon_tracing :: "daemon_config \<Rightarrow> rstr" where
  "daemon_tracing config = (case cfg_log_format config of Json \<Rightarrow> lit ''json'' | Text \<Rightarrow> lit ''pretty'')"

text \<open>Every minute the daemon logs its counters: the line for each element of \<open>ticks\<close>, given the
  counters at that time.\<close>

definition metrics_log :: "(stats_snapshot \<Rightarrow> rstr option) \<Rightarrow> (nat \<Rightarrow> metrics) \<Rightarrow> nat list \<Rightarrow> rstr list" where
  "metrics_log to_string at ticks =
     map (\<lambda>t. lit ''metrics: '' @ (case to_string (snapshot (at t) t) of Some s \<Rightarrow> s | None \<Rightarrow> [])) ticks"

section \<open>The listing of the settings\<close>

text \<open>Debug formatting of a duration of \<open>n\<close> milliseconds: seconds with up to three decimals, or
  milliseconds.\<close>

definition millis_fraction :: "nat \<Rightarrow> rstr" where
  "millis_fraction n =
     (if n = 0 then []
      else 46 # trim_end_while (\<lambda>c. c = 48) [48 + n div 100, 48 + n div 10 mod 10, 48 + n mod 10])"

definition debug_millis :: "nat \<Rightarrow> rstr" where
  "debug_millis n =
     (if 1000 \<le> n then show_nat (n div 1000) @ millis_fraction (n mod 1000) @ lit ''s''
      else if 0 < n then show_nat n @ lit ''ms'' else lit ''0ns'')"

fun join_comma :: "rstr list \<Rightarrow> rstr" where
  "join_comma [] = []"
| "join_comma [x] = x"
| "join_comma (x # y # xs) = x @ lit '', '' @ join_comma (y # xs)"

definition debug_list :: "rstr list \<Rightarrow> rstr" where
  "debug_list xs = lit ''['' @ join_comma xs @ lit '']''"

definition show_bool :: "bool \<Rightarrow> rstr" where
  "show_bool b = (if b then lit ''true'' else lit ''false'')"

text \<open>\<open>debug_str\<close> is the debug formatting of a string or path.\<close>

definition print_config :: "(rstr \<Rightarrow> rstr) \<Rightarrow> daemon_config \<Rightarrow> rstr list" where
  "print_config debug_str config =
     [lit ''endpoint = '' @ display_string (cfg_endpoint config),
      lit ''backend = '' @ backend_display (cfg_backend config),
      lit ''upstream = '' @ display_string (cfg_upstream config),
      lit ''socket_mode = '' @ show_oct (unat (cfg_socket_mode config)),
      lit ''pipe_security = '' @ cfg_pipe_security config,
      lit ''lockdown_dir = '' @ debug_str (cfg_lockdown_dir config),
      lit ''require_pair_record = '' @ show_bool (cfg_require_pair_record config),
      lit ''scan_interval = '' @ debug_millis (cfg_scan_interval config),
      lit ''usb_timeout = '' @ debug_millis (cfg_usb_timeout config),
      lit ''connect_timeout = '' @ debug_millis (cfg_connect_timeout config),
      lit ''max_clients = '' @ show_nat (cfg_max_clients config),
      lit ''read_workers = '' @ show_nat (cfg_read_workers config),
      lit ''max_reassembly_bytes = '' @ show_nat (cfg_max_reassembly_bytes config),
      lit ''max_packet_bytes = '' @ show_nat (cfg_max_packet_bytes config),
      lit ''max_conn_buffer = '' @ show_nat (cfg_max_conn_buffer config),
      lit ''client_read_buf = '' @ show_nat (cfg_client_read_buf config),
      lit ''max_data_channel = '' @ show_nat (cfg_max_data_channel config),
      lit ''connect_channel = '' @ show_nat (cfg_connect_channel config),
      lit ''allowed_uids = '' @ debug_list (map (\<lambda>u. show_nat (unat u)) (cfg_allowed_uids config)),
      lit ''allowed_sids = '' @ debug_list (map debug_str (cfg_allowed_sids config)),
      lit ''log_format = '' @ log_format_display (cfg_log_format config)]"

section \<open>The world of a command\<close>

record world =
  w_debug_str :: "rstr \<Rightarrow> rstr"
  w_debug_dict :: "dictionary \<Rightarrow> rstr"
  w_to_json :: "device list \<Rightarrow> rstr"
  w_lockdown :: lockdown_io
  w_socket_var :: "rstr option"
  w_connect :: connector
  w_reconnects :: "connector list"
  w_enrich :: "nat \<Rightarrow> (io_error, peer) res \<times> (io_error, peer) res \<times> chan_read list"
  w_ideviceinfo :: "rstr option"
  w_talk :: "endpoint \<Rightarrow> (io_error, talk) res"
  w_bind :: "u16 \<Rightarrow> (rstr, unit) res"
  w_accepts :: "tunnel_accept list"
  w_setup :: setup_io
  w_read_file :: "rstr \<Rightarrow> (rstr, rstr) res"
  w_from_toml :: "rstr \<Rightarrow> (rstr, config_file) res"
  w_config_exists :: bool
  w_start :: start_io

type_synonym host = "file_system \<times> host_files"

definition fails :: "rstr list \<Rightarrow> rstr \<Rightarrow> outcome" where
  "fails out e = \<lparr>oc_stdout = out, oc_stderr = [], oc_ending = Returned (Err e)\<rparr>"

definition panics :: "rstr list \<Rightarrow> outcome" where
  "panics out = \<lparr>oc_stdout = out, oc_stderr = [], oc_ending = Returned Panic\<rparr>"

definition list_devices_from_str :: "world \<Rightarrow> rstr \<Rightarrow> (rstr, device list) res" where
  "list_devices_from_str w endpoint_str =
     list_devices_from (li_to_xml (w_lockdown w)) (li_from_binary (w_lockdown w)) (li_from_xml (w_lockdown w))
       (w_connect w) (w_socket_var w) endpoint_str"

definition main_list :: "world \<Rightarrow> rstr \<Rightarrow> rstr \<Rightarrow> bool \<Rightarrow> bool \<Rightarrow> outcome" where
  "main_list w endpoint format json hide_sensitive =
     (case list_command_output (w_to_json w) (w_lockdown w) endpoint (w_enrich w) format json hide_sensitive
             (list_devices_from_str w endpoint) of
        Ok lines \<Rightarrow> \<lparr>oc_stdout = lines, oc_stderr = [], oc_ending = Returned (Ok ())\<rparr>
      | Err e \<Rightarrow> fails [] e
      | Panic \<Rightarrow> panics [])"

definition missing_info_note :: "rstr list" where
  "missing_info_note = [[], lit ''(note: device info missing '' @ [8212] @ lit '' if the phone shows '' @ [34]
     @ lit ''Trust This Computer?'' @ [34] @ lit '', tap Trust and retry.)'']"

definition main_info :: "world \<Rightarrow> rstr \<Rightarrow> rstr option \<Rightarrow> outcome" where
  "main_info w endpoint udid =
     (case list_devices_from_str w endpoint of
        Err e \<Rightarrow> fails [] e
      | Panic \<Rightarrow> panics []
      | Ok devices \<Rightarrow>
          (case info_select udid devices of
             Inl msg \<Rightarrow> \<lparr>oc_stdout = [], oc_stderr = [msg], oc_ending = Exited 1\<rparr>
           | Inr dev \<Rightarrow>
               (case parse_endpoint endpoint of
                  Err e \<Rightarrow> fails [] e
                | Panic \<Rightarrow> panics []
                | Ok ep \<Rightarrow>
                    (let (conn1, conn2, reads) = w_enrich w 0;
                         enriched = enrich_device_info (w_lockdown w) conn1 conn2 reads (w_ideviceinfo w) dev
                     in \<lparr>oc_stdout = print_device_info enriched,
                         oc_stderr = (if dv_name enriched = None then missing_info_note else []),
                         oc_ending = Returned (Ok ())\<rparr>))))"

definition main_watch :: "world \<Rightarrow> rstr \<Rightarrow> rstr option \<Rightarrow> outcome" where
  "main_watch w endpoint udid =
     (let banner = [case udid of Some u \<Rightarrow> lit ''watching for device '' @ u | None \<Rightarrow> lit ''watching all devices'',
                    lit ''press ctrl-c to stop'', []];
          (r, waits, lines) = watch_devices_from (li_to_xml (w_lockdown w)) (li_from_binary (w_lockdown w))
            (li_from_xml (w_lockdown w)) (w_reconnects w) (w_socket_var w) endpoint udid
      in \<lparr>oc_stdout = banner @ lines, oc_stderr = [],
          oc_ending = (case r of Some res \<Rightarrow> Returned res | None \<Rightarrow> StillRunning)\<rparr>)"

definition main_stats :: "world \<Rightarrow> rstr \<Rightarrow> u32 option \<Rightarrow> outcome" where
  "main_stats w endpoint count =
     (case parse_endpoint endpoint of
        Err e \<Rightarrow> fails [] e
      | Panic \<Rightarrow> panics []
      | Ok ep \<Rightarrow>
          (let line = lit ''connecting to daemon at '' @ display_string ep @ lit ''...'' in
           case w_talk w ep of
             Err e \<Rightarrow> fails [line] (err_text e)
           | Panic \<Rightarrow> panics [line]
           | Ok talk \<Rightarrow>
               (let (r, lines) = stats_command (w_lockdown w) (w_debug_dict w) talk count
                in \<lparr>oc_stdout = line # lines, oc_stderr = [], oc_ending = Returned r\<rparr>)))"

definition show_route :: "u16 \<times> u16 \<Rightarrow> rstr" where
  "show_route = (\<lambda>(a, b). show_nat (unat a) @ [8594] @ show_nat (unat b))"

definition main_tunnel :: "world \<Rightarrow> rstr \<Rightarrow> rstr list \<Rightarrow> outcome" where
  "main_tunnel w endpoint args =
     (case parse_pairs args of
        Err e \<Rightarrow> fails [] (lit ''bad tunnel spec: '' @ e)
      | Panic \<Rightarrow> panics []
      | Ok pairs \<Rightarrow>
          (case parse_endpoint endpoint of
             Err e \<Rightarrow> fails [] e
           | Panic \<Rightarrow> panics []
           | Ok ep \<Rightarrow>
               (let (r, spawned, m) = tunnel_run (w_lockdown w) (w_bind w) pairs None (w_accepts w)
                in \<lparr>oc_stdout = [lit ''tunneling: '' @ join_comma (map show_route pairs)], oc_stderr = [],
                    oc_ending = (case r of Some res \<Rightarrow> Returned res | None \<Rightarrow> StillRunning)\<rparr>)))"

definition main_setup :: "world \<Rightarrow> bool \<Rightarrow> host_files \<Rightarrow> outcome \<times> host_files" where
  "main_setup w skip_service files =
     (let first = lit ''provisioning meridian-relay on this host...'';
          (r, files1) = platform_provision (w_setup w) (\<not> skip_service) files
      in (case r of
            Ok lines \<Rightarrow>
              \<lparr>oc_stdout = first # map (\<lambda>l. lit ''  '' @ [10003, 32] @ l) lines
                 @ [[], lit ''ready '' @ [8212] @ lit '' start the daemon with: meridian-relay daemon''],
               oc_stderr = [], oc_ending = Returned (Ok ())\<rparr>
          | Err e \<Rightarrow>
              \<lparr>oc_stdout = [first], oc_stderr = [lit ''setup failed: '' @ err_text e,
                 lit ''(hint: this command needs administrator/root privileges)''], oc_ending = Exited 1\<rparr>
          | Panic \<Rightarrow> panics [first], files1))"

text \<open>A daemon that has started runs until a signal comes.\<close>

definition main_daemon :: "world \<Rightarrow> cli \<Rightarrow> bool \<Rightarrow> file_system \<Rightarrow> outcome \<times> file_system" where
  "main_daemon w cl print fs =
     (let (r, fs1) = run_daemon_entry (w_read_file w) (w_from_toml w) (w_config_exists w) (w_start w) cl print fs
      in (case r of
            Ok (Printed config) \<Rightarrow>
              \<lparr>oc_stdout = print_config (w_debug_str w) config, oc_stderr = [], oc_ending = Returned (Ok ())\<rparr>
          | Ok (Started config g) \<Rightarrow> \<lparr>oc_stdout = [], oc_stderr = [], oc_ending = StillRunning\<rparr>
          | Err e \<Rightarrow> fails [] e
          | Panic \<Rightarrow> panics [], fs1))"

text \<open>
  The arms of the client commands call nothing that writes to the files of the host (their effects
  are what they print and send), so they have no use for it and pass it on: that is part of the
  translation. Only the daemon and the setup take it.
\<close>

fun main_run :: "world \<Rightarrow> cli \<Rightarrow> command \<Rightarrow> host \<Rightarrow> outcome \<times> host" where
  "main_run w cl (List_Cmd format json hide_sensitive) h = (main_list w (client_endpoint cl) format json hide_sensitive, h)"
| "main_run w cl (Info_Cmd udid no_color) h = (main_info w (client_endpoint cl) udid, h)"
| "main_run w cl (Watch_Cmd udid) h = (main_watch w (client_endpoint cl) udid, h)"
| "main_run w cl (Daemon_Cmd print) h = (let (oc, fs1) = main_daemon w cl print (fst h) in (oc, (fs1, snd h)))"
| "main_run w cl (Stats_Cmd count) h = (main_stats w (client_endpoint cl) count, h)"
| "main_run w cl (Tunnel_Cmd pairs udid) h = (main_tunnel w (client_endpoint cl) pairs, h)"
| "main_run w cl (Setup_Cmd skip_service) h = (let (oc, files1) = main_setup w skip_service (snd h) in (oc, (fst h, files1)))"

section \<open>The windows arms\<close>

text \<open>Under the service manager the daemon command hands over to the dispatcher, whose result is
  \<open>dispatched\<close>.\<close>

definition main_daemon_windows ::
  "(rstr, unit) res \<Rightarrow> world \<Rightarrow> cli \<Rightarrow> bool \<Rightarrow> bool \<Rightarrow> file_system \<Rightarrow> outcome \<times> file_system" where
  "main_daemon_windows dispatched w cl print service_run fs =
     (if service_run then (\<lparr>oc_stdout = [], oc_stderr = [], oc_ending = Returned dispatched\<rparr>, fs)
      else main_daemon w cl print fs)"

datatype service_action = InstallService "rstr option" | UninstallService

definition main_service :: "'m scm \<Rightarrow> (io_error, rstr) res \<Rightarrow> service_action \<Rightarrow> 'm \<Rightarrow> outcome \<times> 'm" where
  "main_service ops current_exe action m =
     (case action of
        InstallService bin_path \<Rightarrow>
          (case (case bin_path of Some p \<Rightarrow> Ok p | None \<Rightarrow> current_exe) of
             Err e \<Rightarrow> (fails [] (err_text e), m)
           | Panic \<Rightarrow> (panics [], m)
           | Ok bin \<Rightarrow>
               (let (r, m1) = install_service ops bin m
                in (\<lparr>oc_stdout = (if r = Ok () then
                        [lit ''service installed (Start=auto). Start with: sc.exe start meridian-relay''] else []),
                     oc_stderr = [], oc_ending = Returned r\<rparr>, m1)))
      | UninstallService \<Rightarrow>
          (let (r, m1) = uninstall_service ops m
           in (\<lparr>oc_stdout = (if r = Ok () then [lit ''service uninstalled''] else []), oc_stderr = [],
                oc_ending = Returned r\<rparr>, m1)))"

section \<open>A daemon behind the stats command\<close>

text \<open>What a daemon sends on a connection: everything its session puts out for the bytes received so
  far, less what it had sent before the last request.\<close>

definition session_output ::
  "lockdown_io \<Rightarrow> daemon_config \<Rightarrow> peer_identity \<Rightarrow> client_env \<Rightarrow> client_io list \<Rightarrow> bytes \<Rightarrow> bytes" where
  "session_output io config ident env ios stream = concat (map (out_bytes (li_to_xml io))
     (snd (handle_client (li_from_binary io) (li_from_xml io) config ident env ios stream)))"

definition daemon_talk ::
  "lockdown_io \<Rightarrow> daemon_config \<Rightarrow> peer_identity \<Rightarrow> client_env \<Rightarrow> client_io list \<Rightarrow> talk" where
  "daemon_talk io config ident env ios = (\<lambda>requests.
     Ok (drop (length (session_output io config ident env ios (concat (butlast requests))))
           (session_output io config ident env ios (concat requests))))"

text \<open>The counters the daemon reports to the \<open>k\<close>-th request of a session that asks for nothing else:
  the session itself and its requests are counted.\<close>

definition seen_metrics :: "metrics \<Rightarrow> nat \<Rightarrow> metrics" where
  "seen_metrics m k = m\<lparr>clients_accepted := clients_accepted m + 1, clients_active := clients_active m + 1,
     commands_total := commands_total m + word_of_nat (Suc k)\<rparr>"

definition stats_json :: "client_io \<Rightarrow> metrics \<Rightarrow> rstr" where
  "stats_json io m = io_json io (snapshot m (io_now io))"

lemma write_readable: "readable to_xml from_xml mx p \<Longrightarrow> write_packet to_xml p = Ok (packet_bytes to_xml p)"
  by (auto simp: readable_def xml_roundtrip_def write_packet_def write_to_def packet_bytes_def)

lemma stats_handled:
  assumes "healthy io"
  shows "handle_command io config env (make_stats_command t\<lparr>rp_size := n\<rparr>)
    = (Continue, with_metrics (\<lambda>m. m\<lparr>commands_total := commands_total m + 1\<rparr>) env,
       [Reply (make_stats_response t (stats_json io ((env_metrics env)\<lparr>commands_total := commands_total (env_metrics env) + 1\<rparr>)))])"
  using assms
  by (simp add: handle_command_def make_stats_command_def raw_packet_new_def cmd_stats_def respond_def healthy_def
      stats_json_def with_metrics_def)

lemma stats_inner:
  assumes "\<And>t. readable to_xml from_xml (cfg_max_packet_bytes config) (make_stats_command t)"
    and "\<forall>io \<in> set ios. healthy io" and "length ts < length ios"
  shows "snd (snd (handle_client_inner from_binary from_xml config env ios
           (concat (map (\<lambda>t. packet_bytes to_xml (make_stats_command t)) ts))))
    = map (\<lambda>k. Reply (make_stats_response (ts ! k) (stats_json (ios ! k)
        ((env_metrics env)\<lparr>commands_total := commands_total (env_metrics env) + word_of_nat (Suc k)\<rparr>)))) [0..<length ts]"
  using assms(2,3)
proof (induction ts arbitrary: env ios)
  case Nil
  then show ?case by (simp add: inner_empty_stream)
next
  case (Cons t ts)
  then obtain io ios' where ios: "ios = io # ios'" "healthy io" "\<forall>io \<in> set ios'. healthy io" "length ts < length ios'"
    by (cases ios) auto
  let ?rest = "concat (map (\<lambda>t. packet_bytes to_xml (make_stats_command t)) ts)"
  obtain n where rd: "read_packet from_binary from_xml (cfg_max_packet_bytes config)
      (packet_bytes to_xml (make_stats_command t) @ ?rest) = Ok (make_stats_command t\<lparr>rp_size := n\<rparr>, ?rest)"
    using read_readable [OF assms(1)] by blast
  have shift: "map f [0..<length (t # ts)] = f 0 # map (\<lambda>k. f (Suc k)) [0..<length ts]" for f :: "nat \<Rightarrow> client_out"
    by (simp add: upt_conv_Cons map_Suc_upt [symmetric] comp_def del: upt_Suc)
  let ?env = "with_metrics (\<lambda>m. m\<lparr>commands_total := commands_total m + 1\<rparr>) env"
  obtain r env2 out2 where rest: "handle_client_inner from_binary from_xml config ?env ios' ?rest = (r, env2, out2)"
    by (rule prod_cases3)
  then have out2: "out2 = map (\<lambda>k. Reply (make_stats_response (ts ! k) (stats_json (ios' ! k)
        ((env_metrics env)\<lparr>commands_total := commands_total (env_metrics env) + word_of_nat (Suc (Suc k))\<rparr>)))) [0..<length ts]"
    using Cons.IH [OF ios(3,4), of ?env] by (simp add: add.assoc)
  have "handle_client_inner from_binary from_xml config env (io # ios')
      (concat (map (\<lambda>t. packet_bytes to_xml (make_stats_command t)) (t # ts))) =
      (r, env2, Reply (make_stats_response t (stats_json io
        ((env_metrics env)\<lparr>commands_total := commands_total (env_metrics env) + 1\<rparr>))) # out2)"
    using rd rest by (simp add: stats_handled [OF ios(2)])
  then show ?case unfolding shift ios(1) out2 by simp
qed

lemma stats_session:
  assumes "peer_is_allowed ident config"
    and "\<And>t. readable (li_to_xml io) (li_from_xml io) (cfg_max_packet_bytes config) (make_stats_command t)"
    and "\<forall>i \<in> set ios. healthy i" and "length ts < length ios"
  shows "session_output io config ident env ios (concat (map (\<lambda>t. packet_bytes (li_to_xml io) (make_stats_command t)) ts))
    = concat (map (\<lambda>k. packet_bytes (li_to_xml io) (make_stats_response (ts ! k)
        (stats_json (ios ! k) (seen_metrics (env_metrics env) k)))) [0..<length ts])"
proof -
  let ?env = "with_metrics (\<lambda>m. m\<lparr>clients_accepted := clients_accepted m + 1, clients_active := clients_active m + 1\<rparr>) env"
  let ?inner = "handle_client_inner (li_from_binary io) (li_from_xml io) config ?env ios
      (concat (map (\<lambda>t. packet_bytes (li_to_xml io) (make_stats_command t)) ts))"
  have "snd (handle_client (li_from_binary io) (li_from_xml io) config ident env ios
      (concat (map (\<lambda>t. packet_bytes (li_to_xml io) (make_stats_command t)) ts))) = snd (snd ?inner)"
    using assms(1) by (auto simp: handle_client_def Let_def case_prod_beta split: option.splits res.splits)
  then show ?thesis
    unfolding session_output_def stats_inner [OF assms(2-4), of "li_from_binary io" ?env]
    by (simp add: comp_def seen_metrics_def)
qed

lemma daemon_talk_stats:
  assumes "peer_is_allowed ident config"
    and "\<And>t. readable (li_to_xml io) (li_from_xml io) (cfg_max_packet_bytes config) (make_stats_command t)"
    and "\<forall>i \<in> set ios. healthy i" and "Suc (length ts) < length ios"
  shows "daemon_talk io config ident env ios (map (\<lambda>t. packet_bytes (li_to_xml io) (make_stats_command t)) (ts @ [t]))
    = Ok (packet_bytes (li_to_xml io) (make_stats_response t
        (stats_json (ios ! length ts) (seen_metrics (env_metrics env) (length ts)))))"
proof -
  let ?reply = "\<lambda>t k. packet_bytes (li_to_xml io) (make_stats_response t
        (stats_json (ios ! k) (seen_metrics (env_metrics env) k)))"
  have "map (\<lambda>k. ?reply ((ts @ [t]) ! k) k) [0..<length (ts @ [t])] = map (\<lambda>k. ?reply (ts ! k) k) [0..<length ts] @ [?reply t (length ts)]"
    by (simp add: nth_append)
  then have "session_output io config ident env ios (concat (map (\<lambda>t. packet_bytes (li_to_xml io) (make_stats_command t)) (ts @ [t])))
      = session_output io config ident env ios (concat (map (\<lambda>t. packet_bytes (li_to_xml io) (make_stats_command t)) ts))
        @ ?reply t (length ts)"
    using stats_session [OF assms(1-3), of ts env] stats_session [OF assms(1-3), of "ts @ [t]" env] assms(4)
    by (simp only: concat_append) simp
  moreover have "butlast (map f (ts @ [t])) = map f ts" for f :: "u32 \<Rightarrow> bytes" by simp
  ultimately show ?thesis unfolding daemon_talk_def by (simp only: append_eq_conv_conj) simp
qed

lemma stats_rounds_daemon:
  assumes "peer_is_allowed ident config"
    and "\<And>t. readable (li_to_xml io) (li_from_xml io) (cfg_max_packet_bytes config) (make_stats_command t)"
    and "\<forall>i \<in> set ios. healthy i" and "length ds + length ts < length ios"
    and "\<And>t k. length ds \<le> k \<Longrightarrow> k < length ds + length ts \<Longrightarrow> readable (li_to_xml io) (li_from_xml io) 65536
           (make_stats_response t (stats_json (ios ! k) (seen_metrics (env_metrics env) k)))"
  shows "stats_rounds io debug (daemon_talk io config ident env ios) ts
      \<lparr>mc_sent = map (\<lambda>t. packet_bytes (li_to_xml io) (make_stats_command t)) ds, mc_pending = []\<rparr>
    = (Ok (), map (\<lambda>k. stats_json (ios ! k) (seen_metrics (env_metrics env) k)) [length ds..<length ds + length ts])"
  using assms(4,5)
proof (induction ts arbitrary: ds)
  case (Cons t ts)
  let ?pk = "\<lambda>t. packet_bytes (li_to_xml io) (make_stats_command t)"
  let ?json = "stats_json (ios ! length ds) (seen_metrics (env_metrics env) (length ds))"
  let ?resp = "make_stats_response t ?json"
  have talk: "daemon_talk io config ident env ios (map ?pk ds @ [?pk t]) = Ok (packet_bytes (li_to_xml io) ?resp)"
    using daemon_talk_stats [OF assms(1-3), of ds env t] Cons.prems(1) by simp
  obtain n where rd: "read_packet (li_from_binary io) (li_from_xml io) 65536 (packet_bytes (li_to_xml io) ?resp)
      = Ok (?resp\<lparr>rp_size := n\<rparr>, [])"
    using read_readable [OF Cons.prems(2) [of "length ds" t], of "li_from_binary io" "[]"] by auto
  have "mux_request io (daemon_talk io config ident env ios) 65536 (make_stats_command t)
      \<lparr>mc_sent = map ?pk ds, mc_pending = []\<rparr> = Ok (?resp\<lparr>rp_size := n\<rparr>, \<lparr>mc_sent = map ?pk (ds @ [t]), mc_pending = []\<rparr>)"
    using write_readable [OF assms(2)] talk rd by (simp add: mux_request_def)
  moreover have "stats_line debug (rp_plist ?resp) = ?json"
    by (simp add: stats_line_def make_stats_response_def raw_packet_new_def get_string_def)
  moreover have "[length ds..<length ds + length (t # ts)] = length ds # [Suc (length ds)..<Suc (length ds) + length ts]"
    by (simp add: upt_conv_Cons del: upt_Suc)
  ultimately show ?case using Cons.IH [of "ds @ [t]"] Cons.prems by simp
qed simp

section \<open>Properties\<close>

text \<open>C18: The stats command shows the daemon's own counters. Against a daemon that admits the client
  and serves no other meanwhile, it prints one line per round asked for (one if none is given) and ends well; the line of a
  round is the daemon's snapshot at that request, in which the client itself and all its
  requests up to this one are counted.\<close>

theorem stats_end_to_end:
  assumes "parse_endpoint (client_endpoint cl) = Ok ep"
    and "w_talk w ep = Ok (daemon_talk (w_lockdown w) config ident env ios)" and "peer_is_allowed ident config"
    and "\<And>t. readable (li_to_xml (w_lockdown w)) (li_from_xml (w_lockdown w)) (cfg_max_packet_bytes config) (make_stats_command t)"
    and "\<forall>i \<in> set ios. healthy i" and "unat (case count of Some n \<Rightarrow> n | None \<Rightarrow> 1) < length ios"
    and "\<And>t k. k < unat (case count of Some n \<Rightarrow> n | None \<Rightarrow> 1) \<Longrightarrow>
           readable (li_to_xml (w_lockdown w)) (li_from_xml (w_lockdown w)) 65536
             (make_stats_response t (stats_json (ios ! k) (seen_metrics (env_metrics env) k)))"
  shows "main_run w cl (Stats_Cmd count) h =
    (\<lparr>oc_stdout = (lit ''connecting to daemon at '' @ display_string ep @ lit ''...'')
        # map (\<lambda>k. stats_json (ios ! k) (seen_metrics (env_metrics env) k)) [0..<unat (case count of Some n \<Rightarrow> n | None \<Rightarrow> 1)],
      oc_stderr = [], oc_ending = Returned (Ok ())\<rparr>, h)"
proof -
  have "stats_command (w_lockdown w) (w_debug_dict w) (daemon_talk (w_lockdown w) config ident env ios) count
    = (Ok (), map (\<lambda>k. stats_json (ios ! k) (seen_metrics (env_metrics env) k)) [0..<unat (case count of Some n \<Rightarrow> n | None \<Rightarrow> 1)])"
    unfolding stats_command_def
    using stats_rounds_daemon [OF assms(3-5), of "[]" "map (\<lambda>i. word_of_nat (i + 1)) [0..<unat (case count of Some n \<Rightarrow> n | None \<Rightarrow> 1)]"
        env "w_debug_dict w"] assms(6,7)
    by simp
  with assms(1,2) show ?thesis by (simp add: main_stats_def Let_def)
qed

definition stats_lockdown :: lockdown_io where
  "stats_lockdown = (example_lockdown (PBoolean True))\<lparr>
     li_to_xml := (\<lambda>d. if d = rp_plist (make_stats_command 0) then Ok [60] else Ok [61]),
     li_from_xml := (\<lambda>b. if b = [60] then Ok (rp_plist (make_stats_command 0)) else Ok (rp_plist (make_stats_response 0 [])))\<rparr>"

definition example_world :: world where
  "example_world = \<lparr>w_debug_str = id, w_debug_dict = (\<lambda>_. []),
     w_to_json = (\<lambda>_. []), w_lockdown = stats_lockdown, w_socket_var = None, w_connect = (\<lambda>_. Err (Io NotFound [])),
     w_reconnects = [], w_enrich = (\<lambda>_. (Err (Io NotFound []), Err (Io NotFound []), [])), w_ideviceinfo = None,
     w_talk = (\<lambda>_. Ok (daemon_talk stats_lockdown config_default anonymous example_env [example_io, example_io, example_io])),
     w_bind = (\<lambda>_. Ok ()), w_accepts = [], w_setup = \<lparr>su_write = \<lambda>_. Ok (), su_reload = True, su_trigger = True, su_unit = []\<rparr>,
     w_read_file = (\<lambda>_. Err []), w_from_toml = (\<lambda>_. Err []), w_config_exists = False, w_start = example_start\<rparr>"

definition example_cli :: cli where
  "example_cli = \<lparr>cl_endpoint = None, cl_socket_path = None, cl_backend = Usb, cl_upstream = None, cl_log_format = []\<rparr>"

lemma default_endpoint_parses: "parse_endpoint default_endpoint = Ok (Unix default_endpoint)"
  by (simp add: parse_endpoint_def default_endpoint_def strip_prefix_def)

lemma example_client_endpoint: "client_endpoint example_cli = default_endpoint"
  by (simp add: client_endpoint_def resolve_endpoint_def or_else_def example_cli_def)

lemma stats_plist:
  "rp_plist (make_stats_command t) = rp_plist (make_stats_command 0)"
  "rp_plist (make_stats_response t j) = rp_plist (make_stats_response 0 j)"
  "rp_plist (make_stats_response t j) \<noteq> rp_plist (make_stats_command 0)"
  by (simp_all add: make_stats_command_def make_stats_response_def raw_packet_new_def)

theorem stats_end_to_end_witness:
  "main_run example_world example_cli (Stats_Cmd (Some 2)) (Map.empty, Map.empty) =
    (\<lparr>oc_stdout = [lit ''connecting to daemon at unix:/var/run/usbmuxd...'', [], []], oc_stderr = [],
      oc_ending = Returned (Ok ())\<rparr>, (Map.empty, Map.empty))"
proof -
  have ep: "parse_endpoint (client_endpoint example_cli) = Ok (Unix default_endpoint)"
    by (simp add: example_client_endpoint default_endpoint_parses)
  have talk: "w_talk example_world (Unix default_endpoint)
      = Ok (daemon_talk (w_lockdown example_world) config_default anonymous example_env [example_io, example_io, example_io])"
    by (simp add: example_world_def)
  have req: "readable (li_to_xml (w_lockdown example_world)) (li_from_xml (w_lockdown example_world))
      (cfg_max_packet_bytes config_default) (make_stats_command t)" for t
    by (simp add: readable_def xml_roundtrip_def example_world_def stats_lockdown_def stats_plist(1) [of t] config_default_def)
  have none: "stats_json example_io m = []" for m by (simp add: stats_json_def example_io_def)
  then have json: "stats_json ([example_io, example_io, example_io] ! k) m = []" if "k < 2" for k m
    using that by (cases k) (auto simp: less_Suc_eq)
  have resp: "readable (li_to_xml (w_lockdown example_world)) (li_from_xml (w_lockdown example_world)) 65536 (make_stats_response t [])" for t
    by (simp add: readable_def xml_roundtrip_def example_world_def stats_lockdown_def stats_plist(3) stats_plist(2) [of t])
  have "main_run example_world example_cli (Stats_Cmd (Some 2)) (Map.empty, Map.empty) =
    (\<lparr>oc_stdout = (lit ''connecting to daemon at '' @ display_string (Unix default_endpoint) @ lit ''...'')
        # map (\<lambda>k. stats_json ([example_io, example_io, example_io] ! k) (seen_metrics (env_metrics example_env) k))
            [0..<unat (case Some (2 :: u32) of Some n \<Rightarrow> n | None \<Rightarrow> 1)],
      oc_stderr = [], oc_ending = Returned (Ok ())\<rparr>, (Map.empty, Map.empty))"
    by (rule stats_end_to_end [OF ep talk anonymous_allowed req]) (auto simp: healthy_example json resp)
  moreover have "[0..<unat (case Some (2 :: u32) of Some n \<Rightarrow> n | None \<Rightarrow> 1)] = [0, 1]" by (simp add: upt_rec)
  ultimately show ?thesis by (simp add: none default_endpoint_def)
qed







end
