(* ===== verification/Proxy_Wakeup.thy ===== *)
theory Proxy_Wakeup
  imports Client_Proxy "HOL-Library.Sublist"
begin

text \<open>
  The client's proxy between its await points (\<open>daemon/connection.rs\<close>, \<open>proxy_loop\<close>). The theory of
  the proxy takes a turn of the loop in one step; here every await is a step of its own, other tasks
  work on the table between any two of them, and the proxy waits on the connection's
  \<open>tokio::sync::Notify\<close>, which the packet handler and the teardown call (\<open>daemon/mux.rs\<close>,
  \<open>daemon/device_manager.rs\<close>).

  The first group of lemmas follows the notification counters through every operation of the other
  tasks, the second shows that the finer steps are turns of the loop, and the properties say when a
  waiting proxy is woken, when it is not, and that the end of a device ends its proxies.
\<close>

section \<open>The proxy between two awaits\<close>

text \<open>
  \<open>Waiting n\<close> holds the counters at the creation of the \<open>Notified\<close> future. The future belongs to
  tokio: \<open>poll\<close> is told how many \<open>notify_one\<close> calls are used up, the counters at its creation and
  the present ones, and gives \<open>None\<close> while it is pending, or the calls used up after it completed.
\<close>

datatype px_phase =
    Draining
  | Writing bytes
  | Reopening
  | Arming
  | Waiting notify
  | Finished "(rstr, unit) res"

type_synonym notified_poll = "nat \<Rightarrow> notify \<Rightarrow> notify \<Rightarrow> nat option"

text \<open>
  What the documentation of \<open>Notify\<close> promises: a future is woken by every \<open>notify_waiters\<close> after its
  creation and by a \<open>notify_one\<close> that no other future used up, also an earlier one, and by nothing
  else.
\<close>

definition notify_contract :: "notified_poll \<Rightarrow> bool" where
  "notify_contract poll \<longleftrightarrow> (\<forall>used created now.
     (poll used created now = None \<longleftrightarrow>
        notify_waiters_calls now \<le> notify_waiters_calls created \<and> notify_one_calls now \<le> used)
     \<and> (\<forall>used'. poll used created now = Some used' \<longrightarrow> used \<le> used' \<and> used' \<le> max used (notify_one_calls now)))"

record proxy_task =
  pt_devs :: devices
  pt_metrics :: metrics
  pt_notify :: notify
  pt_attached :: bool
  pt_used :: nat
  pt_phase :: px_phase
  pt_out :: proxy_out

definition out_append :: "proxy_out \<Rightarrow> bytes \<Rightarrow> mux_out_msg list \<Rightarrow> proxy_out" where
  "out_append out bs msgs = \<lparr>po_to_client = po_to_client out @ bs, po_to_device = po_to_device out @ msgs\<rparr>"

text \<open>
  \<open>pt_notify\<close> is the shared \<open>Arc\<close>: the table's connection holds the same object until it is removed
  (\<open>pt_attached\<close>), and after that nobody else does. \<open>used\<close> counts the \<open>notify_one\<close> calls that the
  connect request used up while it waited on the same object.
\<close>

definition proxy_task_new :: "nat \<Rightarrow> u32 \<Rightarrow> u16 \<Rightarrow> devices \<Rightarrow> metrics \<Rightarrow> proxy_task option" where
  "proxy_task_new used i sport devs m =
     map_option (\<lambda>n. \<lparr>pt_devs = devs, pt_metrics = m, pt_notify = n, pt_attached = True,
         pt_used = min used (notify_one_calls n), pt_phase = Draining, pt_out = out_none\<rparr>)
       (get_data_notify devs i sport)"

definition table_changed :: "u32 \<Rightarrow> u16 \<Rightarrow> proxy_task \<Rightarrow> devices \<Rightarrow> proxy_task" where
  "table_changed i sport w devs =
     (case get_data_notify devs i sport of
        Some n \<Rightarrow> if pt_attached w then w\<lparr>pt_devs := devs, pt_notify := n\<rparr> else w\<lparr>pt_devs := devs\<rparr>
      | None \<Rightarrow> w\<lparr>pt_devs := devs, pt_attached := False\<rparr>)"

text \<open>One step of the proxy: the code between two awaits. The event is what \<open>select!\<close> offers it.\<close>

fun proxy_turn :: "notified_poll \<Rightarrow> proxy_io \<Rightarrow> u32 \<Rightarrow> u16 \<Rightarrow> px_phase \<Rightarrow> proxy_event \<Rightarrow> proxy_task \<Rightarrow> proxy_task" where
  "proxy_turn poll io i sport Draining ev w =
     (case drain_section (pt_devs w) i sport of
        (Inl r, devs) \<Rightarrow> w\<lparr>pt_devs := devs, pt_phase := Finished r\<rparr>
      | (Inr (Some data), devs) \<Rightarrow>
          w\<lparr>pt_devs := devs, pt_metrics := count_client_tx (length data) (pt_metrics w), pt_phase := Writing data\<rparr>
      | (Inr None, devs) \<Rightarrow> w\<lparr>pt_devs := devs, pt_phase := Arming\<rparr>)"
| "proxy_turn poll io i sport (Writing data) ev w =
     (case px_write io data of
        Some e \<Rightarrow> w\<lparr>pt_phase := Finished (Err e)\<rparr>
      | None \<Rightarrow> w\<lparr>pt_out := out_append (pt_out w) data [], pt_phase := Reopening\<rparr>)"
| "proxy_turn poll io i sport Reopening ev w =
     (case px_channel_open io (WindowUpdate sport) of
        Some e \<Rightarrow> w\<lparr>pt_phase := Finished (Err (lit ''data channel send failed: '' @ e))\<rparr>
      | None \<Rightarrow> w\<lparr>pt_out := out_append (pt_out w) [] [WindowUpdate sport], pt_phase := Draining\<rparr>)"
| "proxy_turn poll io i sport Arming ev w = w\<lparr>pt_phase := Waiting (pt_notify w)\<rparr>"
| "proxy_turn poll io i sport (Waiting n) ev w =
     (case ev of
        Notified \<Rightarrow>
          (case poll (pt_used w) n (pt_notify w) of
             None \<Rightarrow> w
           | Some used \<Rightarrow> w\<lparr>pt_used := used, pt_phase := Draining\<rparr>)
      | ClientError e \<Rightarrow> w\<lparr>pt_phase := Finished (Err e)\<rparr>
      | ClientRead data \<Rightarrow>
          if data = [] then w\<lparr>pt_phase := Finished (Ok ())\<rparr>
          else
            (let w1 = w\<lparr>pt_metrics := count_client_rx (length data) (pt_metrics w)\<rparr> in
             case px_channel_open io (Data sport data) of
               Some e \<Rightarrow> w1\<lparr>pt_phase := Finished (Err (lit ''data channel send failed: '' @ e))\<rparr>
             | None \<Rightarrow> w1\<lparr>pt_out := out_append (pt_out w) [] [Data sport data], pt_phase := Draining\<rparr>))"
| "proxy_turn poll io i sport (Finished r) ev w = w"

section \<open>The other tasks\<close>

text \<open>Packets for any device, the operations of the device tasks, and the other clients' proxies.\<close>

datatype other_op =
    Arrival arrival
  | LinkOp link_op
  | DrainOf u32 u16
  | UnregisterOf u32 u16
  | RemoveDevice u32

fun apply_other :: "conn_iter \<Rightarrow> usize \<Rightarrow> devices \<Rightarrow> other_op \<Rightarrow> devices" where
  "apply_other iter mx devs (Arrival x) = arrive iter mx devs x"
| "apply_other iter mx devs (LinkOp y) = apply_link_op devs y"
| "apply_other iter mx devs (DrainOf j s) = snd (drain_section devs j s)"
| "apply_other iter mx devs (UnregisterOf j s) = remove_connection devs j s"
| "apply_other iter mx devs (RemoveDevice j) = cm_remove_device devs j"

text \<open>No other task drains or unregisters the connection: that is the proxy's own work.\<close>

definition foreign :: "u32 \<Rightarrow> u16 \<Rightarrow> other_op \<Rightarrow> bool" where
  "foreign i sport op \<longleftrightarrow> op \<noteq> DrainOf i sport \<and> op \<noteq> UnregisterOf i sport"

datatype proxy_step = Turn proxy_event | Other_Task other_op

fun proxy_step_run ::
  "notified_poll \<Rightarrow> proxy_io \<Rightarrow> conn_iter \<Rightarrow> usize \<Rightarrow> u32 \<Rightarrow> u16 \<Rightarrow> proxy_task \<Rightarrow> proxy_step \<Rightarrow> proxy_task" where
  "proxy_step_run poll io iter mx i sport w (Turn ev) = proxy_turn poll io i sport (pt_phase w) ev w"
| "proxy_step_run poll io iter mx i sport w (Other_Task op) =
     table_changed i sport w (apply_other iter mx (pt_devs w) op)"

definition proxy_run ::
  "notified_poll \<Rightarrow> proxy_io \<Rightarrow> conn_iter \<Rightarrow> usize \<Rightarrow> u32 \<Rightarrow> u16 \<Rightarrow> proxy_task \<Rightarrow> proxy_step list \<Rightarrow> proxy_task" where
  "proxy_run poll io iter mx i sport = foldl (proxy_step_run poll io iter mx i sport)"

fun other_ops :: "proxy_step list \<Rightarrow> other_op list" where
  "other_ops [] = []"
| "other_ops (Turn ev # steps) = other_ops steps"
| "other_ops (Other_Task op # steps) = op # other_ops steps"

fun turn_events :: "proxy_step list \<Rightarrow> proxy_event list" where
  "turn_events [] = []"
| "turn_events (Turn ev # steps) = ev # turn_events steps"
| "turn_events (Other_Task op # steps) = turn_events steps"

section \<open>The counters under the other tasks\<close>

definition wakes :: "conn_iter \<Rightarrow> usize \<Rightarrow> u32 \<Rightarrow> u16 \<Rightarrow> devices \<Rightarrow> other_op \<Rightarrow> bool" where
  "wakes iter mx i sport devs op \<longleftrightarrow>
     op = LinkOp (Cleanup i) \<or> (\<exists>x. op = Arrival x \<and> accepted_by iter mx i sport devs x \<noteq> [])"

lemma get_data_notify_put [simp]:
  "get_data_notify (put_conn devs j d key c) i k =
     (if j = i then (if key = k then Some (c_data_notify c) else map_option c_data_notify (d_connections d k))
      else get_data_notify devs i k)"
  by (simp add: get_data_notify_def put_conn_def)

lemma get_data_notify_present:
  "devs i = Some d \<Longrightarrow> get_data_notify devs i k = map_option c_data_notify (d_connections d k)"
  by (simp add: get_data_notify_def)

lemma handle_conn_notify:
  assumes "devs j = Some d" and "d_connections d key = Some c"
  shows "get_data_notify (fst (handle_conn devs j d key c h payload m mx)) i k =
     (if j = i \<and> key = k \<and> data_flags (th_flags h) \<and> payload \<noteq> [] \<and> length (c_ib_buf c) + length payload \<le> mx
      then Some (notify_waiters (c_data_notify c)) else get_data_notify devs i k)"
proof (cases "data_flags (th_flags h) \<and> payload \<noteq> []")
  case True
  then have df: "data_flags (th_flags h)" and ne: "payload \<noteq> []" by simp_all
  show ?thesis
    using assms unfolding handle_conn_data [OF df ne]
    by (auto simp: df ne conn_accept_def get_data_notify_present bump_tx_def)
next
  case False
  with assms show ?thesis
    by (auto simp: handle_conn_def data_flags_def Let_def get_data_notify_present bump_tx_def)
qed

lemma arrive_notify:
  assumes "get_data_notify devs i k = Some n"
  shows "get_data_notify (arrive iter mx devs x) i k =
     Some (if accepted_by iter mx i k devs x \<noteq> [] then notify_waiters n else n)"
proof -
  obtain j h payload where x: "x = (j, h, payload)" by (metis prod_cases3)
  show ?thesis
  proof (cases "\<exists>d key. devs j = Some d \<and> find_conn iter (d_connections d) h = Some key")
    case True
    then obtain d key where d: "devs j = Some d" "find_conn iter (d_connections d) h = Some key" by blast
    obtain c where c: "d_connections d key = Some c" using find_conn_Some [OF d(2)] by blast
    have "n = c_data_notify c" if "j = i" "key = k" using that assms d(1) c by (simp add: get_data_notify_def)
    moreover have "arrive iter mx devs x = fst (handle_conn devs j d key c h payload (metrics_new 0) mx)"
      using d c by (simp add: x arrive_def handle_tcp_packet_def)
    moreover have "ib_content i k devs = c_ib_buf c" if "j = i" "key = k" using that d(1) c by (simp add: ib_content_def)
    ultimately show ?thesis
      using d c assms handle_conn_notify [of devs j d key c h payload "metrics_new 0" mx i k]
      by (auto simp: x accepted_by_def)
  next
    case False
    with assms show ?thesis
      by (auto simp: x arrive_def accepted_by_def handle_tcp_packet_def split: option.splits)
  qed
qed

lemma link_op_notify:
  assumes "get_data_notify devs i k = Some n"
  shows "get_data_notify (apply_link_op devs y) i k = Some (if y = Cleanup i then notify_one n else n)"
proof (cases y)
  case (StartConnect j dport tag)
  with assms show ?thesis
    by (auto simp: get_data_notify_def start_connect_def dest: find_port_Some split: option.splits)
next
  case (Cleanup j)
  with assms show ?thesis
    by (auto simp: get_data_notify_def cleanup_device_connections_def kill_conn_def split: option.splits)
qed (use assms in \<open>auto simp: get_data_notify_def cm_add_device_def connect_syn_def version_section_def rx_section_def
      client_data_commit_def window_update_commit_def mux_device_new_def put_conn_def split: option.splits res.splits\<close>)

lemma drain_notify: "get_data_notify (snd (drain_section devs j s)) i k = get_data_notify devs i k"
  by (auto simp: drain_section_def conn_drain_def get_data_notify_def put_conn_def split: option.splits)

lemma remove_notify:
  "get_data_notify (remove_connection devs j s) i k =
     (if j = i \<and> s = k then None else get_data_notify devs i k)"
  by (auto simp: remove_connection_def get_data_notify_def split: option.splits)

lemma remove_device_notify:
  "get_data_notify (cm_remove_device devs j) i k = (if j = i then None else get_data_notify devs i k)"
  by (simp add: cm_remove_device_def get_data_notify_def)

definition signalled :: "conn_iter \<Rightarrow> usize \<Rightarrow> u32 \<Rightarrow> u16 \<Rightarrow> devices \<Rightarrow> other_op \<Rightarrow> notify \<Rightarrow> notify" where
  "signalled iter mx i sport devs op n =
     (case op of
        Arrival x \<Rightarrow> if accepted_by iter mx i sport devs x \<noteq> [] then notify_waiters n else n
      | LinkOp y \<Rightarrow> if y = Cleanup i then notify_one n else n
      | _ \<Rightarrow> n)"

lemma other_notify:
  assumes "get_data_notify devs i k = Some n" and "foreign i k op"
  shows "get_data_notify (apply_other iter mx devs op) i k =
     (if op = RemoveDevice i then None else Some (signalled iter mx i k devs op n))"
  using assms
  by (cases op) (auto simp: signalled_def foreign_def arrive_notify link_op_notify drain_notify remove_notify
      remove_device_notify)

lemma signalled_counts:
  "notify_waiters_calls n \<le> notify_waiters_calls (signalled iter mx i k devs op n)"
  "notify_one_calls n \<le> notify_one_calls (signalled iter mx i k devs op n)"
  by (auto simp: signalled_def notify_waiters_def notify_one_def split: other_op.splits)

lemma signalled_wakes:
  "wakes iter mx i k devs op \<longleftrightarrow> notify_waiters_calls n < notify_waiters_calls (signalled iter mx i k devs op n)
     \<or> notify_one_calls n < notify_one_calls (signalled iter mx i k devs op n)"
  by (auto simp: wakes_def signalled_def notify_waiters_def notify_one_def split: other_op.splits)

section \<open>The invariant of a proxy\<close>

definition task_inv :: "u32 \<Rightarrow> u16 \<Rightarrow> proxy_task \<Rightarrow> bool" where
  "task_inv i sport w \<longleftrightarrow>
     (pt_attached w \<longrightarrow> get_data_notify (pt_devs w) i sport = Some (pt_notify w))
     \<and> pt_used w \<le> notify_one_calls (pt_notify w)
     \<and> (\<forall>n. pt_phase w = Waiting n \<longrightarrow> notify_waiters_calls n \<le> notify_waiters_calls (pt_notify w))"

lemma task_inv_new:
  "proxy_task_new used i sport devs m = Some w \<Longrightarrow> task_inv i sport w"
  by (auto simp: proxy_task_new_def task_inv_def)

lemma table_changed_simps [simp]:
  "pt_devs (table_changed i sport w devs) = devs"
  "pt_metrics (table_changed i sport w devs) = pt_metrics w"
  "pt_used (table_changed i sport w devs) = pt_used w"
  "pt_phase (table_changed i sport w devs) = pt_phase w"
  "pt_out (table_changed i sport w devs) = pt_out w"
  by (simp_all add: table_changed_def split: option.splits)

text \<open>The task after another task's operation.\<close>

abbreviation after_other :: "conn_iter \<Rightarrow> usize \<Rightarrow> u32 \<Rightarrow> u16 \<Rightarrow> proxy_task \<Rightarrow> other_op \<Rightarrow> proxy_task" where
  "after_other iter mx i k w op \<equiv> table_changed i k w (apply_other iter mx (pt_devs w) op)"

lemma other_task_attached:
  assumes "task_inv i k w" and "pt_attached w" and "foreign i k op"
  shows "pt_attached (after_other iter mx i k w op) \<longleftrightarrow> op \<noteq> RemoveDevice i"
    and "pt_notify (after_other iter mx i k w op) =
      (if op = RemoveDevice i then pt_notify w else signalled iter mx i k (pt_devs w) op (pt_notify w))"
  using assms other_notify [of "pt_devs w" i k "pt_notify w" op iter mx]
  by (auto simp: task_inv_def table_changed_def)

lemma other_task_detached:
  assumes "\<not> pt_attached w"
  shows "\<not> pt_attached (table_changed i k w devs)" and "pt_notify (table_changed i k w devs) = pt_notify w"
  using assms by (auto simp: table_changed_def split: option.splits)

lemma other_task_counts:
  assumes "task_inv i k w" and "foreign i k op"
  shows "notify_waiters_calls (pt_notify w) \<le> notify_waiters_calls (pt_notify (after_other iter mx i k w op))"
    and "notify_one_calls (pt_notify w) \<le> notify_one_calls (pt_notify (after_other iter mx i k w op))"
  using assms signalled_counts [of "pt_notify w" iter mx i k "pt_devs w" op]
  by (cases "pt_attached w"; simp add: other_task_attached other_task_detached)+

lemma task_inv_other:
  assumes "task_inv i k w" and "foreign i k op"
  shows "task_inv i k (after_other iter mx i k w op)"
proof (cases "pt_attached w")
  case True
  with assms other_notify [of "pt_devs w" i k "pt_notify w" op iter mx] other_task_counts [of i k w op iter mx]
  show ?thesis by (auto simp: task_inv_def other_task_attached)
next
  case False
  with assms show ?thesis by (auto simp: task_inv_def other_task_detached)
qed

lemma contract_used:
  "notify_contract poll \<Longrightarrow> poll used c n = Some used' \<Longrightarrow> used \<le> notify_one_calls n \<Longrightarrow> used' \<le> notify_one_calls n"
  unfolding notify_contract_def by (metis max.absorb2)

lemma contract_pending:
  "notify_contract poll \<Longrightarrow> poll used c n = None \<longleftrightarrow>
     notify_waiters_calls n \<le> notify_waiters_calls c \<and> notify_one_calls n \<le> used"
  unfolding notify_contract_def by blast

lemma task_inv_turn:
  assumes "notify_contract poll" and "task_inv i k w"
  shows "task_inv i k (proxy_turn poll io i k (pt_phase w) ev w)"
proof (cases "pt_phase w")
  case Draining
  have same: "get_data_notify devs i k = get_data_notify (pt_devs w) i k" if "drain_section (pt_devs w) i k = (res, devs)" for res devs
    using drain_notify [of "pt_devs w" i k i k] that by simp
  with assms(2) Draining show ?thesis
    by (auto simp: task_inv_def split: prod.splits sum.splits option.splits)
next
  case (Waiting n)
  with assms show ?thesis
    by (auto simp: task_inv_def Let_def intro: contract_used split: proxy_event.splits option.splits)
qed (use assms in \<open>auto simp: task_inv_def split: option.splits\<close>)

lemma proxy_run_simps [simp]:
  "proxy_run poll io iter mx i k w [] = w"
  "proxy_run poll io iter mx i k w (st # sts) = proxy_run poll io iter mx i k (proxy_step_run poll io iter mx i k w st) sts"
  "proxy_run poll io iter mx i k w (sts @ sts') =
     proxy_run poll io iter mx i k (proxy_run poll io iter mx i k w sts) sts'"
  by (simp_all add: proxy_run_def)

section \<open>An example task\<close>

text \<open>Counters that decide a poll, and a proxy of the example table, for the witnesses.\<close>

definition example_poll :: notified_poll where
  "example_poll used created now =
     (if notify_waiters_calls created < notify_waiters_calls now then Some used
      else if used < notify_one_calls now then Some (notify_one_calls now) else None)"

lemma example_poll_contract: "notify_contract example_poll"
  by (auto simp: notify_contract_def example_poll_def split: if_splits)

definition example_task :: "px_phase \<Rightarrow> proxy_task" where
  "example_task ph = \<lparr>pt_devs = example_devs, pt_metrics = metrics_new 0, pt_notify = notify_new, pt_attached = True,
     pt_used = 0, pt_phase = ph, pt_out = out_none\<rparr>"

definition example_io :: proxy_io where
  "example_io = \<lparr>px_channel_open = \<lambda>_. None, px_write = \<lambda>_. None\<rparr>"

definition example_segment :: arrival where
  "example_segment = (1, \<lparr>th_source_port = 62078, th_dest_port = 1024, th_seq = 10, th_ack = 0,
     th_offset_flags = TCP_ACK, th_window = 0\<rparr>, [7, 8])"

abbreviation example_iter :: conn_iter where
  "example_iter \<equiv> \<lambda>m. sorted_list_of_set (dom m)"

lemma example_task_simps [simp]:
  "pt_devs (example_task ph) = example_devs" "pt_metrics (example_task ph) = metrics_new 0"
  "pt_notify (example_task ph) = notify_new" "pt_attached (example_task ph)" "pt_used (example_task ph) = 0"
  "pt_phase (example_task ph) = ph" "pt_out (example_task ph) = out_none"
  by (simp_all add: example_task_def)

lemma example_notify: "get_data_notify example_devs 1 1024 = Some notify_new"
  by (simp add: get_data_notify_def example_conn_def connection_new_def)

lemma example_task_inv: "ph = Waiting notify_new \<or> ph = Arming \<or> ph = Draining \<Longrightarrow> task_inv 1 1024 (example_task ph)"
  by (auto simp: task_inv_def example_notify)

lemma example_segment_found:
  "find_conn example_iter (d_connections example_device) (fst (snd example_segment)) = Some 1024"
  "data_flags (th_flags (fst (snd example_segment)))"
proof -
  show "find_conn example_iter (d_connections example_device) (fst (snd example_segment)) = Some 1024"
    by (rule find_conn_exact [OF hash_iter_witness cm_invD [OF cm_inv_example example_simps(1)] example_simps(2)])
      (simp_all add: example_segment_def)
  show "data_flags (th_flags (fst (snd example_segment)))"
    by (simp add: example_segment_def data_flags_def th_flags_def TCP_ACK_def TCP_SYN_def TCP_RST_def TCP_FIN_def)
qed

lemma example_accepted: "accepted_by example_iter 64 1 1024 example_devs example_segment = [7, 8]"
  using example_segment_found by (simp add: example_segment_def accepted_by_def ib_content_def)

lemma example_arrives:
  "arrive example_iter 64 example_devs example_segment = put_conn example_devs 1 (bump_tx example_device) 1024
     (example_conn\<lparr>c_tx_ack := 12, c_ib_buf := [7, 8], c_data_notify := notify_waiters notify_new\<rparr>)"
  using example_segment_found
  by (simp add: example_segment_def arrive_def handle_tcp_packet_def handle_conn_data conn_accept_def)
    (simp add: example_conn_def connection_new_def)

section \<open>The finer steps are turns of the loop\<close>

text \<open>What is left of a turn of the loop in each phase, and the rest of the loop.\<close>

fun resume ::
  "proxy_io \<Rightarrow> u32 \<Rightarrow> u16 \<Rightarrow> px_phase \<Rightarrow> devices \<Rightarrow> metrics \<Rightarrow> (devices \<Rightarrow> devices) list \<Rightarrow> proxy_event list
   \<Rightarrow> (rstr, unit) res option \<times> devices \<times> metrics \<times> proxy_out" where
  "resume io i k Draining devs m rounds evs = proxy_loop io i k devs m rounds evs"
| "resume io i k (Writing data) devs m rounds evs =
     (case px_write io data of
        Some e \<Rightarrow> (Some (Err e), devs, m, out_none)
      | None \<Rightarrow>
          (case px_channel_open io (WindowUpdate k) of
             Some e \<Rightarrow> (Some (Err (lit ''data channel send failed: '' @ e)), devs, m, out_add data [] out_none)
           | None \<Rightarrow> (let (r, devs2, m2, out) = proxy_loop io i k devs m rounds evs
                      in (r, devs2, m2, out_add data [WindowUpdate k] out))))"
| "resume io i k Reopening devs m rounds evs =
     (case px_channel_open io (WindowUpdate k) of
        Some e \<Rightarrow> (Some (Err (lit ''data channel send failed: '' @ e)), devs, m, out_none)
      | None \<Rightarrow> (let (r, devs2, m2, out) = proxy_loop io i k devs m rounds evs
                 in (r, devs2, m2, out_add [] [WindowUpdate k] out)))"
| "resume io i k (Finished r) devs m rounds evs = (Some r, devs, m, out_none)"
| "resume io i k _ devs m rounds evs =
     (case evs of
        [] \<Rightarrow> (None, devs, m, out_none)
      | Notified # evs' \<Rightarrow> proxy_loop io i k devs m rounds evs'
      | ClientError e # evs' \<Rightarrow> (Some (Err e), devs, m, out_none)
      | ClientRead data # evs' \<Rightarrow>
          if data = [] then (Some (Ok ()), devs, m, out_none)
          else
            (let m1 = count_client_rx (length data) m in
             case px_channel_open io (Data k data) of
               Some e \<Rightarrow> (Some (Err (lit ''data channel send failed: '' @ e)), devs, m1, out_none)
             | None \<Rightarrow> (let (r, devs2, m2, out) = proxy_loop io i k devs m1 rounds evs'
                        in (r, devs2, m2, out_add [] [Data k data] out))))"

abbreviation interference :: "conn_iter \<Rightarrow> usize \<Rightarrow> other_op list list \<Rightarrow> (devices \<Rightarrow> devices) list" where
  "interference iter mx opss \<equiv> map (\<lambda>ops devs. foldl (apply_other iter mx) devs ops) opss"

text \<open>An operation of another task joins those the next round starts with.\<close>

fun join_op :: "other_op \<Rightarrow> other_op list list \<Rightarrow> other_op list list" where
  "join_op op [] = []"
| "join_op op (ops # opss) = (op # ops) # opss"

lemma proxy_loop_join:
  "opss \<noteq> [] \<Longrightarrow> proxy_loop io i k devs m (interference iter mx (join_op op opss)) evs =
     proxy_loop io i k (apply_other iter mx devs op) m (interference iter mx opss) evs"
  by (cases opss) simp_all

lemma resume_join:
  assumes "resume io i k ph (apply_other iter mx devs op) m (interference iter mx opss) evs = (r, devs1, m1, out)"
  shows "\<exists>devs2. resume io i k ph devs m (interference iter mx (join_op op opss)) evs = (r, devs2, m1, out)"
proof (cases "opss = []")
  case True
  with assms show ?thesis
    by (cases ph) (auto simp: Let_def split: option.splits list.splits proxy_event.splits)
next
  case False
  with assms show ?thesis
    by (cases ph) (auto simp: Let_def proxy_loop_join split: option.splits list.splits proxy_event.splits)
qed

lemma prefix_join: "prefix (concat opss) ops \<Longrightarrow> prefix (concat (join_op op opss)) (op # ops)"
  by (cases opss) simp_all

text \<open>The relation between a run of the fine steps to its end and a run of the loop.\<close>

definition loop_matches ::
  "proxy_io \<Rightarrow> conn_iter \<Rightarrow> usize \<Rightarrow> u32 \<Rightarrow> u16 \<Rightarrow> proxy_task \<Rightarrow> proxy_step list \<Rightarrow> proxy_task \<Rightarrow> (rstr, unit) res
   \<Rightarrow> other_op list list \<Rightarrow> proxy_event list \<Rightarrow> bool" where
  "loop_matches io iter mx i k w steps w' r opss evs \<longleftrightarrow>
     (\<exists>devs out. resume io i k (pt_phase w) (pt_devs w) (pt_metrics w) (interference iter mx opss) evs
          = (Some r, devs, pt_metrics w', out)
        \<and> pt_out w' = out_append (pt_out w) (po_to_client out) (po_to_device out)
        \<and> prefix (concat opss) (other_ops steps) \<and> subseq evs (turn_events steps))"

lemma matches_other:
  assumes "loop_matches io iter mx i k (after_other iter mx i k w op) steps w' r opss evs"
  shows "loop_matches io iter mx i k w (Other_Task op # steps) w' r (join_op op opss) evs"
proof -
  obtain devs out where "resume io i k (pt_phase w) (apply_other iter mx (pt_devs w) op) (pt_metrics w)
        (interference iter mx opss) evs = (Some r, devs, pt_metrics w', out)"
      "pt_out w' = out_append (pt_out w) (po_to_client out) (po_to_device out)"
      "prefix (concat opss) (other_ops steps)" "subseq evs (turn_events steps)"
    using assms by (auto simp: loop_matches_def)
  with resume_join [OF this(1)] prefix_join [OF this(3), of op] show ?thesis
    unfolding loop_matches_def by fastforce
qed

lemma out_append_simps [simp]:
  "out_append (out_append out bs ms) bs' ms' = out_append out (bs @ bs') (ms @ ms')"
  "out_append out [] [] = out"
  by (simp_all add: out_append_def)

lemma matches_drain:
  assumes "pt_phase w = Draining"
    and "loop_matches io iter mx i k (proxy_turn poll io i k Draining ev w) steps w' r opss evs"
  shows "loop_matches io iter mx i k w (Turn ev # steps) w' r ([] # opss) evs"
proof -
  obtain res devs1 where dr: "drain_section (pt_devs w) i k = (res, devs1)" by fastforce
  consider (ended) e where "res = Inl e" | (data) b where "res = Inr (Some b)" | (idle) "res = Inr None"
    by (metis old.sum.exhaust option.exhaust)
  then show ?thesis
    using assms dr
    by cases (auto simp: loop_matches_def)
qed

text \<open>A turn that waits uses the event up or leaves it; the other turns do not look at it.\<close>

lemma matches_wait:
  assumes "pt_phase w = Waiting n"
    and "loop_matches io iter mx i k (proxy_turn poll io i k (Waiting n) ev w) steps w' r opss evs"
  shows "\<exists>evs'. loop_matches io iter mx i k w (Turn ev # steps) w' r opss evs'"
proof -
  have "loop_matches io iter mx i k w (Turn ev # steps) w' r opss (ev # evs)
     \<or> loop_matches io iter mx i k w (Turn ev # steps) w' r opss evs"
    using assms
    by (cases ev) (auto simp: loop_matches_def Let_def split: option.splits if_splits)
  then show ?thesis by blast
qed

lemma matches_send:
  assumes "pt_phase w = Writing data \<or> pt_phase w = Reopening \<or> pt_phase w = Arming"
    and "loop_matches io iter mx i k (proxy_turn poll io i k (pt_phase w) ev w) steps w' r opss evs"
  shows "loop_matches io iter mx i k w (Turn ev # steps) w' r opss evs"
  using assms by (auto simp: loop_matches_def split: option.splits prod.splits)

lemma run_matches_loop:
  "pt_phase (proxy_run poll io iter mx i k w steps) = Finished r \<Longrightarrow>
   \<exists>opss evs. loop_matches io iter mx i k w steps (proxy_run poll io iter mx i k w steps) r opss evs"
proof (induction steps arbitrary: w)
  case Nil
  then show ?case by (auto simp: loop_matches_def intro: exI [of _ "[]"])
next
  case (Cons st steps)
  show ?case
  proof (cases st)
    case (Turn ev)
    let ?w = "proxy_turn poll io i k (pt_phase w) ev w"
    obtain opss evs where *: "loop_matches io iter mx i k ?w steps (proxy_run poll io iter mx i k ?w steps) r opss evs"
      using Cons.IH [of ?w] Cons.prems Turn by auto
    show ?thesis
    proof (cases "pt_phase w")
      case (Finished r')
      with * Turn show ?thesis by (fastforce simp: loop_matches_def)
    qed (use * Turn matches_drain matches_wait matches_send in fastforce)+
  next
    case (Other_Task op)
    with Cons show ?thesis using matches_other by (metis proxy_run_simps(2) proxy_step_run.simps(2))
  qed
qed

text \<open>C5: The loop taken in whole turns loses no interleaving. Whenever the proxy, taken apart at its
  awaits and interleaved with any operations of other tasks, returns, one run of
  \<open>proxy_connection\<close> returns the same result, the same bytes to the client, the same messages to
  the device and the same counters; its rounds start with the operations of the other tasks, cut
  into groups in their order, and its events are a subsequence of those offered.\<close>

theorem interleaved_proxy_is_loop:
  assumes "proxy_task_new used i k devs m = Some w"
    and "proxy_run poll io iter mx i k w steps = w'" and "pt_phase w' = Finished r"
  shows "\<exists>opss evs devs'. proxy_connection io final i k devs m (interference iter mx opss) evs
        = (Some r, devs', pt_metrics w', pt_out w')
     \<and> prefix (concat opss) (other_ops steps) \<and> subseq evs (turn_events steps)"
proof -
  obtain n where n: "get_data_notify devs i k = Some n"
    and w: "pt_devs w = devs" "pt_metrics w = m" "pt_phase w = Draining" "pt_out w = out_none"
    using assms(1) by (auto simp: proxy_task_new_def)
  obtain opss evs where "loop_matches io iter mx i k w steps w' r opss evs"
    using run_matches_loop [of poll io iter mx i k w steps r] assms(2,3) by auto
  then obtain devs1 out where "proxy_loop io i k devs m (interference iter mx opss) evs = (Some r, devs1, pt_metrics w', out)"
      "pt_out w' = out_append out_none (po_to_client out) (po_to_device out)"
      "prefix (concat opss) (other_ops steps)" "subseq evs (turn_events steps)"
    by (auto simp: loop_matches_def w)
  then show ?thesis
    using n by (intro exI [of _ opss] exI [of _ evs]) (simp add: proxy_connection_def out_append_def)
qed

theorem interleaved_proxy_is_loop_witness:
  "\<exists>opss evs devs' m' out. proxy_connection example_io id 1 1024 example_devs (metrics_new 0)
        (interference example_iter 64 opss) evs = (Some (Ok ()), devs', m', out)
     \<and> po_to_client out = [7, 8] \<and> po_to_device out = [WindowUpdate 1024] \<and> prefix (concat opss) [Arrival example_segment]"
proof -
  let ?steps = "[Other_Task (Arrival example_segment), Turn Notified, Turn Notified, Turn Notified, Turn Notified,
      Turn Notified, Turn (ClientRead [])]"
  let ?w = "example_task Draining"
  let ?w' = "proxy_run example_poll example_io example_iter 64 1 1024 ?w ?steps"
  have new: "proxy_task_new 0 1 1024 example_devs (metrics_new 0) = Some ?w"
    by (simp add: proxy_task_new_def example_notify example_task_def)
  have "pt_phase ?w' = Finished (Ok ())" "pt_out ?w' = \<lparr>po_to_client = [7, 8], po_to_device = [WindowUpdate 1024]\<rparr>"
    by (simp_all add: example_arrives table_changed_def get_data_notify_def drain_section_def conn_drain_def put_conn_def bump_tx_def
        example_io_def out_append_def out_none_def)
  with interleaved_proxy_is_loop [OF new refl, of example_poll example_io example_iter 64 ?steps "Ok ()" id]
  show ?thesis by (fastforce simp del: proxy_run_simps)
qed

section \<open>Sleeping and waking\<close>

definition asleep :: "notified_poll \<Rightarrow> proxy_task \<Rightarrow> bool" where
  "asleep poll w \<longleftrightarrow> (case pt_phase w of Waiting n \<Rightarrow> poll (pt_used w) n (pt_notify w) = None | _ \<Rightarrow> False)"

text \<open>
  One of the operations wakes the proxy: it accepts data for the connection or tears the device
  down, before the device is dropped from the table.
\<close>

fun woken_by :: "conn_iter \<Rightarrow> usize \<Rightarrow> u32 \<Rightarrow> u16 \<Rightarrow> devices \<Rightarrow> other_op list \<Rightarrow> bool" where
  "woken_by iter mx i k devs [] \<longleftrightarrow> False"
| "woken_by iter mx i k devs (op # ops) \<longleftrightarrow>
     op \<noteq> RemoveDevice i \<and> (wakes iter mx i k devs op \<or> woken_by iter mx i k (apply_other iter mx devs op) ops)"

lemma detached_stays_asleep:
  assumes "\<not> pt_attached w" and "pt_phase w = Waiting n"
  shows "asleep poll (proxy_run poll io iter mx i k w (map Other_Task ops)) \<longleftrightarrow> asleep poll w"
  using assms by (induction ops arbitrary: w) (simp_all add: other_task_detached asleep_def)

lemma woken_stays_woken:
  assumes "notify_contract poll" and "task_inv i k w" and "pt_phase w = Waiting n" and "\<not> asleep poll w"
    and "\<forall>op \<in> set ops. foreign i k op"
  shows "\<not> asleep poll (proxy_run poll io iter mx i k w (map Other_Task ops))"
  using assms(2-5)
proof (induction ops arbitrary: w)
  case (Cons op ops)
  have "\<not> asleep poll (after_other iter mx i k w op)"
    using Cons.prems other_task_counts [of i k w op iter mx] by (auto simp: asleep_def contract_pending [OF assms(1)])
  with Cons.IH [of "after_other iter mx i k w op"] Cons.prems show ?case
    by (simp add: task_inv_other)
qed simp

lemma asleep_after_other:
  assumes "notify_contract poll" and "task_inv i k w" and "pt_attached w" and "asleep poll w" and "foreign i k op"
  shows "asleep poll (after_other iter mx i k w op) \<longleftrightarrow> op = RemoveDevice i \<or> \<not> wakes iter mx i k (pt_devs w) op"
proof -
  obtain n where n: "pt_phase w = Waiting n" using assms(4) by (auto simp: asleep_def split: px_phase.splits)
  have "notify_waiters_calls n = notify_waiters_calls (pt_notify w)" "notify_one_calls (pt_notify w) = pt_used w"
    using assms(2,4) n by (auto simp: asleep_def contract_pending [OF assms(1)] task_inv_def)
  with n show ?thesis
    using signalled_wakes [of iter mx i k "pt_devs w" op "pt_notify w"] other_task_attached [OF assms(2,3,5), of iter mx]
      signalled_counts [of "pt_notify w" iter mx i k "pt_devs w" op]
    by (auto simp: asleep_def contract_pending [OF assms(1)])
qed

lemma asleep_after_others:
  assumes "notify_contract poll" and "task_inv i k w" and "pt_attached w" and "asleep poll w"
    and "\<forall>op \<in> set ops. foreign i k op"
  shows "asleep poll (proxy_run poll io iter mx i k w (map Other_Task ops)) \<longleftrightarrow> \<not> woken_by iter mx i k (pt_devs w) ops"
  using assms(2-5)
proof (induction ops arbitrary: w)
  case (Cons op ops)
  let ?w = "after_other iter mx i k w op"
  have op: "foreign i k op" and ops: "\<forall>op \<in> set ops. foreign i k op" using Cons.prems(4) by simp_all
  obtain n where n: "pt_phase ?w = Waiting n" using Cons.prems(3) by (auto simp: asleep_def split: px_phase.splits)
  note one = asleep_after_other [OF assms(1) Cons.prems(1-3) op, of iter mx]
    and inv = task_inv_other [OF Cons.prems(1) op, of iter mx]
    and att = other_task_attached(1) [OF Cons.prems(1,2) op, of iter mx]
  consider (gone) "op = RemoveDevice i" | (woken) "op \<noteq> RemoveDevice i" "wakes iter mx i k (pt_devs w) op"
    | (quiet) "op \<noteq> RemoveDevice i" "\<not> wakes iter mx i k (pt_devs w) op" by blast
  then show ?case
  proof cases
    case gone
    with one att detached_stays_asleep [of ?w n poll io iter mx i k ops] n show ?thesis by simp
  next
    case woken
    with one woken_stays_woken [OF assms(1) inv n _ ops] show ?thesis by simp
  next
    case quiet
    with one Cons.IH [OF inv] att ops show ?thesis by simp
  qed
qed simp

lemma run_others_phase [simp]: "pt_phase (proxy_run poll io iter mx i k w (map Other_Task ops)) = pt_phase w"
  by (induction ops arbitrary: w) simp_all

lemma turn_notified:
  "pt_phase w = Waiting n \<Longrightarrow>
   pt_phase (proxy_turn poll io i k (Waiting n) Notified w) = (if asleep poll w then Waiting n else Draining)"
  by (auto simp: asleep_def split: option.splits)

text \<open>C7: A waiting proxy is woken exactly by data and by the teardown of its device. A proxy that sleeps
  on its notification is ready again after a sequence of operations of other tasks if and only if
  one of them put bytes into its receive buffer or tore the device's connections down while the
  device was in the table. A FIN or a reset of the connection, a segment dropped for lack of
  space, and the removal of the device from the table leave it asleep.\<close>

theorem woken_exactly_by_data_or_disconnect:
  assumes "notify_contract poll" and "task_inv i k w" and "pt_attached w" and "pt_phase w = Waiting n"
    and "asleep poll w" and "\<forall>op \<in> set ops. foreign i k op"
  shows "pt_phase (proxy_run poll io iter mx i k w (map Other_Task ops @ [Turn Notified])) =
     (if woken_by iter mx i k (pt_devs w) ops then Draining else Waiting n)"
  using asleep_after_others [OF assms(1-3,5,6), of io iter mx]
    turn_notified [of "proxy_run poll io iter mx i k w (map Other_Task ops)" n poll io i k]
  by (simp add: assms(4) del: proxy_turn.simps)

theorem woken_exactly_by_data_or_disconnect_witness:
  "pt_phase (proxy_run example_poll example_io example_iter 64 1 1024 (example_task (Waiting notify_new))
       [Other_Task (LinkOp (CommitWindow 1)), Other_Task (LinkOp (Cleanup 1)), Turn Notified]) = Draining
   \<and> pt_phase (proxy_run example_poll example_io example_iter 64 1 1024 (example_task (Waiting notify_new))
       [Other_Task (RemoveDevice 1), Other_Task (LinkOp (Cleanup 1)), Turn Notified]) = Waiting notify_new"
proof -
  have "asleep example_poll (example_task (Waiting notify_new))" by (simp add: asleep_def example_poll_def notify_new_def)
  note wake = woken_exactly_by_data_or_disconnect [OF example_poll_contract example_task_inv [of "Waiting notify_new"], of notify_new _
      example_io example_iter 64, OF _ _ _ this]
  show ?thesis
    using wake [of "[LinkOp (CommitWindow 1), LinkOp (Cleanup 1)]"] wake [of "[RemoveDevice 1, LinkOp (Cleanup 1)]"]
    by (simp add: foreign_def wakes_def del: proxy_run_simps)
qed

section \<open>The end of a device\<close>

text \<open>How many turns a proxy needs at most once nothing can connect any more.\<close>

fun rank :: "px_phase \<Rightarrow> nat" where
  "rank (Finished r) = 0"
| "rank Draining = 1"
| "rank Reopening = 2"
| "rank (Waiting n) = 2"
| "rank (Writing data) = 3"
| "rank Arming = 3"

definition none_connected :: "devices \<Rightarrow> u32 \<Rightarrow> bool" where
  "none_connected devs i \<longleftrightarrow> (\<forall>d k c. devs i = Some d \<longrightarrow> d_connections d k = Some c \<longrightarrow> c_state c \<noteq> Connected)"

definition doomed :: "u32 \<Rightarrow> proxy_task \<Rightarrow> bool" where
  "doomed i w \<longleftrightarrow> none_connected (pt_devs w) i
     \<and> (pt_phase w = Arming \<or> (\<exists>n. pt_phase w = Waiting n) \<longrightarrow> pt_used w < notify_one_calls (pt_notify w))"

definition packet_for :: "u32 \<Rightarrow> other_op \<Rightarrow> bool" where
  "packet_for i op \<longleftrightarrow> (\<exists>h payload. op = Arrival (i, h, payload))"

lemma arrive_elsewhere: "fst x \<noteq> i \<Longrightarrow> arrive iter mx devs x i = devs i"
  by (auto simp: arrive_def handle_tcp_packet_def handle_conn_def put_conn_def Let_def
      split: prod.splits option.splits)

lemma none_connected_link_op: "none_connected devs i \<Longrightarrow> none_connected (apply_link_op devs y) i"
  by (cases y) (auto simp: none_connected_def cm_add_device_def start_connect_def connection_new_def connect_syn_def
      version_section_def rx_section_def client_data_commit_def window_update_commit_def
      cleanup_device_connections_def kill_conn_def mux_device_new_def put_conn_def
      split: option.splits res.splits if_splits)

lemma none_connected_other:
  assumes "none_connected devs i" and "\<not> packet_for i op"
  shows "none_connected (apply_other iter mx devs op) i"
proof (cases op)
  case (Arrival x)
  with assms show ?thesis
    using arrive_elsewhere [of x i iter mx devs] by (cases x) (auto simp: none_connected_def packet_for_def)
next
  case (LinkOp y)
  with assms show ?thesis by (simp add: none_connected_link_op)
qed (use assms in \<open>auto simp: none_connected_def drain_section_def conn_drain_def put_conn_def
      remove_connection_def cm_remove_device_def split: option.splits if_splits\<close>)

lemma drain_none_connected:
  "none_connected devs i \<Longrightarrow> \<exists>r. drain_section devs i k = (Inl r, devs)"
  by (auto simp: none_connected_def drain_section_def split: option.splits)

lemma doomed_turn:
  assumes "notify_contract poll" and "task_inv i k w" and "doomed i w"
  shows "doomed i (proxy_turn poll io i k (pt_phase w) ev w)"
    and "rank (pt_phase (proxy_turn poll io i k (pt_phase w) ev w)) \<le> rank (pt_phase w) - 1"
proof -
  have dead: "none_connected (pt_devs w) i" using assms(3) by (simp add: doomed_def)
  obtain r where "drain_section (pt_devs w) i k = (Inl r, pt_devs w)" using drain_none_connected [OF dead] by blast
  moreover have "poll (pt_used w) n (pt_notify w) \<noteq> None" if "pt_phase w = Waiting n" for n
    using assms(3) that by (auto simp: doomed_def contract_pending [OF assms(1)])
  ultimately show "doomed i (proxy_turn poll io i k (pt_phase w) ev w)"
    "rank (pt_phase (proxy_turn poll io i k (pt_phase w) ev w)) \<le> rank (pt_phase w) - 1"
    using assms(3) by (cases "pt_phase w"; auto simp: doomed_def Let_def split: option.splits proxy_event.splits)+
qed

lemma doomed_other:
  assumes "task_inv i k w" and "doomed i w" and "foreign i k op" and "\<not> packet_for i op"
  shows "doomed i (after_other iter mx i k w op)"
  using assms none_connected_other [of "pt_devs w" i op iter mx] other_task_counts [OF assms(1,3), of iter mx]
  by (auto simp: doomed_def)

lemma doomed_run:
  assumes "notify_contract poll" and "task_inv i k w" and "doomed i w"
    and "\<forall>op \<in> set (other_ops steps). foreign i k op \<and> \<not> packet_for i op"
  shows "rank (pt_phase (proxy_run poll io iter mx i k w steps)) \<le> rank (pt_phase w) - length (turn_events steps)"
  using assms(2-4)
proof (induction steps arbitrary: w)
  case (Cons st steps)
  show ?case
  proof (cases st)
    case (Turn ev)
    let ?w = "proxy_turn poll io i k (pt_phase w) ev w"
    have "rank (pt_phase (proxy_run poll io iter mx i k ?w steps)) \<le> rank (pt_phase ?w) - length (turn_events steps)"
      using Cons.IH [of ?w] Cons.prems Turn task_inv_turn [OF assms(1)] doomed_turn(1) [OF assms(1)] by simp
    with Turn doomed_turn(2) [OF assms(1) Cons.prems(1,2), of io ev] show ?thesis by simp
  next
    case (Other_Task op)
    with Cons.prems Cons.IH [of "after_other iter mx i k w op"] show ?thesis by (simp add: task_inv_other doomed_other)
  qed
qed simp

lemma doomed_cleanup:
  assumes "task_inv i k w" and "pt_attached w"
  shows "doomed i (after_other iter mx i k w (LinkOp (Cleanup i)))"
proof -
  have "foreign i k (LinkOp (Cleanup i))" by (simp add: foreign_def)
  from other_task_attached(2) [OF assms this] assms(1) show ?thesis
    by (auto simp: doomed_def none_connected_def cleanup_device_connections_def kill_conn_def signalled_def
        notify_one_def task_inv_def split: option.splits)
qed

text \<open>C6: The end of a device ends its proxies. Once the connections of a device are torn down, the
  proxy of each returns within three of its turns, wherever it was in its loop, whatever its client
  does and whatever other tasks do in between, as long as no more packets of that device arrive.
  No wakeup is lost: the proxy may be between its last look at the buffer and its wait.\<close>

theorem disconnect_ends_proxy:
  assumes "notify_contract poll" and "task_inv i k w" and "pt_attached w"
    and "\<forall>op \<in> set (other_ops steps). foreign i k op \<and> \<not> packet_for i op"
    and "3 \<le> length (turn_events steps)"
  shows "\<exists>r. pt_phase (proxy_run poll io iter mx i k w (Other_Task (LinkOp (Cleanup i)) # steps)) = Finished r"
proof -
  let ?w = "after_other iter mx i k w (LinkOp (Cleanup i))"
  have "task_inv i k ?w" using task_inv_other [OF assms(2), of "LinkOp (Cleanup i)"] by (simp add: foreign_def)
  from doomed_run [OF assms(1) this doomed_cleanup [OF assms(2,3)] assms(4), of io]
  have "rank (pt_phase (proxy_run poll io iter mx i k ?w steps)) = 0"
    using assms(5) by (cases "pt_phase ?w") simp_all
  then show ?thesis
    by (cases "pt_phase (proxy_run poll io iter mx i k ?w steps)") simp_all
qed

theorem disconnect_ends_proxy_witness:
  "\<exists>r. pt_phase (proxy_run example_poll example_io example_iter 64 1 1024 (example_task Arming)
      [Other_Task (LinkOp (Cleanup 1)), Turn Notified, Other_Task (RemoveDevice 1), Turn Notified, Turn Notified]) = Finished r"
  using disconnect_ends_proxy [OF example_poll_contract example_task_inv [of Arming],
      of "[Turn Notified, Other_Task (RemoveDevice 1), Turn Notified, Turn Notified]" example_io example_iter 64]
  by (simp add: foreign_def packet_for_def del: proxy_run_simps)

section \<open>The gap before the wait\<close>

text \<open>C40: Data that arrives in the gap is not noticed. When a segment is accepted after the proxy found its
  buffer empty and before it has created the future it waits on, the proxy falls asleep on a buffer
  that holds the segment's bytes.\<close>

theorem data_in_the_gap_waits:
  assumes "notify_contract poll" and "task_inv i k w" and "pt_attached w" and "pt_phase w = Arming"
    and "pt_used w = notify_one_calls (pt_notify w)" and "accepted_by iter mx i k (pt_devs w) x \<noteq> []"
  shows "let w' = proxy_run poll io iter mx i k w [Other_Task (Arrival x), Turn ev]
    in asleep poll w' \<and> ib_content i k (pt_devs w') = ib_content i k (pt_devs w) @ accepted_by iter mx i k (pt_devs w) x"
  using assms other_task_attached [OF assms(2,3), of "Arrival x" iter mx]
  by (simp add: foreign_def signalled_def asleep_def contract_pending notify_waiters_def arrive_content)

theorem data_in_the_gap_waits_witness:
  "let w' = proxy_run example_poll example_io example_iter 64 1 1024 (example_task Arming)
       [Other_Task (Arrival example_segment), Turn Notified]
   in asleep example_poll w' \<and> ib_content 1 1024 (pt_devs w') = [7, 8]"
  using data_in_the_gap_waits [OF example_poll_contract example_task_inv [of Arming],
      of example_iter 64 example_segment example_io Notified]
  by (simp add: example_accepted notify_new_def ib_content_def [of _ _ example_devs] del: proxy_run_simps)

end
