(* ===== verification/Conformance_Mux.thy ===== *)
theory Conformance_Mux
  imports Reassembler
begin

text \<open>
  The unit tests of \<open>daemon/mux.rs\<close>, one definition per test with its assertions as a truth
  value, and for each that the model passes it. The test that feeds pseudo-random chunks is
  stated with the same generator for every number of rounds.
\<close>

section \<open>Helpers of the tests\<close>

fun is_err :: "('e, 'a) res \<Rightarrow> bool" where
  "is_err (Err e) = True" | "is_err _ = False"

fun unwrapped :: "('e, 'a) res \<Rightarrow> ('a \<Rightarrow> bool) \<Rightarrow> bool" where
  "unwrapped (Ok x) P = P x" | "unwrapped _ P = False"

section \<open>Frames\<close>

definition test_parse_mux_header :: bool where
  "test_parse_mux_header =
     unwrapped (parse_mux_header build_version_request) (\<lambda>header. mh_protocol header = 0 \<and> mh_length header = 20)"

definition test_parse_mux_header_too_short :: bool where
  "test_parse_mux_header_too_short = is_err (parse_mux_header [0, 0, 0, 2])"

definition test_parse_tcp_packet :: bool where
  "test_parse_tcp_packet =
     unwrapped (parse_tcp_packet [0, 80, 0, 50, 0, 0, 0, 1, 0, 0, 0, 2, 0x50, 0x02, 0, 0, 0, 0, 0, 0]) (\<lambda>packet.
       th_source_port (tp_header packet) = 80 \<and> th_dest_port (tp_header packet) = 50 \<and> th_flags (tp_header packet) = 0x002)"

definition test_build_control_result :: bool where
  "test_build_control_result = (length (build_control_result 1 0) = 24)"

definition test_build_setup_connect :: bool where
  "test_build_setup_connect = (length (build_setup_connect 80 50) = 25)"

definition test_build_version_request :: bool where
  "test_build_version_request =
     (let data = build_version_request in
      length data = 20
      \<and> unwrapped (parse_mux_header data) (\<lambda>header.
          \<not> mh_is_v2 header \<and> mh_protocol header = HEADER_VERSION \<and> mh_length header = 20)
      \<and> slice data 8 12 = Some (be32 2) \<and> slice data 12 16 = Some (be32 0))"

definition test_build_setup_packet_v2 :: bool where
  "test_build_setup_packet_v2 =
     (let data = build_setup_packet 0 0xFFFF in
      unwrapped (parse_mux_header data) (\<lambda>header.
        mh_is_v2 header \<and> mh_protocol header = HEADER_SETUP \<and> mh_rx_seq header = 0xFFFF \<and> mh_tx_seq header = 0)
      \<and> last data = 0x07)"

definition test_build_tcp_packet_v2_layout :: bool where
  "test_build_tcp_packet_v2_layout =
     (let pkt = build_tcp_packet (Some (42, 21)) 1100 62078 1 77 TCP_SYN (ucast (drop_bit 8 INITIAL_WINDOW)) None in
      length pkt = 36
      \<and> read_be32 pkt 0 = Some HEADER_TCP \<and> read_be32 pkt 4 = Some 36
      \<and> slice pkt 8 12 = Some [0xFE, 0xED, 0xFA, 0xCE]
      \<and> read_be16 pkt 12 = Some 42 \<and> read_be16 pkt 14 = Some 21)"

definition test_build_control_result_with_tag :: bool where
  "test_build_control_result_with_tag =
     (let result = build_control_result 42 0 in
      result ! 16 = 0 \<and> result ! 17 = 0 \<and> result ! 18 = 0 \<and> result ! 19 = 42)"

definition test_increment_seq_wraps :: bool where
  "test_increment_seq_wraps = (increment_seq (- 1) = 0)"

definition test_parse_mux_header_length_exceeds_data :: bool where
  "test_parse_mux_header_length_exceeds_data =
     unwrapped (parse_mux_header [0, 0, 0, 2, 0, 0, 0, 200]) (\<lambda>header. mh_length header = 200 \<and> mh_protocol header = 2)"

definition test_scaled_window :: bool where
  "test_scaled_window =
     (scaled_window 0 = 0 \<and> scaled_window 256 = 1 \<and> scaled_window (1024 * 1024) = 4096
      \<and> scaled_window (2 ^ 64 - 1) = - 1)"

section \<open>The reassembler\<close>

definition synthetic_frame :: "u32 \<Rightarrow> bytes \<Rightarrow> bytes" where
  "synthetic_frame protocol body = be32 protocol @ be32 (word_of_nat (8 + length body)) @ body"

definition test_reassembler_single_packet :: bool where
  "test_reassembler_single_packet =
     (let pkt = synthetic_frame HEADER_TCP [1, 2, 3, 4]; (out, r) = feed (reassembler_new 1024) pkt in
      length out = 1 \<and> out ! 0 = pkt \<and> reassembler_is_empty r)"

definition test_reassembler_drains_multiple_packets :: bool where
  "test_reassembler_drains_multiple_packets =
     (let p1 = synthetic_frame HEADER_TCP [1, 2, 3];
          p2 = synthetic_frame HEADER_CONTROL [9];
          p3 = synthetic_frame HEADER_TCP [5, 6, 7, 8, 9];
          (out, r) = feed (reassembler_new 1024) (p1 @ p2 @ p3) in
      length out = 3 \<and> out ! 0 = p1 \<and> out ! 1 = p2 \<and> out ! 2 = p3)"

definition test_reassembler_partial_then_complete :: bool where
  "test_reassembler_partial_then_complete =
     (let pkt = synthetic_frame HEADER_TCP [1, 2, 3, 4];
          (out1, r1) = feed (reassembler_new 1024) (take 5 pkt);
          (out2, r2) = feed r1 (drop 5 pkt) in
      out1 = [] \<and> reassembler_len r1 = 5 \<and> length out2 = 1 \<and> out2 ! 0 = pkt)"

definition test_reassembler_overflow_clears :: bool where
  "test_reassembler_overflow_clears =
     (let data = be32 2 @ be32 1000000 @ replicate 92 0;
          (out, r) = feed (reassembler_new 64) data in
      out = [] \<and> reassembler_len r < HEADER_SIZE)"

fun random_bytes :: "nat \<Rightarrow> u32 \<Rightarrow> bytes \<times> u32" where
  "random_bytes 0 s = ([], s)"
| "random_bytes (Suc n) s =
     (let s1 = s * 1664525 + 1013904223; (bs, s2) = random_bytes n s1 in (ucast (drop_bit 16 s1) # bs, s2))"

fun random_rounds :: "nat \<Rightarrow> u32 \<Rightarrow> reassembler \<Rightarrow> bool" where
  "random_rounds 0 s r = True"
| "random_rounds (Suc n) s r =
     (let (chunk, s1) = random_bytes 37 s; (out, r1) = feed r chunk in
      reassembler_len r1 \<le> 64 \<and> random_rounds n s1 r1)"

definition test_reassembler_buffer_never_exceeds_cap :: bool where
  "test_reassembler_buffer_never_exceeds_cap = random_rounds 200 0x12345678 (reassembler_new 64)"

definition test_reassembler_resync_on_garbage_length :: bool where
  "test_reassembler_resync_on_garbage_length =
     (let data = [0xAA, 0xBB, 0xCC, 0xDD, 0x11, 0x22, 0x33, 0x44];
          pkt = synthetic_frame HEADER_TCP [7, 7, 7];
          (out1, r1) = feed (reassembler_new 1024) data;
          (out2, r2) = feed r1 pkt in
      out1 = [] \<and> pkt \<in> set out2)"

section \<open>The model passes\<close>

lemma pass_parse_mux_header: test_parse_mux_header
  by code_simp

lemma pass_parse_mux_header_too_short: test_parse_mux_header_too_short
  by code_simp

lemma pass_parse_tcp_packet: test_parse_tcp_packet
  by code_simp

lemma pass_build_control_result: test_build_control_result
  by code_simp

lemma pass_build_setup_connect: test_build_setup_connect
  by code_simp

lemma pass_build_version_request: test_build_version_request
  by code_simp

lemma pass_build_setup_packet_v2: test_build_setup_packet_v2
  by code_simp

lemma pass_build_tcp_packet_v2_layout: test_build_tcp_packet_v2_layout
  by code_simp

lemma pass_build_control_result_with_tag: test_build_control_result_with_tag
  by code_simp

lemma pass_increment_seq_wraps: test_increment_seq_wraps
  by code_simp

lemma pass_parse_mux_header_length_exceeds_data: test_parse_mux_header_length_exceeds_data
  by code_simp

lemma pass_reassembler_single_packet: test_reassembler_single_packet
  by code_simp

lemma pass_reassembler_drains_multiple_packets: test_reassembler_drains_multiple_packets
  by code_simp

lemma pass_reassembler_partial_then_complete: test_reassembler_partial_then_complete
  by code_simp

text \<open>A run of zero bytes announces empty frames, which are skipped byte by byte.\<close>

lemma feed_loop_zeros: "fst (feed_loop mx (replicate n 0)) = [] \<and> length (snd (feed_loop mx (replicate n 0))) < HEADER_SIZE"
proof (induction n)
  case 0
  then show ?case by (simp add: feed_loop.simps [of mx "[]"] HEADER_SIZE_def)
next
  case (Suc n)
  have "frame_length (replicate (Suc n) 0) < HEADER_SIZE" if "\<not> length (replicate (Suc n) (0 :: u8)) < HEADER_SIZE"
    using that by (simp add: frame_length_def HEADER_SIZE_def from_be32_def)
  then show ?case using Suc by (subst (1 2) feed_loop.simps) (simp add: HEADER_SIZE_def)
qed

text \<open>The loop on a buffer whose first bytes are known.\<close>

lemma feed_loop_Cons:
  "feed_loop mx (a # b # c # d # e # f # g # h # xs) =
     (let n = unat (from_be32 e f g h); buf = a # b # c # d # e # f # g # h # xs in
      if n < 8 \<or> mx < n then feed_loop mx (tl buf)
      else if length buf < n then ([], buf)
      else let (packets, rest) = feed_loop mx (drop n buf) in (take n buf # packets, rest))"
  by (subst feed_loop.simps) (simp add: frame_length_def HEADER_SIZE_def numeral_eq_Suc Let_def)

lemma feed_loop_under_four: "length buf < 8 \<Longrightarrow> feed_loop mx buf = ([], buf)"
  by (subst feed_loop.simps) (simp add: HEADER_SIZE_def)

lemma pass_reassembler_resync_on_garbage_length: test_reassembler_resync_on_garbage_length
  by (simp add: test_reassembler_resync_on_garbage_length_def feed_def reassembler_new_def feed_loop_Cons feed_loop_under_four
      from_be32_def synthetic_frame_def be32_def HEADER_TCP_def Let_def)

lemma pass_reassembler_overflow_clears: test_reassembler_overflow_clears
proof -
  have zeros: "replicate 92 (0 :: u8) = [0, 0, 0, 0, 0, 0, 0] @ replicate 85 0"
    by (rule nth_equalityI) (auto simp: nth_append nth_Cons')
  have "feed_loop 64 (be32 2 @ be32 1000000 @ replicate 92 0) = feed_loop 64 (replicate 92 0)"
    unfolding zeros by (simp add: be32_def feed_loop_Cons from_be32_def Let_def)
  then show ?thesis
    using feed_loop_zeros [of 64 92]
    by (auto simp: test_reassembler_overflow_clears_def feed_def reassembler_new_def reassembler_len_def split: prod.splits)
qed

lemma pass_scaled_window: test_scaled_window
proof -
  have "drop_bit 8 (1048576 :: nat) = 4096" "drop_bit 8 (256 :: nat) = 1" "65535 \<le> drop_bit 8 (18446744073709551615 :: nat)"
    by (simp_all add: drop_bit_eq_div)
  then show ?thesis by (simp add: test_scaled_window_def scaled_window_def)
qed

lemma feed_within: "reassembler_len (snd (feed r data)) \<le> max_buffer r \<and> max_buffer (snd (feed r data)) = max_buffer r"
  by (simp add: feed_def reassembler_len_def split: prod.splits)

lemma random_rounds_hold: "max_buffer r = 64 \<Longrightarrow> random_rounds n s r"
proof (induction n arbitrary: s r)
  case (Suc n)
  obtain chunk s1 where "random_bytes 37 s = (chunk, s1)" by fastforce
  moreover obtain out r1 where "feed r chunk = (out, r1)" by fastforce
  moreover have "reassembler_len r1 \<le> 64" "max_buffer r1 = 64"
    using feed_within [of r chunk] Suc.prems calculation(2) by simp_all
  ultimately show ?case using Suc.IH by simp
qed simp

lemma pass_reassembler_buffer_never_exceeds_cap: test_reassembler_buffer_never_exceeds_cap
  unfolding test_reassembler_buffer_never_exceeds_cap_def by (rule random_rounds_hold) (simp add: reassembler_new_def)

end
