(* ===== verification/Conformance_Scan.thy ===== *)
theory Conformance_Scan
  imports Device_Scanner
begin

text \<open>
  The unit tests of \<open>daemon/device_scanner.rs\<close>, one definition per test with its assertions as a
  truth value, and for each that the model passes it, in whatever order the hash map of devices
  iterates.
\<close>

section \<open>Scanning\<close>

definition obs :: "u8 \<Rightarrow> u8 \<Rightarrow> rstr option \<Rightarrow> scan_observation" where
  "obs bus addr udid = \<lparr>o_usb_bus = bus, o_usb_address = addr, o_product_id = 0x12A8, o_udid = udid\<rparr>"

definition fixture :: device_scanner where
  "fixture = \<lparr>sc_devices = Map.empty, sc_miss_counts = Map.empty, sc_next_id = 1\<rparr>"

fun is_attached :: "device_change \<Rightarrow> bool" where
  "is_attached (Attached d) = True" | "is_attached (Detached i) = False"

fun repeat_scan :: "usb_iter \<Rightarrow> nat \<Rightarrow> scan_observation list \<Rightarrow> device_scanner \<Rightarrow> device_scanner \<times> device_change list" where
  "repeat_scan iter 0 current sc = (sc, [])"
| "repeat_scan iter (Suc n) current sc =
     (let (sc1, ch1) = diff_devices iter sc current; (sc2, ch2) = repeat_scan iter n current sc1 in (sc2, ch1 @ ch2))"

definition attach_and_detach :: "usb_iter \<Rightarrow> bool" where
  "attach_and_detach iter =
     (let (s1, changes) = diff_devices iter fixture [obs 1 5 (Some (lit ''AAAA''))];
          (s2, c1) = diff_devices iter s1 [];
          (s3, c2) = diff_devices iter s2 [] in
      map is_attached changes = [True] \<and> length (get_devices iter s1) = 1 \<and> c1 = []
      \<and> c2 = [Detached 1] \<and> get_devices iter s3 = [])"

definition crossbus_same_address_no_collision :: "usb_iter \<Rightarrow> bool" where
  "crossbus_same_address_no_collision iter =
     (let (s1, changes) = diff_devices iter fixture [obs 1 7 (Some (lit ''AAAA'')), obs 2 7 (Some (lit ''BBBB''))];
          (s2, c) = repeat_scan iter (unat DETACH_AFTER_MISSES) [obs 2 7 (Some (lit ''BBBB''))] s1 in
      length changes = 2 \<and> length (get_devices iter s1) = 2
      \<and> (case get_devices iter s2 of
           [remaining] \<Rightarrow> u_udid remaining = lit ''BBBB'' \<and> u_usb_bus remaining = 2 | _ \<Rightarrow> False))"

definition replacement_same_port :: "usb_iter \<Rightarrow> bool" where
  "replacement_same_port iter =
     (let (s1, c) = diff_devices iter fixture [obs 1 3 (Some (lit ''AAAA''))];
          (s2, changes) = diff_devices iter s1 [obs 1 3 (Some (lit ''BBBB''))] in
      \<not> is_attached (changes ! 0) \<and> is_attached (changes ! 1)
      \<and> (case get_devices iter s2 of [dev] \<Rightarrow> u_udid dev = lit ''BBBB'' | _ \<Rightarrow> False))"

definition unreadable_serial_never_defaches :: "usb_iter \<Rightarrow> bool" where
  "unreadable_serial_never_defaches iter =
     (let (s1, c) = diff_devices iter fixture [obs 1 9 (Some (lit ''AAAA''))];
          (s2, c2) = repeat_scan iter 10 [obs 1 9 None] s1 in
      c2 = [] \<and> length (get_devices iter s2) = 1)"

definition unreadable_new_device_waits :: "usb_iter \<Rightarrow> bool" where
  "unreadable_new_device_waits iter =
     (let (s1, c1) = diff_devices iter fixture [obs 1 9 None];
          (s2, c2) = diff_devices iter s1 [obs 1 9 (Some (lit ''AAAA''))] in
      c1 = [] \<and> get_devices iter s1 = [] \<and> length c2 = 1)"

definition reconnect_after_detach_gets_fresh_id :: "usb_iter \<Rightarrow> bool" where
  "reconnect_after_detach_gets_fresh_id iter =
     (let (s1, c1) = diff_devices iter fixture [obs 1 5 (Some (lit ''AAAA''))];
          (s2, c) = repeat_scan iter (unat DETACH_AFTER_MISSES) [] s1;
          (s3, c2) = diff_devices iter s2 [obs 1 5 (Some (lit ''AAAA''))] in
      case (c1, c2) of
        (Attached d1 # _, Attached d2 # _) \<Rightarrow> u_device_id d1 < u_device_id d2 | _ \<Rightarrow> False)"

definition multi_device_partial_outage :: "usb_iter \<Rightarrow> bool" where
  "multi_device_partial_outage iter =
     (let (s1, c) = diff_devices iter fixture
            [obs 1 1 (Some (lit ''AAAA'')), obs 1 2 (Some (lit ''BBBB'')), obs 1 3 (Some (lit ''CCCC''))];
          (s2, ch) = repeat_scan iter (unat DETACH_AFTER_MISSES) [obs 1 1 (Some (lit ''AAAA'')), obs 1 3 (Some (lit ''CCCC''))] s1;
          detaches = length (filter (\<lambda>c. \<not> is_attached c) ch);
          udids = map u_udid (get_devices iter s2) in
      length (get_devices iter s1) = 3 \<and> detaches = 1 \<and> length (get_devices iter s2) = 2
      \<and> lit ''AAAA'' \<in> set udids \<and> lit ''CCCC'' \<in> set udids)"

text \<open>The order of a map with few keys.\<close>

lemma iter_empty: "hash_iter iter \<Longrightarrow> iter Map.empty = []"
  using hash_iterD [of iter Map.empty] by simp

lemma iter_one: "hash_iter iter \<Longrightarrow> iter [k \<mapsto> v] = [k]"
  using hash_iterD [of iter "[k \<mapsto> v]"] by (cases "iter [k \<mapsto> v]") (auto simp: subset_singleton_iff)

lemma iter_two:
  assumes "hash_iter iter" and "k \<noteq> l"
  shows "iter [k \<mapsto> v, l \<mapsto> w] = [k, l] \<or> iter [k \<mapsto> v, l \<mapsto> w] = [l, k]"
proof -
  let ?xs = "iter [k \<mapsto> v, l \<mapsto> w]"
  have "distinct ?xs" "set ?xs = {k, l}" using hash_iterD [OF assms(1), of "[k \<mapsto> v, l \<mapsto> w]"] by auto
  moreover from this have "length ?xs = 2" using assms(2) by (simp add: distinct_card [symmetric])
  ultimately show ?thesis by (auto simp: numeral_2_eq_2 length_Suc_conv doubleton_eq_iff)
qed

lemma iter_three:
  assumes "hash_iter iter" and "distinct [k, l, n]"
  shows "iter [k \<mapsto> v, l \<mapsto> w, n \<mapsto> x] \<in> {[k, l, n], [k, n, l], [l, k, n], [l, n, k], [n, k, l], [n, l, k]}"
proof -
  let ?xs = "iter [k \<mapsto> v, l \<mapsto> w, n \<mapsto> x]"
  have xs: "distinct ?xs" "set ?xs = {k, l, n}" using hash_iterD [OF assms(1), of "[k \<mapsto> v, l \<mapsto> w, n \<mapsto> x]"] by auto
  then have "length ?xs = 3" using assms(2) by (simp add: distinct_card [symmetric])
  then obtain a b c where abc: "?xs = [a, b, c]" by (auto simp: numeral_3_eq_3 length_Suc_conv)
  with xs have "a \<in> {k, l, n}" "b \<in> {k, l, n}" "c \<in> {k, l, n}" "distinct [a, b, c]" by auto
  then show ?thesis unfolding abc by auto
qed

lemma repeat_scan_numeral:
  "repeat_scan iter (numeral w) current sc =
     (let (sc1, ch1) = diff_devices iter sc current; (sc2, ch2) = repeat_scan iter (pred_numeral w) current sc1 in (sc2, ch1 @ ch2))"
  by (simp add: numeral_eq_Suc)

lemma one_miss_is_not_two: "\<not> (2 :: u32) \<le> 1"
  by (simp add: word_le_nat_alt)

lemmas scan_simps = diff_devices_def observe_def miss_def find_at_def device_values_def usb_device_of_def obs_def fixture_def
  get_devices_def DETACH_AFTER_MISSES_def repeat_scan_numeral one_miss_is_not_two fun_upd_idem Let_def

lemma pass_attach_and_detach: "hash_iter iter \<Longrightarrow> attach_and_detach iter"
  by (simp add: attach_and_detach_def scan_simps iter_empty iter_one)

lemma pass_replacement_same_port: "hash_iter iter \<Longrightarrow> replacement_same_port iter"
  by (simp add: replacement_same_port_def scan_simps iter_empty iter_one)

lemma pass_unreadable_serial_never_defaches: "hash_iter iter \<Longrightarrow> unreadable_serial_never_defaches iter"
  by (simp add: unreadable_serial_never_defaches_def scan_simps iter_empty iter_one)

lemma pass_unreadable_new_device_waits: "hash_iter iter \<Longrightarrow> unreadable_new_device_waits iter"
  by (simp add: unreadable_new_device_waits_def scan_simps iter_empty iter_one)

lemma pass_reconnect_after_detach_gets_fresh_id: "hash_iter iter \<Longrightarrow> reconnect_after_detach_gets_fresh_id iter"
  by (simp add: reconnect_after_detach_gets_fresh_id_def scan_simps iter_empty iter_one)

lemma pass_crossbus_same_address_no_collision:
  assumes "hash_iter iter"
  shows "crossbus_same_address_no_collision iter"
proof -
  let ?a = "usb_device_of 1 (lit ''AAAA'') (obs 1 7 None)" and ?b = "usb_device_of 2 (lit ''BBBB'') (obs 2 7 None)"
  have "iter [1 \<mapsto> ?a, 2 \<mapsto> ?b] = [1, 2] \<or> iter [1 \<mapsto> ?a, 2 \<mapsto> ?b] = [2, 1]"
    by (rule iter_two [OF assms]) simp
  then show ?thesis
    by (elim disjE) (simp_all add: crossbus_same_address_no_collision_def scan_simps iter_empty [OF assms] iter_one [OF assms])
qed

lemma pass_multi_device_partial_outage:
  assumes "hash_iter iter"
  shows "multi_device_partial_outage iter"
proof -
  let ?a = "usb_device_of 1 (lit ''AAAA'') (obs 1 1 None)" and ?b = "usb_device_of 2 (lit ''BBBB'') (obs 1 2 None)"
    and ?c = "usb_device_of 3 (lit ''CCCC'') (obs 1 3 None)"
  have three: "iter [1 \<mapsto> ?a, 2 \<mapsto> ?b, 3 \<mapsto> ?c] \<in> {[1, 2, 3], [1, 3, 2], [2, 1, 3], [2, 3, 1], [3, 1, 2], [3, 2, 1]}"
    by (rule iter_three [OF assms]) simp
  have two: "iter [1 \<mapsto> ?a, 2 \<mapsto> ?b] = [1, 2] \<or> iter [1 \<mapsto> ?a, 2 \<mapsto> ?b] = [2, 1]"
    "iter [1 \<mapsto> ?a, 3 \<mapsto> ?c] = [1, 3] \<or> iter [1 \<mapsto> ?a, 3 \<mapsto> ?c] = [3, 1]"
    by (rule iter_two [OF assms], simp)+
  from three two show ?thesis unfolding insert_iff empty_iff
    by (elim disjE FalseE) (simp_all add: multi_device_partial_outage_def scan_simps iter_empty [OF assms] iter_one [OF assms])
qed

end
