(* ===== verification/Conformance.thy ===== *)
theory Conformance
  imports Relay_Main Conformance_Mux Conformance_Scan "HOL-Library.Code_Target_Nat"
begin

text \<open>
  The unit tests of the other modules, one definition per test with its assertions as a truth
  value, and for each that the model passes it. What a test takes from the system
  (property list syntax, the order of a directory listing) is an argument. Two tests are left
  out: one of JSON text, which belongs to \<open>serde_json\<close>, and one that asks two random numbers to
  differ.
\<close>

section \<open>Identifiers and peers\<close>

definition test_validate_udid_valid :: bool where
  "test_validate_udid_valid =
     (is_Ok (validate_udid (lit ''00008110-000C694914F3801E'')) \<and> is_Ok (validate_udid (lit ''00008110000C694914F3801E''))
      \<and> is_Ok (validate_udid (lit ''ABCDEF1234567890'')))"

definition test_validate_udid_invalid :: bool where
  "test_validate_udid_invalid =
     (is_err (validate_udid []) \<and> is_err (validate_udid (lit ''../etc/passwd'')) \<and> is_err (validate_udid (lit ''abc/def''))
      \<and> is_err (validate_udid (lit ''abc'' @ [92] @ lit ''def'')) \<and> is_err (validate_udid (lit ''abc..def''))
      \<and> is_err (validate_udid (replicate 100 97)) \<and> is_err (validate_udid (lit ''abc def'')))"

definition test_validate_udid_trimmed :: bool where
  "test_validate_udid_trimmed = is_Ok (validate_udid (lit ''  00008110-000C694914F3801E  ''))"

definition test_sanitize_udid_for_path :: bool where
  "test_sanitize_udid_for_path =
     (sanitize_udid_for_path (lit ''00008110-000C694914F3801E'') = Some (lit ''00008110-000C694914F3801E'')
      \<and> sanitize_udid_for_path (lit ''../../../etc/passwd'') = None \<and> sanitize_udid_for_path [] = None)"

definition test_peer_credentials_allowed_empty :: bool where
  "test_peer_credentials_allowed_empty = is_allowed \<lparr>pc_uid = 1000, pc_gid = 1000, pc_pid = Some 1234\<rparr> []"

definition test_peer_credentials_allowed_match :: bool where
  "test_peer_credentials_allowed_match =
     (let cred = \<lparr>pc_uid = 1000, pc_gid = 1000, pc_pid = Some 1234\<rparr> in
      is_allowed cred [0, 1000, 65534] \<and> \<not> is_allowed cred [0, 65534])"

definition test_socket_cleanup_guard :: bool where
  "test_socket_cleanup_guard =
     (let sock = lit ''/tmp/test.sock''; fs = [sock \<mapsto> OtherFile] in
      fs sock \<noteq> None \<and> guard_drop (\<lambda>_. True) (guard_new sock True) fs sock = None)"

definition test_socket_cleanup_guard_disarmed :: bool where
  "test_socket_cleanup_guard_disarmed =
     (let sock = lit ''/tmp/test.sock''; fs = [sock \<mapsto> OtherFile] in
      guard_drop (\<lambda>_. True) (guard_disarm (guard_new sock True)) fs sock \<noteq> None)"

definition test_parse_octal_via_config :: bool where
  "test_parse_octal_via_config =
     (parse_octal (lit ''0660'') = Ok 432 \<and> parse_octal (lit ''0o600'') = Ok 384 \<and> parse_octal (lit ''600'') = Ok 384)"

definition test_peer_allowlist_uid :: bool where
  "test_peer_allowlist_uid =
     (let config = config_default;
          ident = (\<lambda>uid. \<lparr>pi_credentials = Some \<lparr>pc_uid = uid, pc_gid = uid, pc_pid = None\<rparr>, pi_sid = None\<rparr>);
          listed = config\<lparr>cfg_allowed_uids := [1000]\<rparr> in
      peer_is_allowed (ident 1234) config \<and> peer_is_allowed (ident 1000) listed
      \<and> \<not> peer_is_allowed (ident 1001) listed \<and> \<not> peer_is_allowed anonymous listed)"

definition test_peer_allowlist_sid :: bool where
  "test_peer_allowlist_sid =
     (let config = config_default\<lparr>cfg_allowed_sids := [lit ''S-1-5-32-545'']\<rparr>;
          ident = (\<lambda>sid. \<lparr>pi_credentials = None, pi_sid = Some sid\<rparr>) in
      peer_is_allowed (ident (lit ''S-1-5-32-545'')) config \<and> \<not> peer_is_allowed (ident (lit ''S-1-5-18'')) config
      \<and> \<not> peer_is_allowed anonymous config)"

lemma pass_validate_udid_valid: test_validate_udid_valid by code_simp

lemma pass_validate_udid_invalid: test_validate_udid_invalid by code_simp

lemma pass_validate_udid_trimmed: test_validate_udid_trimmed by code_simp

lemma pass_sanitize_udid_for_path: test_sanitize_udid_for_path by code_simp

lemma pass_peer_credentials_allowed_empty: test_peer_credentials_allowed_empty by code_simp

lemma pass_peer_credentials_allowed_match: test_peer_credentials_allowed_match by code_simp

lemma pass_socket_cleanup_guard: test_socket_cleanup_guard
  by (simp add: test_socket_cleanup_guard_def guard_drop_def guard_new_def Let_def)

lemma pass_socket_cleanup_guard_disarmed: test_socket_cleanup_guard_disarmed
  by (simp add: test_socket_cleanup_guard_disarmed_def guard_drop_def guard_new_def guard_disarm_def Let_def)

lemma pass_parse_octal_via_config: test_parse_octal_via_config by code_simp

lemma pass_peer_allowlist_uid: test_peer_allowlist_uid
  by (simp add: test_peer_allowlist_uid_def peer_is_allowed_def config_default_def anonymous_def Let_def)

lemma pass_peer_allowlist_sid: test_peer_allowlist_sid
  by (simp add: test_peer_allowlist_sid_def peer_is_allowed_def config_default_def anonymous_def Let_def)

section \<open>Settings\<close>

definition test_parse_octal :: bool where
  "test_parse_octal =
     (parse_octal (lit ''0666'') = Ok 438 \<and> parse_octal (lit ''0o660'') = Ok 432 \<and> parse_octal (lit ''600'') = Ok 384
      \<and> parse_octal (lit ''0755'') = Ok 493 \<and> is_err (parse_octal (lit ''invalid'')))"

definition test_defaults :: bool where
  "test_defaults =
     (let cfg = config_default in
      cfg_socket_mode cfg = 438 \<and> cfg_require_pair_record cfg \<and> cfg_max_clients cfg = 256 \<and> cfg_read_workers cfg = 3
      \<and> cfg_allowed_uids cfg = [])"

definition test_endpoint_unix_scheme :: "bool" where
  "test_endpoint_unix_scheme =
     unwrapped (finalize_endpoint (config_default\<lparr>cfg_endpoint_raw := Some (lit ''unix:/tmp/foo.sock'')\<rparr>)) (\<lambda>cfg.
       (case cfg_endpoint cfg of Unix p \<Rightarrow> True | _ \<Rightarrow> False) \<and> cfg_socket_path cfg = lit ''/tmp/foo.sock'')"

definition test_validate_rejects_zero_max_clients :: bool where
  "test_validate_rejects_zero_max_clients = is_err (validate (config_default\<lparr>cfg_max_clients := 0\<rparr>))"

definition test_validate_rejects_zero_read_workers :: bool where
  "test_validate_rejects_zero_read_workers = is_err (validate (config_default\<lparr>cfg_read_workers := 0\<rparr>))"

definition test_validate_rejects_invalid_mode :: bool where
  "test_validate_rejects_invalid_mode = is_err (validate (config_default\<lparr>cfg_socket_mode := 512\<rparr>))"

definition test_validate_rejects_zero_timeouts :: bool where
  "test_validate_rejects_zero_timeouts =
     (is_err (validate (config_default\<lparr>cfg_scan_interval := 0\<rparr>)) \<and> is_err (validate (config_default\<lparr>cfg_usb_timeout := 0\<rparr>)))"

definition test_validate_rejects_tiny_packet_cap :: bool where
  "test_validate_rejects_tiny_packet_cap = is_err (validate (config_default\<lparr>cfg_max_packet_bytes := 512\<rparr>))"

definition test_validate_defaults_ok :: bool where
  "test_validate_defaults_ok = is_Ok (validate config_default)"

lemma pass_parse_octal: test_parse_octal by code_simp

lemma pass_defaults: test_defaults
  by (simp add: test_defaults_def config_default_def)

lemma pass_endpoint_unix_scheme: "test_endpoint_unix_scheme"
  by (simp add: test_endpoint_unix_scheme_def finalize_endpoint_def parse_endpoint_def strip_prefix_def config_default_def)

lemmas validate_tests = test_validate_rejects_zero_max_clients_def test_validate_rejects_zero_read_workers_def
  test_validate_rejects_invalid_mode_def test_validate_rejects_zero_timeouts_def
  test_validate_rejects_tiny_packet_cap_def test_validate_defaults_ok_def

lemma pass_validate_tests:
  "test_validate_rejects_zero_max_clients" "test_validate_rejects_zero_read_workers" "test_validate_rejects_invalid_mode"
  "test_validate_rejects_zero_timeouts" "test_validate_rejects_tiny_packet_cap" "test_validate_defaults_ok"
  by (simp_all add: validate_tests validate_def config_default_def)

section \<open>Endpoints\<close>

definition test_parse_unix_scheme :: "bool" where
  "test_parse_unix_scheme =
     unwrapped (parse_endpoint (lit ''unix:/tmp/foo.sock'')) (\<lambda>ep.
       case ep of Unix p \<Rightarrow> p = lit ''/tmp/foo.sock'' | _ \<Rightarrow> False)"

definition test_parse_pipe_scheme :: "bool" where
  "test_parse_pipe_scheme =
     unwrapped (parse_endpoint (lit ''pipe:meridian-relay'')) (\<lambda>ep. ep = NamedPipe (lit ''meridian-relay''))"

definition test_parse_tcp_loopback_ok :: "bool" where
  "test_parse_tcp_loopback_ok =
     unwrapped (parse_endpoint (lit ''tcp:127.0.0.1:27015'')) (\<lambda>ep.
       case parse_sock_addr (lit ''127.0.0.1:27015'') of Some addr \<Rightarrow> ep = Tcp_Addr addr | None \<Rightarrow> False)"

definition test_parse_tcp_rejects_non_loopback :: "bool" where
  "test_parse_tcp_rejects_non_loopback =
     (is_err (parse_endpoint (lit ''tcp:0.0.0.0:27015'')) \<and> is_err (parse_endpoint (lit ''tcp:192.168.1.5:27015''))
      \<and> is_Ok (parse_endpoint (lit ''tcp:[::1]:27015'')))"

definition test_parse_pipe_rejects_traversal :: "bool" where
  "test_parse_pipe_rejects_traversal =
     (is_err (parse_endpoint (lit ''pipe:../evil'')) \<and> is_err (parse_endpoint (lit ''pipe:a/b''))
      \<and> is_err (parse_endpoint (lit ''pipe:a'' @ [92] @ lit ''b'')) \<and> is_err (parse_endpoint (lit ''pipe:'')))"

text \<open>Each platform has its own assertion.\<close>

definition test_bare_value_platform_scheme :: "bool" where
  "test_bare_value_platform_scheme =
     (unwrapped (parse_endpoint (lit ''meridian-relay'')) (\<lambda>ep. case ep of Unix p \<Rightarrow> True | _ \<Rightarrow> False)
      \<and> unwrapped (parse_endpoint_windows (lit ''meridian-relay'')) (\<lambda>ep. case ep of NamedPipe n \<Rightarrow> True | _ \<Rightarrow> False))"

definition test_display_roundtrip :: "bool" where
  "test_display_roundtrip =
     list_all (\<lambda>s. unwrapped (parse_endpoint s) (\<lambda>ep. parse_endpoint (display_string ep) = Ok ep))
       [lit ''unix:/tmp/a.sock'', lit ''pipe:foo'', lit ''tcp:127.0.0.1:1'']"

lemma pass_parse_unix_scheme: "test_parse_unix_scheme"
  by code_simp

lemma pass_parse_pipe_scheme: "test_parse_pipe_scheme"
  by code_simp

lemma pass_parse_tcp_loopback_ok: "test_parse_tcp_loopback_ok"
  by code_simp

lemma pass_parse_tcp_rejects_non_loopback: "test_parse_tcp_rejects_non_loopback"
  by code_simp

lemma pass_parse_pipe_rejects_traversal: "test_parse_pipe_rejects_traversal"
  by code_simp

lemma pass_bare_value_platform_scheme: "test_bare_value_platform_scheme"
  by code_simp

lemma pass_display_roundtrip: "test_display_roundtrip"
  by code_simp

section \<open>Packets\<close>

definition list_request :: dictionary where
  "list_request = dict_insert (lit ''ClientVersion'') (PInteger 1) (dict_insert (lit ''MessageType'') (PString (lit ''ListDevices'')) [])"

definition test_write_read_roundtrip :: "plist_writer \<Rightarrow> plist_reader \<Rightarrow> plist_reader \<Rightarrow> bool" where
  "test_write_read_roundtrip to_xml from_binary from_xml =
     (let pkt = raw_packet_new list_request 1 8 42 in
      unwrapped (write_to to_xml pkt) (\<lambda>server.
      unwrapped (read_packet from_binary from_xml (cfg_max_packet_bytes config_default) server) (\<lambda>(resp, rest).
        rp_tag resp = 42 \<and> rp_version resp = 1 \<and> rp_message resp = 8
        \<and> get_string (rp_plist resp) ''MessageType'' = Some (lit ''ListDevices''))))"

definition test_read_rejects_huge_packet :: "plist_reader \<Rightarrow> plist_reader \<Rightarrow> bool" where
  "test_read_rejects_huge_packet from_binary from_xml =
     (let header = le32 (16 + 256 * 1024 * 1024) @ le32 1 @ le32 8 @ le32 1 in
      is_err (read_packet from_binary from_xml (cfg_max_packet_bytes config_default) header))"

definition test_make_result_response :: bool where
  "test_make_result_response =
     (let pkt = make_result_response 5 0 in
      rp_tag pkt = 5 \<and> get_string (rp_plist pkt) ''MessageType'' = Some (lit ''Result'')
      \<and> get_unsigned (rp_plist pkt) ''Number'' = Some 0)"

definition test_make_device_list_empty :: bool where
  "test_make_device_list_empty =
     (case dict_get (rp_plist (make_device_list_response 1 [])) (lit ''DeviceList'') of
        Some (PArray list) \<Rightarrow> list = [] | _ \<Rightarrow> False)"

definition test_make_stats_response :: bool where
  "test_make_stats_response =
     (let json = lit ''{'' @ [34] @ lit ''uptime'' @ [34] @ lit '':42}''; pkt = make_stats_response 1 json in
      get_string (rp_plist pkt) ''Stats'' = Some json)"

definition test_make_stats_command :: bool where
  "test_make_stats_command =
     (let pkt = make_stats_command 7 in
      rp_tag pkt = 7 \<and> get_string (rp_plist pkt) ''MessageType'' = Some (lit ''MeridianStats''))"

definition test_result_codes_match_usbmuxd :: bool where
  "test_result_codes_match_usbmuxd = (RESULT_OK = 0 \<and> BAD_COMMAND = 1 \<and> BAD_DEVICE = 2 \<and> CONNECTION_REFUSED = 3)"

lemma pass_write_read_roundtrip:
  assumes "xml_roundtrip to_xml from_xml list_request xml" and "length xml \<le> 65520"
  shows "test_write_read_roundtrip to_xml from_binary from_xml"
proof -
  let ?p = "raw_packet_new list_request 1 8 42"
  have len: "length xml + 16 < 2 ^ 32" "length xml \<le> cfg_max_packet_bytes config_default"
    using assms(2) by (simp_all add: config_default_def)
  have "xml_roundtrip to_xml from_xml (rp_plist ?p) xml" using assms(1) by (simp add: raw_packet_new_def)
  from read_write_packet [OF this len, of from_binary "[]"] obtain bs
    where "write_to to_xml ?p = Ok bs" "read_packet from_binary from_xml (cfg_max_packet_bytes config_default) bs
        = Ok (?p\<lparr>rp_size := word_of_nat (length xml + 16)\<rparr>, [])" by auto
  moreover have "get_string list_request ''MessageType'' = Some (lit ''ListDevices'')" by code_simp
  ultimately show ?thesis by (simp add: test_write_read_roundtrip_def) (simp add: raw_packet_new_def)
qed

lemma pass_read_rejects_huge_packet: "test_read_rejects_huge_packet from_binary from_xml"
  by code_simp

lemma pass_make_result_response: test_make_result_response by code_simp

lemma pass_make_device_list_empty: test_make_device_list_empty by code_simp

lemma pass_make_stats_response: test_make_stats_response by code_simp

lemma pass_make_stats_command: test_make_stats_command by code_simp

lemma pass_result_codes_match_usbmuxd: test_result_codes_match_usbmuxd by code_simp

section \<open>Counters, tunnels and setup\<close>

definition test_metrics_snapshot :: bool where
  "test_metrics_snapshot =
     (let m = (metrics_new 0)\<lparr>clients_accepted := 0 + 10, clients_active := 0 + 3\<rparr>; snap = snapshot m 0 in
      st_clients_accepted snap = 10 \<and> st_clients_active snap = 3 \<and> st_uptime_secs snap = 0)"

definition test_listen_guard :: bool where
  "test_listen_guard =
     (let m = metrics_new 0; held = listen_guard_new m in
      listens_active m = 0 \<and> listens_active held = 1 \<and> listens_active (listen_guard_drop held) = 0)"

definition parse_pairs_good :: bool where
  "parse_pairs_good = (parse_pairs [lit ''9100:9100'', lit ''8100:8100''] = Ok [(9100, 9100), (8100, 8100)])"

definition parse_pairs_rejects_garbage :: bool where
  "parse_pairs_rejects_garbage =
     (is_err (parse_pairs [lit ''nope'']) \<and> is_err (parse_pairs [lit ''0:9100'']) \<and> is_err (parse_pairs [lit ''9100:0''])
      \<and> is_err (parse_pairs [lit ''1:x'']))"

definition udev_rule_matches_apple_vid :: bool where
  "udev_rule_matches_apple_vid = (contains_str UDEV_RULE (lit ''05ac'') \<and> contains_str UDEV_RULE (lit ''uaccess''))"

lemma pass_metrics_snapshot: test_metrics_snapshot by code_simp

lemma pass_listen_guard: test_listen_guard by code_simp

lemma pass_parse_pairs_good: parse_pairs_good by code_simp

lemma pass_parse_pairs_rejects_garbage: parse_pairs_rejects_garbage by code_simp

lemma pass_udev_rule_matches_apple_vid: udev_rule_matches_apple_vid by code_simp

section \<open>Secrets and pair records\<close>

text \<open>A temporary directory.\<close>

definition tempdir :: lockdown_dir where
  "tempdir = \<lparr>ld_exists = True, ld_files = Map.empty\<rparr>"

abbreviation with_file :: "lockdown_dir \<Rightarrow> rstr \<Rightarrow> node \<Rightarrow> lockdown_dir" where
  "with_file ld name n \<equiv> ld\<lparr>ld_files := (ld_files ld)(name \<mapsto> n)\<rparr>"

definition test_secure_write_secret_mode :: bool where
  "test_secure_write_secret_mode =
     (let (r, ld) = secure_write_secret None tempdir (lit ''secret'') (str_bytes (lit ''data'')) in
      is_Ok r \<and> (case ld_files ld (lit ''secret'') of Some (Regular b mode) \<Rightarrow> mode AND 511 = 384 | _ \<Rightarrow> False)
      \<and> fs_read ld (lit ''secret'') = Ok (str_bytes (lit ''data'')))"

definition test_secure_write_secret_rejects_symlink :: bool where
  "test_secure_write_secret_rejects_symlink =
     (let victim = str_bytes (lit ''original'');
          dir = with_file (with_file tempdir (lit ''victim'') (Regular victim 420)) (lit ''secret'') (Symlink (Some victim));
          (r, ld) = secure_write_secret None dir (lit ''secret'') (str_bytes (lit ''overwrite'')) in
      is_err r \<and> fs_read ld (lit ''victim'') = Ok victim)"

definition test_validate_udid :: bool where
  "test_validate_udid =
     (is_Ok (validate_udid (lit ''00008110-000C694914F3801E'')) \<and> is_Ok (validate_udid (lit ''00008110000C694914F3801E''))
      \<and> is_err (validate_udid (lit ''../etc/passwd'')))"

definition test_connection_sanitize_udid_for_path :: bool where
  "test_connection_sanitize_udid_for_path =
     (sanitize_udid_for_path (lit ''00008110-000C694914F3801E'') \<noteq> None \<and> sanitize_udid_for_path (lit ''../../../etc/passwd'') = None)"

definition test_pair_record_exact_delete :: bool where
  "test_pair_record_exact_delete =
     (let dir = with_file (with_file tempdir (lit ''ABCDEF1234567890.plist'') (Regular (str_bytes (lit ''target'')) 420))
            (lit ''ABCDEF1234567890ABCD.plist'') (Regular (str_bytes (lit ''other'')) 420);
          (r, ld) = delete_pair_record dir (lit ''ABCDEF1234567890'') in
      is_Ok r \<and> ld_files ld (lit ''ABCDEF1234567890.plist'') = None \<and> ld_files ld (lit ''ABCDEF1234567890ABCD.plist'') \<noteq> None)"

definition test_pair_record_save_safeguard :: bool where
  "test_pair_record_save_safeguard =
     is_err (fst (save_pair_record (Ok ()) None tempdir (lit ''../../../etc/evil'') (str_bytes (lit ''data''))))"

definition test_pair_record_read_not_found :: "dir_iter \<Rightarrow> bool" where
  "test_pair_record_read_not_found entries =
     (case read_pair_record entries tempdir (lit ''NONEXISTENT12345678901'') of Err e \<Rightarrow> err_kind e = NotFound | _ \<Rightarrow> False)"

definition test_pair_record_save_rejects_symlink :: bool where
  "test_pair_record_save_rejects_symlink =
     (let udid = lit ''00008110-000C694914F3801E''; victim = str_bytes (lit ''sensitive'');
          dir = with_file (with_file tempdir (lit ''victim.plist'') (Regular victim 420)) (udid @ lit ''.plist'') (Symlink (Some victim));
          (r, ld) = save_pair_record (Ok ()) None dir udid (str_bytes (lit ''overwrite'')) in
      is_err r \<and> fs_read ld (lit ''victim.plist'') = Ok victim)"

definition test_pair_record_save_mode_0600 :: bool where
  "test_pair_record_save_mode_0600 =
     (let udid = lit ''00008110-000C694914F3801E'';
          (r, ld) = save_pair_record (Ok ()) None tempdir udid (str_bytes (lit ''data'')) in
      is_Ok r \<and> (case ld_files ld (udid @ lit ''.plist'') of Some (Regular b mode) \<Rightarrow> mode AND 511 = 384 | _ \<Rightarrow> False))"

lemma pass_secure_write_secret_mode: test_secure_write_secret_mode by code_simp

lemma pass_secure_write_secret_rejects_symlink: test_secure_write_secret_rejects_symlink by code_simp

lemma pass_validate_udid: test_validate_udid by code_simp

lemma pass_connection_sanitize_udid_for_path: test_connection_sanitize_udid_for_path by code_simp

lemma pass_pair_record_exact_delete: test_pair_record_exact_delete by code_simp

lemma pass_pair_record_save_safeguard: test_pair_record_save_safeguard by code_simp

lemma pass_pair_record_read_not_found:
  assumes "hash_iter entries"
  shows "test_pair_record_read_not_found entries"
proof -
  have "raw_udid (lit ''NONEXISTENT12345678901'') = lit ''NONEXISTENT12345678901''"
    "dashed_udid (lit ''NONEXISTENT12345678901'') = (Ok (lit ''NONEXISTENT12345678901'') :: (io_error, rstr) res)" by code_simp+
  then show ?thesis
    using hash_iterD [OF assms, of Map.empty]
    by (simp add: test_pair_record_read_not_found_def read_pair_record_def tempdir_def fs_metadata_ok_def fs_lookup_def Let_def del: lit_Cons)
qed

lemma pass_pair_record_save_rejects_symlink: test_pair_record_save_rejects_symlink by code_simp

lemma pass_pair_record_save_mode_0600: test_pair_record_save_mode_0600 by code_simp

section \<open>Clients without a daemon\<close>

text \<open>Nothing listens at the path: every connection is refused.\<close>

definition refused :: connector where
  "refused ep = Err (Io NotFound (lit ''No such file or directory (os error 2)''))"

definition test_list_devices_from_invalid_path :: "plist_writer \<Rightarrow> plist_reader \<Rightarrow> plist_reader \<Rightarrow> bool" where
  "test_list_devices_from_invalid_path to_xml from_binary from_xml =
     is_err (list_devices_from to_xml from_binary from_xml refused None (lit ''/nonexistent/socket''))"

text \<open>The test waits two seconds: the watch has failed by then or is still trying.\<close>

definition test_watch_devices_from_invalid_path :: "plist_writer \<Rightarrow> plist_reader \<Rightarrow> plist_reader \<Rightarrow> nat \<Rightarrow> bool" where
  "test_watch_devices_from_invalid_path to_xml from_binary from_xml attempts =
     (case fst (watch_devices_from to_xml from_binary from_xml (replicate attempts refused) None
              (lit ''/nonexistent/socket'') None) of
        None \<Rightarrow> True | Some r \<Rightarrow> is_err r)"

lemma pass_list_devices_from_invalid_path: "test_list_devices_from_invalid_path to_xml from_binary from_xml"
  by code_simp

lemma refused_attempt:
  "try_connect_and_listen to_xml from_binary from_xml refused (lit ''/nonexistent/socket'') None
     = (Err (lit ''No such file or directory (os error 2)''), [])"
  by (simp add: try_connect_and_listen_def open_request_def parse_endpoint_def strip_prefix_def refused_def)

lemma refused_forever:
  "attempt refused = (Err e, []) \<Longrightarrow> fst (watch_loop attempt backoff (replicate n refused)) = None"
  by (induction n arbitrary: backoff) (simp_all add: Let_def split: prod.splits, metis fst_conv)

lemma pass_watch_devices_from_invalid_path: "test_watch_devices_from_invalid_path to_xml from_binary from_xml attempts"
  by (simp add: test_watch_devices_from_invalid_path_def watch_devices_from_def socket_address_def refused_forever refused_attempt
      del: lit_Cons)

end
