(* ===== verification/Spec2Isabelle.thy ===== *)
theory Spec2Isabelle
  imports Relay_Main Proxy_Wakeup Conformance
begin

text \<open>
  A verification development for \<open>meridian-relay\<close>, a Rust reimplementation of Apple's usbmuxd: a
  daemon that owns USB connections to iOS devices, multiplexes TCP-like connections over them
  and serves local clients through a property list protocol, together with its command line
  clients. The model is a shallow embedding of the Rust sources under
  \<open>src/meridian-relay/src\<close>: the unix platform throughout, and the modules and branches that are
  compiled for Windows only in theories of their own.

  \<^bold>\<open>The parts and how they interact.\<close> A scan task lists the USB bus and turns it into attach and
  detach changes (\<open>daemon/device_scanner.rs\<close>); the device manager follows the changes, claims
  the mux interface of a device and runs one processing task per device
  (\<open>daemon/device_manager.rs\<close>). The task feeds the bytes of the bus to a reassembler, parses
  the frames and hands segments to the connection table (\<open>daemon/mux.rs\<close>), which is shared by
  all tasks behind one lock. A client connects to the daemon's socket (\<open>daemon/mod.rs\<close>,
  \<open>daemon/transport.rs\<close>), passes the access check and sends commands
  (\<open>daemon/connection.rs\<close>, \<open>daemon/protocol.rs\<close>): it lists devices, subscribes to changes,
  reads and writes pair records in the lockdown directory, or connects to a device port, from
  when on a proxy copies bytes between its socket and the connection table. In relay mode
  (\<open>daemon/relay.rs\<close>) clients are spliced to an upstream service instead. The client commands
  (\<open>main.rs\<close>, \<open>device/\<close>, \<open>tunnel.rs\<close>) talk to such a daemon.

  \<^bold>\<open>Theories.\<close>
  \<^item> \<open>Relay_Prelude\<close>: machine integers, byte orders, the result type with panics
    (\<open>Ok\<close>, \<open>Err\<close>, \<open>Panic\<close>), Rust strings as lists of code points, and hash maps with an
    arbitrary order of iteration (\<open>hash_iter\<close>).
  \<^item> \<open>Mux_Frame\<close>, \<open>Reassembler\<close>, \<open>Conn_Manager\<close> (\<open>daemon/mux.rs\<close>): wire formats, reassembly of
    frames from chunks, and the table of devices and connections with its packet handler.
  \<^item> \<open>Relay_Metrics\<close> (\<open>metrics.rs\<close>): the counters every handler threads through.
  \<^item> \<open>Device_Scanner\<close> (\<open>daemon/device_scanner.rs\<close>): enumeration and the difference of scans.
  \<^item> \<open>Device_Link\<close>, \<open>Device_Manager\<close> (\<open>daemon/device_manager.rs\<close>, \<open>daemon/usb.rs\<close>, the scan task
    of \<open>daemon/mod.rs\<close>): what a device's task does with packets, client data, window updates
    and connection requests, each critical section of the table lock one step; the managed
    devices, the select loop, the USB reader.
  \<^item> \<open>Security\<close>, \<open>Socket_Addr\<close>, \<open>Transport\<close>, \<open>Daemon_Config\<close> (\<open>security.rs\<close>,
    \<open>daemon/transport.rs\<close>, \<open>config.rs\<close>, \<open>platform/\<close>): identifiers, peers, socket addresses as the
    standard library reads and prints them, endpoints, streams and the configuration.
  \<^item> \<open>Usb_Protocol\<close>, \<open>Pair_Records\<close>, \<open>Client_Proxy\<close>, \<open>Client_Handler\<close> (\<open>daemon/protocol.rs\<close>,
    \<open>daemon/connection.rs\<close>): packets, the lockdown directory, the proxy, the command loop.
  \<^item> \<open>Proxy_Wakeup\<close> (\<open>proxy_loop\<close> of \<open>daemon/connection.rs\<close>): the proxy between any two of its
    awaits, with the notification it waits on; \<open>notify_contract\<close> states what it relies on of tokio.
  \<^item> \<open>Daemon_Server\<close> (\<open>daemon/mod.rs\<close>, \<open>daemon/relay.rs\<close>): start, socket file, accept loops.
  \<^item> \<open>Device_Client\<close>, \<open>Lockdown_Client\<close>, \<open>Tunnel\<close>, \<open>Command_Line\<close>, \<open>Host_Setup\<close> (\<open>device/\<close>,
    \<open>tunnel.rs\<close>, \<open>main.rs\<close>, \<open>setup.rs\<close>): the client commands and host provisioning.
  \<^item> \<open>Windows_Platform\<close>, \<open>Windows_Service\<close>, \<open>Windows_Driver\<close> (\<open>platform/windows.rs\<close>, the pipe
    branches of \<open>daemon/transport.rs\<close>, \<open>service.rs\<close>, \<open>driver.rs\<close>, the Windows branch of
    \<open>setup.rs\<close>): descriptors, secret files and named pipes, the service and its life cycle, the
    driver package.
  \<^item> \<open>Relay_Main\<close> (\<open>main.rs\<close>): the subcommands, what each prints and how it ends.
  \<^item> \<open>Conformance_Mux\<close>, \<open>Conformance_Scan\<close>, \<open>Conformance\<close>: the unit tests of the repository as
    truth values over the model, each shown to hold, so that the definitions can be compared
    with the code on the inputs its authors chose.

  \<^bold>\<open>Interfaces.\<close> Seven locales state what one part relies on in another, each interpreted on the
  model's own operations: \<open>change_feed\<close> (replaying the broadcast changes gives the scanner's
  devices), \<open>byte_queue\<close> (the receive buffer of a connection between the packet handler and
  the proxy), \<open>pair_store\<close> (pair records under saves and deletes), \<open>secret_store\<close> (files that
  hold secrets, with the writers of both platforms as its two instances), \<open>admission\<close> (an accept loop
  with a limit, for both back ends), \<open>framing\<close> and its extension \<open>packet_codec\<close> (frames that a
  reassembler cuts out of a stream and a codec that reads what it writes).

  \<^bold>\<open>What is shown.\<close> The data path (\<open>device_bytes_reach_client\<close> and
  \<open>client_bytes_reach_device\<close> below compose its two directions): frames survive
  any chunking of the bus, the payloads of a device reach exactly their connection and its
  client and are acknowledged in order, the receive path is a
  queue under every interleaving of the tasks, the client's bytes leave as one contiguous
  stream, and the proxy forwards them unchanged. The proxy: its runs between any two awaits are
  runs of the loop in whole turns, it is woken exactly by data and by the teardown of its device,
  and that teardown ends it within three turns. The table: an invariant under all
  interleavings, port allocation, an answer to every connection request within the timeout.
  Devices: the difference of scans refines a per-port state machine with hysteresis, replayed
  changes give the known devices, a scan round leaves every claimable device managed. Clients:
  access control fails closed, requests are answered in order with their tags, a stored pair
  record is served, the lockdown port is closed without one as long as the device is there, the
  client limit holds, and the
  list, watch and stats commands show what the daemon knows, broadcasts and counts; how each
  command ends is stated for all of them. Windows: no descriptor leaks, a secret ends up
  protected, the wait for a busy pipe ends, the service reports its states in order and stops
  when asked. Formats and settings:
  round trips of packets, endpoints, frames and modes, bounds on what is read and buffered, the
  precedence of configuration sources, and that a validated configuration meets the
  assumptions of the other theorems. Several theorems state defects: a stray reset that hits
  another connection, a hole in the stream after an overflow, data lost on a close, data that
  arrives just before the proxy waits and does not wake it, a pair record check that is skipped for
  a device that vanishes at the wrong moment, a tunnel
  that finds no device, a late answer given to the wrong key, a pipe that does not exist
  between bind and accept, pipe clients that all count as user 0, a setup that cannot be run
  twice.

  \<^bold>\<open>Modelling decisions.\<close> Fixed-width integers are words and wrap as in the source; \<open>usize\<close> is a
  natural number. Locks are critical sections: a definition per section, composed by handlers
  whose arguments say what other tasks do in between (\<open>interfere\<close>, \<open>rounds\<close>, \<open>tasks\<close>). What
  the operating system and the crates decide (file operations, writes, time, randomness, the
  bus, property list and TOML syntax, TLS, JSON) is an argument; what a theorem needs of it is
  a hypothesis. Loops over external events (the select loop, the proxy, a subscription, a
  session, the reconnection loop) recurse over the list of events, so no fuel is needed: a
  result \<open>None\<close> or \<open>Running\<close> says that the listed events end before the loop does. All other
  loops terminate and are shown to (the reassembler and the event stream by the bytes left, the
  port search by the ports left, the lockdown reader by the reads left); the wait for a busy
  pipe, whose end depends on a clock, is a partial function shown to return within its deadline.

  \<^bold>\<open>Not modelled.\<close> What runs beneath the sources: system calls, \<open>rusb\<close>, \<open>rustls\<close>, the
  Windows API and \<open>pnputil\<close> appear as arguments that say how they answer. Parsing of the command
  line (\<open>clap\<close>), of TOML and of property lists, the text of log messages, and the module
  declarations of \<open>lib.rs\<close> have no definitions. The pipe accept loop of the Windows service
  shares \<open>usb_daemon_step\<close> with the unix one; the relay back end is modelled for unix. The
  \<open>meridian-py\<close>, \<open>probe\<close> and \<open>tools\<close> directories are separate programs in other languages.
\<close>

section \<open>Properties across components\<close>

text \<open>C1: From the USB bus to the client's socket, end to end. A device sends data segments on an
  established connection, no more than its receive buffer has room for, and the client's socket
  and the device's channel take what the proxy writes. However the bulk reads cut its byte stream and whatever timeouts come
  in between, in whatever order the hash map iterates: the reader, the reassembler, the parser
  and the packet handler put the payloads into the connection's buffer, one acknowledgement
  per segment goes back, in order, each for the last byte of its segment, and the next round of
  the client's proxy writes to the client exactly the bytes buffered before followed by the
  payloads, in order, then asks for a window update and leaves the buffer empty. No other
  connection or device is touched.\<close>

theorem device_bytes_reach_client:
  assumes "hash_iter iter" and "cm_inv (cfg_max_conn_buffer config) devs"
    and "devs i = Some d" and "d_connections d k = Some c" and "c_state c = Connected" and "c_dest_port c \<noteq> 0xFACE"
    and "7 \<le> cfg_max_reassembly_bytes config"
    and "\<forall>g \<in> set gs. segment_for k (c_dest_port c) g \<and> segment_fits (cfg_max_reassembly_bytes config) g"
    and "c_ib_buf c @ concat (map sg_payload gs) \<noteq> []"
    and "length (c_ib_buf c) + length (concat (map sg_payload gs)) \<le> cfg_max_conn_buffer config"
    and "\<forall>r \<in> set reads. read_continues r" and "concat (map read_bytes reads) = concat (map segment_frame gs)"
    and "read_worker (\<lambda>_. True) m0 reads = (m1, chunks)"
    and "usb_inputs iter (\<lambda>_. None) (cfg_max_conn_buffer config) i (reassembler_new (cfg_max_reassembly_bytes config))
           devs neg m1 chunks = (r', devs', neg', m2, sent)"
    and "px_write io = (\<lambda>_. None)" and "px_channel_open io = (\<lambda>_. None)"
  shows "list_all2 (\<lambda>g p. \<exists>a. parse_packet p = Ok (Tcp a []) \<and> th_source_port a = k \<and> th_dest_port a = c_dest_port c
            \<and> th_ack a = sg_seq g + word_of_nat (length (sg_payload g))) gs sent
    \<and> (\<exists>devs'' m3 d'' c''. proxy_loop io i k devs' m2 [id, id] [] =
          (None, devs'', m3, \<lparr>po_to_client = c_ib_buf c @ concat (map sg_payload gs), po_to_device = [WindowUpdate k]\<rparr>)
        \<and> devs'' = devs(i \<mapsto> d'') \<and> d_connections d'' = (d_connections d)(k \<mapsto> c'') \<and> c_ib_buf c'' = [])"
proof -
  have chunks: "concat chunks = concat (map segment_frame gs)"
    using read_worker_in_order [of m0 reads] assms(11-13) by (simp add: takeWhile_eq_all_conv [THEN iffD2])
  obtain d' c' where devs': "devs' = devs(i \<mapsto> d')" "d_connections d' = (d_connections d)(k \<mapsto> c')"
    and buf: "c_ib_buf c' = c_ib_buf c @ concat (map sg_payload gs)" and st: "c_state c' = Connected"
    and acks: "list_all2 (\<lambda>g p. \<exists>a. parse_packet p = Ok (Tcp a []) \<and> th_source_port a = k \<and> th_dest_port a = c_dest_port c
            \<and> th_ack a = sg_seq g + word_of_nat (length (sg_payload g))) gs sent"
    using usb_stream_reaches_connection [OF assms(1-4,8,7,10,6) chunks assms(14)] assms(5) by metis
  have ne: "c_ib_buf c' \<noteq> []" using buf assms(9) by simp
  let ?c = "c'\<lparr>c_ib_buf := []\<rparr>"
  let ?d = "d'\<lparr>d_connections := (d_connections d)(k \<mapsto> ?c)\<rparr>"
  from ne have "proxy_loop io i k devs' m2 [id, id] [] =
      (None, devs(i \<mapsto> ?d), count_client_tx (length (c_ib_buf c')) m2,
       \<lparr>po_to_client = c_ib_buf c', po_to_device = [WindowUpdate k]\<rparr>)"
    using devs' st assms(15,16)
    by (simp add: drain_section_def conn_drain_def put_conn_def out_add_def out_none_def Let_def)
  moreover have "d_connections ?d = (d_connections d)(k \<mapsto> ?c)" "c_ib_buf ?c = []" by simp_all
  ultimately show ?thesis unfolding buf [symmetric] using acks by blast
qed

theorem device_bytes_reach_client_witness:
  "\<exists>g m1 chunks r' devs' neg' m2 sent devs'' m3.
     read_worker (\<lambda>_. True) (metrics_new 0) [Ok (take 9 (segment_frame g)), Err (lit ''Timeout''), Ok (drop 9 (segment_frame g))]
       = (m1, chunks)
     \<and> usb_inputs (\<lambda>m. sorted_list_of_set (dom m)) (\<lambda>_. None) (cfg_max_conn_buffer config_default) 1
         (reassembler_new (cfg_max_reassembly_bytes config_default)) example_devs True m1 chunks = (r', devs', neg', m2, sent)
     \<and> proxy_loop \<lparr>px_channel_open = \<lambda>_. None, px_write = \<lambda>_. None\<rparr> 1 1024 devs' m2 [id, id] []
       = (None, devs'', m3, \<lparr>po_to_client = [1, 2, 3], po_to_device = [WindowUpdate 1024]\<rparr>)"
proof -
  define g where "g = \<lparr>sg_seqs = (1, 2), sg_sport = 62078, sg_dport = 1024, sg_seq = 7, sg_ack = 9,
      sg_flags = TCP_ACK, sg_window = 512, sg_payload = [1, 2, 3]\<rparr>"
  let ?reads = "[Ok (take 9 (segment_frame g)), Err (lit ''Timeout''), Ok (drop 9 (segment_frame g))]"
  let ?io = "\<lparr>px_channel_open = \<lambda>_. None, px_write = \<lambda>_. None\<rparr>"
  obtain m1 chunks where rd: "read_worker (\<lambda>_. True) (metrics_new 0) ?reads = (m1, chunks)" by fastforce
  obtain r' devs' neg' m2 sent where run: "usb_inputs (\<lambda>m. sorted_list_of_set (dom m)) (\<lambda>_. None) (cfg_max_conn_buffer config_default) 1
         (reassembler_new (cfg_max_reassembly_bytes config_default)) example_devs True m1 chunks = (r', devs', neg', m2, sent)"
    by (metis prod_cases5)
  have g: "\<forall>x \<in> set [g]. segment_for 1024 (c_dest_port example_conn) x \<and> segment_fits (cfg_max_reassembly_bytes config_default) x"
    by (simp add: segment_for_def segment_fits_def g_def data_flags_def TCP_ACK_def TCP_SYN_def TCP_RST_def TCP_FIN_def
        config_default_def)
  have cfg: "7 \<le> cfg_max_reassembly_bytes config_default" "3 \<le> cfg_max_conn_buffer config_default"
    by (simp_all add: config_default_def)
  have "concat (map sg_payload [g]) = [1, 2, 3]" by (simp add: g_def)
  moreover have "\<forall>r \<in> set ?reads. read_continues r" by (simp add: is_timeout_def contains_str.simps)
  moreover have "concat (map read_bytes ?reads) = concat (map segment_frame [g])" by simp
  ultimately obtain devs'' m3 where "proxy_loop ?io 1 1024 devs' m2 [id, id] [] =
      (None, devs'', m3, \<lparr>po_to_client = [1, 2, 3], po_to_device = [WindowUpdate 1024]\<rparr>)"
    using device_bytes_reach_client [OF hash_iter_witness cm_inv_example example_simps(1,2) example_simps(4) _ cfg(1) g _ _ _ _ rd run,
        of ?io] cfg(2)
    by auto
  with rd run show ?thesis by blast
qed

text \<open>C2: From the client's socket to the USB bus, end to end. A client's bytes are read by its
  proxy, whatever the other tasks do meanwhile, and passed on as messages to the device's task,
  where the messages of other clients come in between in any order. As long as the connection is
  established and the writes to the bus succeed, the task writes frames that
  parse as TCP segments; those of the client's connection carry exactly the bytes of a prefix of
  its reads (of all of them while the device is silent and the channel open), in order, between
  its two ports, with sequence numbers that continue the connection's stream without a gap, and
  the connection records them as sent.\<close>

theorem client_bytes_reach_device:
  assumes "proxy_connection io final i k devs0 m0 rounds evs = (r, devs1, m1, out)"
    and "filter (\<lambda>msg. msg_port msg = k) msgs = po_to_device out"
    and "\<forall>msg \<in> set msgs. length (msg_data msg) < 2 ^ 32 - 36"
    and "dm_conn_mgr dm i = Some d" and "d_connections d k = Some c" and "c_state c = Connected"
    and "ordinary_ports d" and "t_running t"
  shows "\<exists>stream dm' d' c' sent segs.
      task_loop iter (\<lambda>_. None) (cfg_max_conn_buffer config) i t dm (map OutMsg msgs) = (t, dm', sent, [])
    \<and> frames_of segs sent \<and> concat (map snd (own k segs)) = stream
    \<and> (\<exists>n \<le> length evs. stream = concat (map event_data (take n evs)))
    \<and> (quiet i k devs0 \<and> (\<forall>f \<in> set rounds. \<forall>ds. quiet i k ds \<longrightarrow> quiet i k (f ds)) \<and> length evs \<le> length rounds
        \<and> (\<forall>ev \<in> set evs. passes_on ev) \<and> px_channel_open io = (\<lambda>_. None) \<longrightarrow> stream = concat (map event_data evs))
    \<and> contiguous (c_tx_seq c) (own k segs) \<and> (\<forall>(h, x) \<in> set (own k segs). th_dest_port h = c_dest_port c)
    \<and> dm_conn_mgr dm' i = Some d' \<and> d_connections d' k = Some c' \<and> c_ob_buf c' = c_ob_buf c @ stream"
proof -
  let ?stream = "concat (map msg_data (po_to_device out))"
  obtain dm' d' c' sent segs
    where run: "task_loop iter (\<lambda>_. None) (cfg_max_conn_buffer config) i t dm (map OutMsg msgs) = (t, dm', sent, [])"
      "dm_conn_mgr dm' i = Some d'" "d_connections d' k = Some c'" "frames_of segs sent" and out: "delivered k c c' msgs segs"
    using task_out_msgs [where iter = iter and mx = "cfg_max_conn_buffer config", OF assms(4-7,3,8)] by blast
  from out have segs: "concat (map snd (own k segs)) = ?stream" "c_ob_buf c' = c_ob_buf c @ ?stream"
      "contiguous (c_tx_seq c) (own k segs)" "\<forall>(h, x) \<in> set (own k segs). th_dest_port h = c_dest_port c"
    unfolding delivered_def assms(2) by simp_all
  have "\<exists>n \<le> length evs. ?stream = concat (map event_data (take n evs))"
    using proxy_connection_forwards [OF assms(1)] by blast
  moreover note proxy_connection_complete [OF _ _ _ _ _ assms(1)]
  ultimately show ?thesis using run segs by (intro exI [of _ ?stream]) blast
qed

theorem client_bytes_reach_device_witness:
  "\<exists>dm' sent segs. task_loop (\<lambda>m. sorted_list_of_set (dom m)) (\<lambda>_. None) (cfg_max_conn_buffer config_default) 1
       (task_new 65536) \<lparr>dm_devices = Map.empty, dm_conn_mgr = example_devs, dm_metrics = metrics_new 0\<rparr>
       [OutMsg (Data 1024 [5, 6]), OutMsg (Data 9 [1]), OutMsg (Data 1024 [7])] = (task_new 65536, dm', sent, [])
     \<and> frames_of segs sent \<and> concat (map snd (own 1024 segs)) = [5, 6, 7]"
proof -
  let ?io = "\<lparr>px_channel_open = \<lambda>_. None, px_write = \<lambda>_. None\<rparr>"
  let ?evs = "[ClientRead [5, 6], ClientRead [7]]"
  let ?msgs = "[Data 1024 [5, 6], Data 9 [1], Data 1024 [7]]"
  let ?dm = "\<lparr>dm_devices = Map.empty, dm_conn_mgr = example_devs, dm_metrics = metrics_new 0\<rparr>"
  let ?out = "\<lparr>po_to_client = [], po_to_device = [Data 1024 [5, 6], Data 1024 [7]]\<rparr>"
  have run: "proxy_connection ?io id 1 1024 example_devs (metrics_new 0) [id, id] ?evs
     = (None, example_devs, count_client_rx 1 (count_client_rx 2 (metrics_new 0)), ?out)"
    by (simp add: proxy_connection_def get_data_notify_def drain_section_def out_add_def out_none_def)
  have msgs: "filter (\<lambda>msg. msg_port msg = 1024) ?msgs = po_to_device ?out"
    "\<forall>msg \<in> set ?msgs. length (msg_data msg) < 2 ^ 32 - 36" by simp_all
  have dm: "dm_conn_mgr ?dm 1 = Some example_device" "d_connections example_device 1024 = Some example_conn"
    "c_state example_conn = Connected" "t_running (task_new 65536)" by (simp_all add: task_new_def)
  have "ordinary_ports example_device"
    by (simp add: ordinary_ports_def example_device_def example_conn_def connection_new_def)
  moreover have "quiet 1 1024 example_devs" by (simp add: quiet_def drain_section_def)
  ultimately show ?thesis
    using client_bytes_reach_device [OF run msgs dm(1-3) _ dm(4), of "\<lambda>m. sorted_list_of_set (dom m)" config_default]
    by fastforce
qed

end
